(* ===== verification/Prelude.thy ===== *)
theory Prelude
  imports Main "HOL-Library.Char_ord" "HOL-Library.List_Lexorder" "HOL-Library.AList"
    "HOL-Library.Sublist" "HOL-Library.Multiset"
begin

text \<open>
  Shared vocabulary of the development: the outcome of a Go call that may also block or
  panic, the functions of the Go packages \<open>strings\<close> and \<open>strconv\<close> that the sources use, and
  the generic lemmas on lists and association lists that the component theories rest on.
  A Go string is a \<open>string\<close> (a list of bytes) and is ordered bytewise, as Go orders it.
\<close>

named_theorems os_simps \<open>effect of a file-system call on a world without injected faults\<close>
named_theorems world_simps \<open>frame facts: what an operation leaves alone\<close>

section \<open>Outcomes\<close>

text \<open>
  A call either returns, blocks forever (a channel operation or a mutex that nobody will
  release), or panics.
\<close>

datatype 'a outcome = Ret 'a | Blocked | Panic string

section \<open>Strings\<close>

text \<open>\<open>strings.Split(s, sep)\<close> for a separator of one byte; it never returns an empty list.\<close>

fun split_on :: "char \<Rightarrow> string \<Rightarrow> string list" where
  "split_on c [] = [[]]"
| "split_on c (x # xs) =
     (if x = c then [] # split_on c xs
      else (case split_on c xs of [] \<Rightarrow> [[x]] | y # ys \<Rightarrow> (x # y) # ys))"

text \<open>\<open>strings.Join(xs, sep)\<close>.\<close>

fun join_with :: "string \<Rightarrow> string list \<Rightarrow> string" where
  "join_with sep [] = []"
| "join_with sep [x] = x"
| "join_with sep (x # y # ys) = x @ sep @ join_with sep (y # ys)"

text \<open>\<open>strings.HasPrefix(s, p)\<close> is \<open>prefix p s\<close>; \<open>strings.TrimLeft\<close> with a cutset.\<close>

definition trim_left :: "char list \<Rightarrow> string \<Rightarrow> string" where
  "trim_left cs s = dropWhile (\<lambda>c. c \<in> set cs) s"

text \<open>\<open>strings.Index(s, sub)\<close>: the first position at which \<open>sub\<close> occurs, \<open>None\<close> for -1.\<close>

fun str_index :: "string \<Rightarrow> string \<Rightarrow> nat option" where
  "str_index [] sub = (if sub = [] then Some 0 else None)"
| "str_index (x # xs) sub =
     (if prefix sub (x # xs) then Some 0 else map_option Suc (str_index xs sub))"

text \<open>Decimal rendering (\<open>%d\<close> and \<open>strconv.Itoa\<close>).\<close>

definition digit_char :: "nat \<Rightarrow> char" where
  "digit_char d = char_of (48 + d)"

fun nat_digits :: "nat \<Rightarrow> string" where
  "nat_digits n = (if n < 10 then [digit_char n] else nat_digits (n div 10) @ [digit_char (n mod 10)])"

declare nat_digits.simps [simp del]

definition itoa :: "int \<Rightarrow> string" where
  "itoa i = (if i < 0 then CHR ''-'' # nat_digits (nat (- i)) else nat_digits (nat i))"

text \<open>ASCII case folding, as \<open>encoding/json\<close> applies it to object keys.\<close>

definition to_lower :: "char \<Rightarrow> char" where
  "to_lower c = (if CHR ''A'' \<le> c \<and> c \<le> CHR ''Z'' then char_of (of_char c + 32 :: nat) else c)"

definition lower :: "string \<Rightarrow> string" where
  "lower s = map to_lower s"

section \<open>Lemmas on strings\<close>

lemma split_on_ne [simp]: "split_on c s \<noteq> []"
  by (cases s) (auto split: list.splits)

lemma split_on_nochar [simp]: "c \<notin> set s \<Longrightarrow> split_on c s = [s]"
  by (induction s) auto

lemma split_on_append:
  "split_on c (xs @ c # ys) = split_on c xs @ split_on c ys"
  by (induction xs) (auto split: list.splits)

lemma split_on_pieces: "x \<in> set (split_on c s) \<Longrightarrow> c \<notin> set x"
proof (induction s arbitrary: x)
  case (Cons a s)
  then show ?case
    by (cases "split_on c s") (auto split: if_splits)
qed simp

text \<open>Splitting and joining on the same separator are inverse.\<close>

lemma join_with_Cons: "xs \<noteq> [] \<Longrightarrow> join_with sep (x # xs) = x @ sep @ join_with sep xs"
  by (cases xs) auto

lemma join_split: "join_with [c] (split_on c s) = s"
proof (induction s)
  case (Cons a s)
  show ?case
  proof (cases "split_on c s")
    case Nil
    then show ?thesis using split_on_ne by blast
  next
    case (Cons y ys)
    with Cons.IH show ?thesis
      by (cases ys) (auto simp: join_with_Cons)
  qed
qed simp

lemma str_index_Some_drop: "str_index s sub = Some i \<Longrightarrow> prefix sub (drop i s) \<and> i \<le> length s"
proof (induction s arbitrary: i)
  case (Cons a s)
  then show ?case by (auto split: if_splits)
qed (auto split: if_splits)

lemma str_index_first:
  assumes "prefix sub t" and "\<And>k. k < length p \<Longrightarrow> \<not> prefix sub (drop k (p @ t))"
  shows "str_index (p @ t) sub = Some (length p)"
  using assms
proof (induction p)
  case Nil
  then show ?case by (cases t) auto
next
  case (Cons a p)
  have "\<not> prefix sub (a # p @ t)"
    using Cons.prems(2) [of 0] by simp
  moreover have "str_index (p @ t) sub = Some (length p)"
  proof (rule Cons.IH [OF Cons.prems(1)])
    fix k assume "k < length p"
    with Cons.prems(2) [of "Suc k"] show "\<not> prefix sub (drop k (p @ t))" by simp
  qed
  ultimately show ?case by simp
qed

section \<open>Lemmas on association lists and sorting\<close>

lemma map_of_update [simp]: "map_of (AList.update k v xs) = (map_of xs)(k \<mapsto> v)"
  by (rule update_conv')

lemma map_of_delete [simp]: "map_of (AList.delete k xs) = (map_of xs)(k := None)"
  by (rule delete_conv')

lemma butlast_last_append: "p \<noteq> [] \<Longrightarrow> butlast p @ last p # q = p @ q"
  by (induction p) auto

lemma sort_eq_of_mset:
  fixes xs ys :: "'a::linorder list"
  assumes "distinct xs" and "distinct ys" and "set xs = set ys"
  shows "sort xs = sort ys"
  using assms by (metis sorted_list_of_set_sort_remdups distinct_remdups_id)

lemma map_of_sort_key:
  assumes "distinct (map fst xs)"
  shows "map_of (sort_key fst xs) = map_of xs"
  by (rule map_of_inject_set [THEN iffD2]) (use assms in \<open>auto simp: distinct_map\<close>)

lemma distinct_fst_sort_key [simp]:
  "distinct (map fst (sort_key fst xs)) = distinct (map fst xs)"
proof -
  have "mset (map fst (sort_key fst xs)) = mset (map fst xs)"
    by simp
  then show ?thesis by (rule mset_eq_imp_distinct_iff)
qed

end
