(* ===== verification/Json.thy ===== *)
theory Json
  imports Prelude
begin

text \<open>
  The part of the Go package \<open>encoding/json\<close> that the sources use. A JSON document is
  represented by its tree. Points in time are leaves of their own: \<open>JTime t\<close> is the text that
  \<open>time.Time\<close> marshals to (RFC 3339, UTC, with \<open>t\<close> in nanoseconds since the epoch) and \<open>JDate s\<close>
  the text of the layout \<open>DateFmt\<close> of \<open>cmd/mistryd/main.go\<close> (with \<open>s\<close> in seconds).
  \<open>json_text\<close> renders a document the way \<open>json.Marshal\<close> does; decoding works on trees.
\<close>

datatype json =
    JNull
  | JBool bool
  | JInt int
  | JStr string
  | JTime int
  | JDate int
  | JArr "json list"
  | JObj "(string \<times> json) list"

section \<open>Dates\<close>

text \<open>Proleptic Gregorian date of a day number (day 0 is 1970-01-01).\<close>

definition civil_of_days :: "int \<Rightarrow> int \<times> int \<times> int" where
  "civil_of_days z0 =
     (let z = z0 + 719468; era = z div 146097; doe = z mod 146097;
          yoe = (doe - doe div 1460 + doe div 36524 - doe div 146096) div 365;
          doy = doe - (365 * yoe + yoe div 4 - yoe div 100);
          mp = (5 * doy + 2) div 153;
          d = doy - (153 * mp + 2) div 5 + 1;
          m = (if mp < 10 then mp + 3 else mp - 9);
          y = yoe + era * 400 + (if m \<le> 2 then 1 else 0)
      in (y, m, d))"

definition pad :: "nat \<Rightarrow> int \<Rightarrow> string" where
  "pad k i = (let s = itoa i in replicate (k - length s) (CHR ''0'') @ s)"

definition clock_text :: "int \<Rightarrow> string" where
  "clock_text sod = pad 2 (sod div 3600) @ '':'' @ pad 2 (sod div 60 mod 60) @ '':'' @ pad 2 (sod mod 60)"

definition rfc3339 :: "int \<Rightarrow> string" where
  "rfc3339 t =
     (let sec = t div 1000000000; ns = t mod 1000000000;
          (y, m, d) = civil_of_days (sec div 86400);
          frac = (if ns = 0 then []
                  else CHR ''.'' # rev (dropWhile (\<lambda>c. c = CHR ''0'') (rev (pad 9 ns))))
      in pad 4 y @ ''-'' @ pad 2 m @ ''-'' @ pad 2 d @ ''T'' @ clock_text (sec mod 86400) @ frac @ ''Z'')"

definition day_names :: "string list" where
  "day_names = [''Sun'', ''Mon'', ''Tue'', ''Wed'', ''Thu'', ''Fri'', ''Sat'']"

definition month_names :: "string list" where
  "month_names = [''Jan'', ''Feb'', ''Mar'', ''Apr'', ''May'', ''Jun'', ''Jul'', ''Aug'', ''Sep'',
     ''Oct'', ''Nov'', ''Dec'']"

definition date_fmt :: "int \<Rightarrow> string" where
  "date_fmt sec =
     (let days = sec div 86400; (y, m, d) = civil_of_days days
      in day_names ! nat ((days + 4) mod 7) @ '', '' @ pad 2 d @ '' ''
         @ month_names ! nat ((m - 1) mod 12) @ '' '' @ pad 4 y @ '' '' @ clock_text (sec mod 86400))"

section \<open>Rendering\<close>

definition hex_digit :: "nat \<Rightarrow> char" where
  "hex_digit d = (if d < 10 then char_of (48 + d) else char_of (87 + d))"

definition quote_char :: "char \<Rightarrow> string" where
  "quote_char c =
     (let n = (of_char c :: nat); bs = char_of (92 :: nat); dq = char_of (34 :: nat) in
      if c = dq \<or> c = bs then [bs, c]
      else if n = 10 then [bs, CHR ''n''] else if n = 13 then [bs, CHR ''r'']
      else if n = 9 then [bs, CHR ''t'']
      else if n < 32 \<or> c = CHR ''<'' \<or> c = CHR ''>'' \<or> c = CHR ''&''
        then bs # ''u00'' @ [hex_digit (n div 16), hex_digit (n mod 16)]
      else [c])"

definition quote_text :: "string \<Rightarrow> string" where
  "quote_text s = char_of (34 :: nat) # concat (map quote_char s) @ [char_of (34 :: nat)]"

fun json_text :: "json \<Rightarrow> string" where
  "json_text JNull = ''null''"
| "json_text (JBool b) = (if b then ''true'' else ''false'')"
| "json_text (JInt i) = itoa i"
| "json_text (JStr s) = quote_text s"
| "json_text (JTime t) = quote_text (rfc3339 t)"
| "json_text (JDate d) = quote_text (date_fmt d)"
| "json_text (JArr xs) = ''['' @ join_with '','' (map json_text xs) @ '']''"
| "json_text (JObj kvs) =
     CHR ''{'' # join_with '','' (map (\<lambda>kv. quote_text (fst kv) @ '':'' @ json_text (snd kv)) kvs) @ ''}''"

section \<open>Decoding an object into a struct\<close>

text \<open>
  \<open>json.Unmarshal\<close> visits the fields of an object in order and stores each value into the
  struct field whose name matches the key up to case; unknown keys are skipped and a later
  duplicate wins. \<open>set_field\<close> is the struct's own field assignment; it returns \<open>None\<close> when a
  value has the wrong type, which makes the whole call fail.
\<close>

fun decode_fields :: "(string \<Rightarrow> json \<Rightarrow> 'a \<Rightarrow> 'a option) \<Rightarrow> (string \<times> json) list \<Rightarrow> 'a \<Rightarrow> 'a option" where
  "decode_fields set_field [] x = Some x"
| "decode_fields set_field ((k, v) # kvs) x =
     (case set_field k v x of None \<Rightarrow> None | Some y \<Rightarrow> decode_fields set_field kvs y)"

text \<open>Values of the basic types: a JSON \<open>null\<close> leaves the target unchanged.\<close>

fun as_str :: "json \<Rightarrow> string \<Rightarrow> string option" where
  "as_str (JStr s) old = Some s"
| "as_str (JTime t) old = Some (rfc3339 t)"
| "as_str (JDate d) old = Some (date_fmt d)"
| "as_str JNull old = Some old"
| "as_str _ old = None"

fun as_int :: "json \<Rightarrow> int \<Rightarrow> int option" where
  "as_int (JInt i) old = Some i"
| "as_int JNull old = Some old"
| "as_int _ old = None"

fun as_bool :: "json \<Rightarrow> bool \<Rightarrow> bool option" where
  "as_bool (JBool b) old = Some b"
| "as_bool JNull old = Some old"
| "as_bool _ old = None"

fun as_time :: "json \<Rightarrow> int \<Rightarrow> int option" where
  "as_time (JTime t) old = Some t"
| "as_time JNull old = Some old"
| "as_time _ old = None"

text \<open>
  A Go \<open>map[string]string\<close> is an association list without duplicate keys; \<open>null\<close> stores the nil
  map.
\<close>

fun as_str_map :: "json \<Rightarrow> (string \<times> string) list \<Rightarrow> (string \<times> string) list option" where
  "as_str_map (JObj kvs) old =
     decode_fields (\<lambda>k v m. map_option (\<lambda>s. AList.update k s m) (as_str v [])) kvs old"
| "as_str_map JNull old = Some []"
| "as_str_map _ old = None"

text \<open>\<open>json.Marshal\<close> of a \<open>map[string]string\<close> writes the keys in order.\<close>

definition str_map_json :: "(string \<times> string) list \<Rightarrow> json" where
  "str_map_json m = JObj (map (\<lambda>kv. (fst kv, JStr (snd kv))) (sort_key fst m))"

lemma decode_str_map:
  assumes "distinct (map fst (old @ kvs))"
  shows "decode_fields (\<lambda>k v m. map_option (\<lambda>s. AList.update k s m) (as_str v []))
           (map (\<lambda>kv. (fst kv, JStr (snd kv))) kvs) old = Some (old @ kvs)"
  using assms
proof (induction kvs arbitrary: old)
  case (Cons kv kvs)
  have upd: "AList.update (fst kv) (snd kv) old = old @ [kv]"
    using Cons.prems by (induction old) auto
  show ?case
    using Cons.IH [of "old @ [kv]"] Cons.prems by (simp add: upd)
qed simp

lemma as_str_map_roundtrip:
  assumes "distinct (map fst m)"
  shows "as_str_map (str_map_json m) [] = Some (sort_key fst m)"
  using decode_str_map [of "[]" "sort_key fst m"] assms by (simp add: str_map_json_def)

end
