(* ===== verification/Os.thy ===== *)
theory Os
  imports Json
begin

text \<open>
  The model of what the sources use of the Go packages \<open>os\<close>, \<open>io/ioutil\<close>, \<open>path/filepath\<close> and
  \<open>time\<close>.

  Paths are absolute and clean (\<open>filepath.Join\<close> returns clean paths): a path is the list of its
  components. The configured roots are taken relative to \<open>/\<close>, the working directory of the
  daemon. The file system is a tree of files, directories and symbolic links with absolute
  targets; a path is resolved by \<open>namei\<close>, which follows links and gives up with \<open>ELOOP\<close>.

  A world carries, beside the tree, the faults the operating system will inject (the n-th call
  fails with the n-th entry, if it is an error), the coming readings of the clock and of the
  random source, and the state of the Docker daemon. A call that fails leaves the tree unchanged. Logging is not modelled.
\<close>

type_synonym path = "string list"

section \<open>Errors\<close>

datatype errno = ENOENT | ENOTDIR | EEXIST | ENOTEMPTY | EISDIR | ELOOP | EINVAL | EACCES | EIO | ENOSPC

text \<open>
  Go errors: the errors of \<open>os\<close>, errors made from a text by \<open>errors.New\<close> and \<open>fmt.Errorf\<close>, and
  \<open>types.ErrImageBuild\<close> of \<open>pkg/types/errors.go\<close>.
\<close>

datatype goerr =
    PathError string path errno
  | LinkError string path path errno
  | ErrorString string
  | ErrImageBuild string goerr

fun errno_text :: "errno \<Rightarrow> string" where
  "errno_text ENOENT = ''no such file or directory''"
| "errno_text ENOTDIR = ''not a directory''"
| "errno_text EEXIST = ''file exists''"
| "errno_text ENOTEMPTY = ''directory not empty''"
| "errno_text EISDIR = ''is a directory''"
| "errno_text ELOOP = ''too many levels of symbolic links''"
| "errno_text EINVAL = ''invalid argument''"
| "errno_text EACCES = ''permission denied''"
| "errno_text EIO = ''input/output error''"
| "errno_text ENOSPC = ''no space left on device''"

definition path_string :: "path \<Rightarrow> string" where
  "path_string p = CHR ''/'' # join_with ''/'' p"

text \<open>The method \<open>Error()\<close> of the error values.\<close>

fun Error :: "goerr \<Rightarrow> string" where
  "Error (PathError op p e) = op @ '' '' @ path_string p @ '': '' @ errno_text e"
| "Error (LinkError op p q e) =
     op @ '' '' @ path_string p @ '' '' @ path_string q @ '': '' @ errno_text e"
| "Error (ErrorString s) = s"
| "Error (ErrImageBuild img e) =
     ''could not build docker image '' @ [CHR 0x27] @ img @ [CHR 0x27] @ '': '' @ Error e"

text \<open>\<open>os.IsNotExist\<close>.\<close>

fun IsNotExist :: "goerr \<Rightarrow> bool" where
  "IsNotExist (PathError _ _ e) \<longleftrightarrow> e = ENOENT"
| "IsNotExist (LinkError _ _ _ e) \<longleftrightarrow> e = ENOENT"
| "IsNotExist _ \<longleftrightarrow> False"

section \<open>Paths\<close>

text \<open>
  \<open>filepath.Join(p, s)\<close> for a clean absolute \<open>p\<close>: the components of \<open>s\<close> are appended, empty and
  dot components vanish and a double dot drops the last component.
\<close>

definition push :: "path \<Rightarrow> string \<Rightarrow> path" where
  "push p c = (if c = [] \<or> c = ''.'' then p else if c = ''..'' then butlast p else p @ [c])"

definition Join :: "path \<Rightarrow> string \<Rightarrow> path" where
  "Join p s = foldl push p (split_on (CHR ''/'') s)"

text \<open>The path that a configured string denotes.\<close>

definition fpath :: "string \<Rightarrow> path" where
  "fpath s = Join [] s"

definition clean_name :: "string \<Rightarrow> bool" where
  "clean_name c \<longleftrightarrow> c \<noteq> [] \<and> c \<noteq> ''.'' \<and> c \<noteq> ''..'' \<and> CHR ''/'' \<notin> set c"

section \<open>The file tree\<close>

text \<open>A file holds a JSON document or any other text.\<close>

datatype content = Text string | Doc json

definition bytes_of :: "content \<Rightarrow> string" where
  "bytes_of c = (case c of Text s \<Rightarrow> s | Doc j \<Rightarrow> json_text j)"

datatype node = File content | Symlink path | Dir "(string \<times> node) list"

lemma size_child: "e \<in> set es \<Longrightarrow> size (snd (e :: string \<times> node)) < size (Dir es)"
  by (induction es) auto

fun lookup :: "node \<Rightarrow> path \<Rightarrow> node option" where
  "lookup nd [] = Some nd"
| "lookup (Dir es) (c # cs) = (case map_of es c of None \<Rightarrow> None | Some nd \<Rightarrow> lookup nd cs)"
| "lookup nd (c # cs) = None"

text \<open>Store a node at a path whose parent is a directory; remove the node at a path.\<close>

fun put :: "path \<Rightarrow> node \<Rightarrow> node \<Rightarrow> node" where
  "put [] x nd = x"
| "put (c # cs) x (Dir es) =
     (case map_of es c of
        None \<Rightarrow> (if cs = [] then Dir (AList.update c x es) else Dir es)
      | Some nd \<Rightarrow> Dir (AList.update c (put cs x nd) es))"
| "put (c # cs) x nd = nd"

fun del :: "path \<Rightarrow> node \<Rightarrow> node" where
  "del [] nd = nd"
| "del (c # cs) (Dir es) =
     (if cs = [] then Dir (AList.delete c es)
      else (case map_of es c of
              None \<Rightarrow> Dir es
            | Some nd \<Rightarrow> Dir (AList.update c (del cs nd) es)))"
| "del (c # cs) nd = nd"

fun IsDir :: "node \<Rightarrow> bool" where
  "IsDir (Dir _) = True"
| "IsDir _ = False"

fun is_link :: "node \<Rightarrow> bool" where
  "is_link (Symlink _) = True"
| "is_link _ = False"

definition is_dir :: "node \<Rightarrow> path \<Rightarrow> bool" where
  "is_dir r p \<longleftrightarrow> (case lookup r p of Some nd \<Rightarrow> IsDir nd | None \<Rightarrow> False)"

definition put_ok :: "node \<Rightarrow> path \<Rightarrow> bool" where
  "put_ok r p \<longleftrightarrow> p = [] \<or> is_dir r (butlast p)"

text \<open>
  Path resolution: \<open>d\<close> is what has been resolved, \<open>n\<close> the number of links that may still be
  followed. The last component may be missing; it is followed when it is a link and \<open>fl\<close> is set.
\<close>

fun namei :: "nat \<Rightarrow> node \<Rightarrow> bool \<Rightarrow> path \<Rightarrow> path \<Rightarrow> errno + path" where
  "namei n r fl d [] = Inr d"
| "namei n r fl d (c # cs) =
     (case lookup r d of
        Some (Dir es) \<Rightarrow>
          (case map_of es c of
             None \<Rightarrow> (if cs = [] then Inr (d @ [c]) else Inl ENOENT)
           | Some (Symlink t) \<Rightarrow>
               (if cs = [] \<and> \<not> fl then Inr (d @ [c])
                else (case n of 0 \<Rightarrow> Inl ELOOP | Suc m \<Rightarrow> namei m r fl [] (t @ cs)))
           | Some _ \<Rightarrow> namei n r fl (d @ [c]) cs)
      | _ \<Rightarrow> Inl ENOTDIR)"

definition max_links :: nat where "max_links = 40"

section \<open>Operations on the tree\<close>

definition fs_stat :: "nat \<Rightarrow> bool \<Rightarrow> path \<Rightarrow> node \<Rightarrow> errno + path \<times> node" where
  "fs_stat n fl p r =
     (case namei n r fl [] p of
        Inl e \<Rightarrow> Inl e
      | Inr q \<Rightarrow> (case lookup r q of None \<Rightarrow> Inl ENOENT | Some nd \<Rightarrow> Inr (q, nd)))"

definition fs_create :: "path \<Rightarrow> node \<Rightarrow> node \<Rightarrow> errno + node" where
  "fs_create p x r =
     (case namei max_links r False [] p of
        Inl e \<Rightarrow> Inl e
      | Inr q \<Rightarrow> (case lookup r q of None \<Rightarrow> Inr (put q x r) | Some _ \<Rightarrow> Inl EEXIST))"

definition fs_write :: "path \<Rightarrow> content \<Rightarrow> node \<Rightarrow> errno + node" where
  "fs_write p c r =
     (case namei max_links r True [] p of
        Inl e \<Rightarrow> Inl e
      | Inr q \<Rightarrow> (case lookup r q of
                   Some (Dir _) \<Rightarrow> Inl EISDIR
                 | _ \<Rightarrow> Inr (put q (File c) r)))"

definition fs_remove :: "path \<Rightarrow> node \<Rightarrow> errno + node" where
  "fs_remove p r =
     (case fs_stat max_links False p r of
        Inl e \<Rightarrow> Inl e
      | Inr (q, Dir (x # xs)) \<Rightarrow> Inl ENOTEMPTY
      | Inr (q, _) \<Rightarrow> Inr (del q r))"

definition fs_remove_all :: "path \<Rightarrow> node \<Rightarrow> errno + node" where
  "fs_remove_all p r =
     (case fs_stat max_links False p r of
        Inl ENOENT \<Rightarrow> Inr r
      | Inl e \<Rightarrow> Inl e
      | Inr (q, _) \<Rightarrow> Inr (del q r))"

text \<open>\<open>os.Rename\<close> refuses a target that is a directory, and a target inside the source.\<close>

definition fs_rename :: "path \<Rightarrow> path \<Rightarrow> node \<Rightarrow> errno + node" where
  "fs_rename p q r =
     (case fs_stat max_links False p r of
        Inl e \<Rightarrow> Inl e
      | Inr (p', nd) \<Rightarrow>
          (case namei max_links r False [] q of
             Inl e \<Rightarrow> Inl e
           | Inr q' \<Rightarrow>
               (case lookup r q' of
                  Some (Dir _) \<Rightarrow> Inl EEXIST
                | old \<Rightarrow>
                    if prefix p' q' \<and> p' \<noteq> q' then Inl EINVAL
                    else if IsDir nd \<and> old \<noteq> None then Inl ENOTDIR
                    else Inr (put q' nd (del p' r)))))"

section \<open>Worlds and system calls\<close>

record 'd world =
  root :: node
  faults :: "errno option list"
  clock :: "int list"
  random :: "nat list"
  dockerd :: 'd

definition syscall :: "(node \<Rightarrow> errno + 'a \<times> node) \<Rightarrow> 'd world \<Rightarrow> (errno + 'a) \<times> 'd world" where
  "syscall f w =
     (let w' = w\<lparr>faults := tl (faults w)\<rparr> in
      case faults w of
        Some e # _ \<Rightarrow> (Inl e, w')
      | _ \<Rightarrow> (case f (root w) of
               Inl e \<Rightarrow> (Inl e, w')
             | Inr (x, r) \<Rightarrow> (Inr x, w'\<lparr>root := r\<rparr>)))"

text \<open>A call whose error is a \<open>*PathError\<close>, with and without a result.\<close>

definition path_get :: "string \<Rightarrow> path \<Rightarrow> (node \<Rightarrow> errno + 'a) \<Rightarrow> 'd world \<Rightarrow> (goerr + 'a) \<times> 'd world" where
  "path_get op p f w =
     (case syscall (\<lambda>r. map_sum id (\<lambda>x. (x, r)) (f r)) w of
        (Inl e, w') \<Rightarrow> (Inl (PathError op p e), w')
      | (Inr x, w') \<Rightarrow> (Inr x, w'))"

definition path_do :: "string \<Rightarrow> path \<Rightarrow> (node \<Rightarrow> errno + node) \<Rightarrow> 'd world \<Rightarrow> goerr option \<times> 'd world" where
  "path_do op p f w =
     (case syscall (\<lambda>r. map_sum id (\<lambda>r'. ((), r')) (f r)) w of
        (Inl e, w') \<Rightarrow> (Some (PathError op p e), w')
      | (Inr _, w') \<Rightarrow> (None, w'))"

definition os_Stat :: "path \<Rightarrow> 'd world \<Rightarrow> (goerr + node) \<times> 'd world" where
  "os_Stat p = path_get ''stat'' p (\<lambda>r. map_sum id snd (fs_stat max_links True p r))"

definition os_Lstat :: "path \<Rightarrow> 'd world \<Rightarrow> (goerr + node) \<times> 'd world" where
  "os_Lstat p = path_get ''lstat'' p (\<lambda>r. map_sum id snd (fs_stat max_links False p r))"

definition EvalSymlinks :: "path \<Rightarrow> 'd world \<Rightarrow> (goerr + path) \<times> 'd world" where
  "EvalSymlinks p = path_get ''lstat'' p (\<lambda>r. map_sum id fst (fs_stat 255 True p r))"

definition os_ReadFile :: "path \<Rightarrow> 'd world \<Rightarrow> (goerr + content) \<times> 'd world" where
  "os_ReadFile p = path_get ''open'' p
     (\<lambda>r. case fs_stat max_links True p r of
            Inl e \<Rightarrow> Inl e
          | Inr (_, File c) \<Rightarrow> Inr c
          | Inr _ \<Rightarrow> Inl EISDIR)"

text \<open>\<open>ioutil.ReadDir\<close> returns the entries sorted by name.\<close>

definition os_ReadDir :: "path \<Rightarrow> 'd world \<Rightarrow> (goerr + (string \<times> node) list) \<times> 'd world" where
  "os_ReadDir p = path_get ''open'' p
     (\<lambda>r. case fs_stat max_links True p r of
            Inl e \<Rightarrow> Inl e
          | Inr (_, Dir es) \<Rightarrow> Inr (sort_key fst es)
          | Inr _ \<Rightarrow> Inl ENOTDIR)"

definition os_Mkdir :: "path \<Rightarrow> 'd world \<Rightarrow> goerr option \<times> 'd world" where
  "os_Mkdir p = path_do ''mkdir'' p (fs_create p (Dir []))"

definition os_WriteFile :: "path \<Rightarrow> content \<Rightarrow> 'd world \<Rightarrow> goerr option \<times> 'd world" where
  "os_WriteFile p c = path_do ''open'' p (fs_write p c)"

text \<open>\<open>os.Create\<close> truncates the file or makes an empty one.\<close>

definition os_Create :: "path \<Rightarrow> 'd world \<Rightarrow> goerr option \<times> 'd world" where
  "os_Create p = path_do ''open'' p (fs_write p (Text []))"

definition os_Remove :: "path \<Rightarrow> 'd world \<Rightarrow> goerr option \<times> 'd world" where
  "os_Remove p = path_do ''remove'' p (fs_remove p)"

definition os_RemoveAll :: "path \<Rightarrow> 'd world \<Rightarrow> goerr option \<times> 'd world" where
  "os_RemoveAll p = path_do ''unlinkat'' p (fs_remove_all p)"

definition os_Rename :: "path \<Rightarrow> path \<Rightarrow> 'd world \<Rightarrow> goerr option \<times> 'd world" where
  "os_Rename p q w =
     (case syscall (\<lambda>r. map_sum id (\<lambda>r'. ((), r')) (fs_rename p q r)) w of
        (Inl e, w') \<Rightarrow> (Some (LinkError ''rename'' p q e), w')
      | (Inr _, w') \<Rightarrow> (None, w'))"

definition os_Symlink :: "path \<Rightarrow> path \<Rightarrow> 'd world \<Rightarrow> goerr option \<times> 'd world" where
  "os_Symlink t p w =
     (case syscall (\<lambda>r. map_sum id (\<lambda>r'. ((), r')) (fs_create p (Symlink t) r)) w of
        (Inl e, w') \<Rightarrow> (Some (LinkError ''symlink'' t p e), w')
      | (Inr _, w') \<Rightarrow> (None, w'))"

text \<open>Closing and syncing an open file can only fail by an injected fault.\<close>

definition os_Close :: "path \<Rightarrow> 'd world \<Rightarrow> goerr option \<times> 'd world" where
  "os_Close p = path_do ''close'' p Inr"

definition os_Sync :: "path \<Rightarrow> 'd world \<Rightarrow> goerr option \<times> 'd world" where
  "os_Sync p = path_do ''sync'' p Inr"

text \<open>Bytes written to an open file are appended to it.\<close>

definition append_file :: "path \<Rightarrow> string \<Rightarrow> 'd world \<Rightarrow> 'd world" where
  "append_file p s w =
     (case fs_stat max_links True p (root w) of
        Inr (q, File c) \<Rightarrow> w\<lparr>root := put q (File (Text (bytes_of c @ s))) (root w)\<rparr>
      | _ \<Rightarrow> w)"

text \<open>\<open>time.Now()\<close> in nanoseconds since the epoch.\<close>

definition time_Now :: "'d world \<Rightarrow> int \<times> 'd world" where
  "time_Now w = (case clock w of [] \<Rightarrow> (0, w) | t # ts \<Rightarrow> (t, w\<lparr>clock := ts\<rparr>))"

text \<open>\<open>crypto/rand.Read\<close> of a buffer of \<open>n\<close> bytes.\<close>

definition rand_Read :: "nat \<Rightarrow> 'd world \<Rightarrow> nat list \<times> 'd world" where
  "rand_Read n w =
     (map (\<lambda>b. b mod 256) (take n (random w @ replicate n 0)), w\<lparr>random := drop n (random w)\<rparr>)"

text \<open>No fault is going to be injected.\<close>

abbreviation quiet :: "'d world \<Rightarrow> bool" where
  "quiet w \<equiv> faults w = []"

section \<open>Laws of the tree\<close>

lemma IsDir_iff: "IsDir nd \<longleftrightarrow> (\<exists>es. nd = Dir es)"
  by (cases nd) auto

lemma is_dir_iff: "is_dir r p \<longleftrightarrow> (\<exists>es. lookup r p = Some (Dir es))"
  by (auto simp: is_dir_def IsDir_iff split: option.splits)

lemma lookup_append:
  "lookup nd (p @ q) = (case lookup nd p of None \<Rightarrow> None | Some x \<Rightarrow> lookup x q)"
  by (induction nd p rule: lookup.induct) (auto split: option.splits)

lemma lookup_snoc:
  "lookup r (p @ [c]) =
     (case lookup r p of Some (Dir es) \<Rightarrow> map_of es c | _ \<Rightarrow> None)"
  by (auto simp: lookup_append split: option.splits node.splits)

lemma lookup_snoc_dir: "lookup r (p @ [c]) \<noteq> None \<Longrightarrow> is_dir r p"
  by (auto simp: lookup_snoc is_dir_iff split: option.splits node.splits)

lemma lookup_prefix_dir: "lookup r (p @ c # q) \<noteq> None \<Longrightarrow> is_dir r p"
  by (cases "lookup r p") (auto simp: lookup_append is_dir_def elim: lookup.elims)

lemma lookup_put_below:
  "put_ok r p \<Longrightarrow> lookup (put p x r) (p @ q) = lookup x q"
proof (induction p x r rule: put.induct)
  case (2 c cs x es)
  have ok: "put_ok nd cs" if "map_of es c = Some nd" "cs \<noteq> []" for nd
    using 2(2) that by (auto simp: put_ok_def is_dir_def)
  show ?case
    using 2 ok by (cases "cs = []") (auto simp: put_ok_def is_dir_def split: option.splits)
qed (auto simp: put_ok_def is_dir_def neq_Nil_conv elim!: lookup.elims split: option.splits)

lemma lookup_put_above:
  "lookup (put (p @ c # q) x r) p = map_option (put (c # q) x) (lookup r p)"
proof (induction p arbitrary: r)
  case (Cons a p)
  then show ?case by (cases r) (auto split: option.splits)
qed simp

lemma lookup_put_other:
  "\<not> prefix p q \<Longrightarrow> \<not> prefix q p \<Longrightarrow> lookup (put p x r) q = lookup r q"
proof (induction p x r arbitrary: q rule: put.induct)
  case (2 c cs x es)
  then show ?case by (cases q) (auto split: option.splits)
qed auto

lemma lookup_del_below: "p \<noteq> [] \<Longrightarrow> lookup (del p r) (p @ q) = None"
proof (induction p r rule: del.induct)
  case (2 c cs es)
  then show ?case by (auto split: option.splits)
qed auto

lemma lookup_del_above:
  "lookup (del (p @ c # q) r) p = map_option (del (c # q)) (lookup r p)"
proof (induction p arbitrary: r)
  case (Cons a p)
  then show ?case by (cases r) (auto split: option.splits)
qed simp

lemma lookup_del_other:
  "\<not> prefix p q \<Longrightarrow> \<not> prefix q p \<Longrightarrow> lookup (del p r) q = lookup r q"
proof (induction p r arbitrary: q rule: del.induct)
  case (2 c cs es)
  then show ?case by (cases q) (auto split: option.splits)
qed auto

lemma lookup_put_same [simp]: "put_ok r p \<Longrightarrow> lookup (put p x r) p = Some x"
  using lookup_put_below [of r p x "[]"] by simp

lemma lookup_del_same [simp]: "p \<noteq> [] \<Longrightarrow> lookup (del p r) p = None"
  using lookup_del_below [of p r "[]"] by simp

lemma IsDir_put: "IsDir nd \<Longrightarrow> IsDir (put (c # q) x nd)"
  by (cases nd) (auto split: option.splits)

lemma IsDir_del: "IsDir nd \<Longrightarrow> IsDir (del p nd)"
  by (cases nd; cases p) (auto split: option.splits)

text \<open>A directory stays a directory when something else is stored or removed.\<close>

lemma is_dir_put:
  assumes "is_dir r q" and "\<not> prefix p q"
  shows "is_dir (put p x r) q"
proof (cases "prefix q p")
  case True
  with assms(2) obtain c cs where "p = q @ c # cs"
    by (metis prefixE append_Nil2 neq_Nil_conv prefix_order.eq_refl)
  then show ?thesis
    using assms(1) IsDir_put by (auto simp: is_dir_def lookup_put_above split: option.splits)
next
  case False
  then show ?thesis
    using assms by (simp add: is_dir_def lookup_put_other)
qed

lemma is_dir_put_Dir:
  assumes "is_dir r q" and "put_ok r p" and "lookup r p = None"
  shows "is_dir (put p x r) q"
proof (cases "prefix p q")
  case True
  with assms have False
    by (auto simp: is_dir_def lookup_append elim!: prefixE)
  then show ?thesis ..
next
  case False
  with assms show ?thesis by (simp add: is_dir_put)
qed

lemma is_dir_del:
  assumes "is_dir r q" and "\<not> prefix p q"
  shows "is_dir (del p r) q"
proof (cases "prefix q p")
  case True
  with assms(2) obtain c cs where "p = q @ c # cs"
    by (metis prefixE append_Nil2 neq_Nil_conv prefix_order.eq_refl)
  then show ?thesis
    using assms(1) IsDir_del by (auto simp: is_dir_def lookup_del_above split: option.splits)
next
  case False
  then show ?thesis
    using assms by (simp add: is_dir_def lookup_del_other)
qed

lemma put_ok_snoc [simp]: "put_ok r (p @ [c]) \<longleftrightarrow> is_dir r p"
  by (simp add: put_ok_def)

section \<open>Laws of path resolution\<close>

lemma namei_found:
  "lookup r (d @ p) = Some nd \<Longrightarrow> fl \<longrightarrow> \<not> is_link nd \<Longrightarrow> namei n r fl d p = Inr (d @ p)"
proof (induction p arbitrary: d)
  case (Cons c cs)
  obtain es where es: "lookup r d = Some (Dir es)"
    using lookup_prefix_dir [of r d c cs] Cons.prems by (auto simp: is_dir_iff)
  then obtain x where x: "map_of es c = Some x" "lookup x cs = Some nd"
    using Cons.prems by (auto simp: lookup_append split: option.splits)
  show ?case
  proof (cases "cs = []")
    case True
    with x es Cons.prems show ?thesis by (cases nd) auto
  next
    case False
    with x obtain es' where "x = Dir es'" by (cases x; cases cs) auto
    with x es Cons show ?thesis by auto
  qed
qed simp

lemma namei_new:
  "is_dir r (d @ p) \<Longrightarrow> lookup r (d @ p @ [c]) = None \<Longrightarrow> namei n r fl d (p @ [c]) = Inr (d @ p @ [c])"
proof (induction p arbitrary: d)
  case Nil
  then show ?case by (auto simp: is_dir_iff lookup_snoc)
next
  case (Cons a p)
  obtain nd where nd: "lookup r (d @ a # p) = Some nd" "IsDir nd"
    using Cons.prems(1) by (auto simp: is_dir_def split: option.splits)
  obtain es where es: "lookup r d = Some (Dir es)"
    using lookup_prefix_dir [of r d a p] nd by (auto simp: is_dir_iff)
  then obtain x where x: "map_of es a = Some x" "lookup x p = Some nd"
    using nd by (auto simp: lookup_append split: option.splits)
  have "IsDir x" using x(2) nd(2) by (cases x; cases p) auto
  then obtain es' where "x = Dir es'" by (auto simp: IsDir_iff)
  with x es Cons show ?case by auto
qed

text \<open>The result of a resolution is a place where a node is or can be stored.\<close>

lemma namei_put_ok: "namei n r fl d p = Inr q \<Longrightarrow> put_ok r d \<Longrightarrow> put_ok r q"
proof (induction n r fl d p rule: namei.induct)
  case (2 n r fl d c cs)
  then show ?case
    by (fastforce simp: put_ok_def is_dir_iff split: option.splits node.splits if_splits nat.splits)
qed simp

lemma fs_stat_found:
  "lookup r p = Some nd \<Longrightarrow> fl \<longrightarrow> \<not> is_link nd \<Longrightarrow> fs_stat n fl p r = Inr (p, nd)"
  using namei_found [of r "[]" p nd fl n] by (simp add: fs_stat_def)

lemma fs_stat_missing:
  "is_dir r p \<Longrightarrow> lookup r (p @ [c]) = None \<Longrightarrow> fs_stat n fl (p @ [c]) r = Inl ENOENT"
  using namei_new [of r "[]" p c n fl] by (simp add: fs_stat_def)

text \<open>A directory on the way is passed, so a missing ancestor is reported as a missing file.\<close>

lemma namei_dirs: "is_dir r (d @ p) \<Longrightarrow> namei n r fl d (p @ q) = namei n r fl (d @ p) q"
proof (induction p arbitrary: d)
  case (Cons a p)
  obtain nd where nd: "lookup r (d @ a # p) = Some nd" "IsDir nd"
    using Cons.prems(1) by (auto simp: is_dir_def split: option.splits)
  obtain es where es: "lookup r d = Some (Dir es)"
    using lookup_prefix_dir [of r d a p] nd by (auto simp: is_dir_iff)
  then obtain x where x: "map_of es a = Some x" "lookup x p = Some nd"
    using nd by (auto simp: lookup_append split: option.splits)
  have "IsDir x" using x(2) nd(2) by (cases x; cases p) auto
  then obtain es' where "x = Dir es'" by (auto simp: IsDir_iff)
  with x es Cons show ?case by simp
qed simp

lemma fs_stat_missing_above:
  assumes "is_dir r p" and "lookup r (p @ [c]) = None" and "cs \<noteq> []"
  shows "fs_stat n fl (p @ c # cs) r = Inl ENOENT"
proof -
  obtain es where "lookup r p = Some (Dir es)" using assms(1) by (auto simp: is_dir_iff)
  moreover have "map_of es c = None" using assms(2) calculation by (simp add: lookup_snoc)
  ultimately show ?thesis
    using namei_dirs [of r "[]" p n fl "c # cs"] assms by (simp add: fs_stat_def)
qed

text \<open>A link is followed to its target.\<close>

lemma namei_link:
  "lookup r (d @ p) = Some (Symlink t) \<Longrightarrow> p \<noteq> [] \<Longrightarrow> namei (Suc n) r True d p = namei n r True [] t"
proof (induction p arbitrary: d)
  case (Cons c cs)
  obtain es where es: "lookup r d = Some (Dir es)"
    using lookup_prefix_dir [of r d c cs] Cons.prems by (auto simp: is_dir_iff)
  then obtain x where x: "map_of es c = Some x" "lookup x cs = Some (Symlink t)"
    using Cons.prems by (auto simp: lookup_append split: option.splits)
  show ?case
  proof (cases "cs = []")
    case True
    with x es show ?thesis by simp
  next
    case False
    with x obtain es' where "x = Dir es'" by (cases x; cases cs) auto
    with x es Cons False show ?thesis by auto
  qed
qed simp

lemma fs_stat_link:
  "lookup r p = Some (Symlink t) \<Longrightarrow> p \<noteq> [] \<Longrightarrow> lookup r t = Some nd \<Longrightarrow> \<not> is_link nd \<Longrightarrow>
     fs_stat (Suc n) True p r = Inr (t, nd)"
  using namei_link [of r "[]" p t n] namei_found [of r "[]" t nd True n] by (simp add: fs_stat_def)

lemma fs_stat_lookup: "fs_stat n fl p r = Inr (q, nd) \<Longrightarrow> lookup r q = Some nd"
  by (auto simp: fs_stat_def split: sum.splits option.splits)

section \<open>Laws of the system calls\<close>

lemma syscall_quiet [simp]:
  "quiet w \<Longrightarrow> syscall f w =
     (case f (root w) of Inl e \<Rightarrow> (Inl e, w) | Inr (x, r) \<Rightarrow> (Inr x, w\<lparr>root := r\<rparr>))"
  by (simp add: syscall_def split: sum.splits prod.splits)

lemma syscall_Inr: "syscall f w = (Inr x, w') \<Longrightarrow> f (root w) = Inr (x, root w')"
  by (auto simp: syscall_def Let_def split: list.splits option.splits sum.splits)

lemma syscall_Inl: "syscall f w = (Inl e, w') \<Longrightarrow> root w' = root w"
  by (auto simp: syscall_def Let_def split: list.splits option.splits sum.splits)

lemma syscall_frame [world_simps]:
  "clock (snd (syscall f w)) = clock w" "dockerd (snd (syscall f w)) = dockerd w"
  by (auto simp: syscall_def Let_def split: list.splits option.splits sum.splits)

lemma path_get_quiet [os_simps]:
  "quiet w \<Longrightarrow> path_get op p f w =
     (case f (root w) of Inl e \<Rightarrow> (Inl (PathError op p e), w) | Inr x \<Rightarrow> (Inr x, w))"
  by (simp add: path_get_def split: sum.splits)

lemma path_do_quiet [os_simps]:
  "quiet w \<Longrightarrow> path_do op p f w =
     (case f (root w) of Inl e \<Rightarrow> (Some (PathError op p e), w) | Inr r \<Rightarrow> (None, w\<lparr>root := r\<rparr>))"
  by (simp add: path_do_def split: sum.splits)

lemma path_get_root: "path_get op p f w = (x, w') \<Longrightarrow> root w' = root w"
  by (auto simp: path_get_def map_sum_def split: sum.splits prod.splits
      dest!: syscall_Inl syscall_Inr)

lemma path_get_Inr: "path_get op p f w = (Inr x, w') \<Longrightarrow> f (root w) = Inr x"
  by (auto simp: path_get_def map_sum_def split: sum.splits prod.splits dest!: syscall_Inr)

lemma path_do_None: "path_do op p f w = (None, w') \<Longrightarrow> f (root w) = Inr (root w')"
  by (auto simp: path_do_def map_sum_def split: sum.splits prod.splits dest!: syscall_Inr)

lemma path_do_Some: "path_do op p f w = (Some e, w') \<Longrightarrow> root w' = root w"
  by (auto simp: path_do_def split: sum.splits prod.splits dest!: syscall_Inl)

lemma os_Rename_None: "os_Rename p q w = (None, w') \<Longrightarrow> fs_rename p q (root w) = Inr (root w')"
  by (auto simp: os_Rename_def map_sum_def split: sum.splits prod.splits dest!: syscall_Inr)

lemma os_Rename_Some: "os_Rename p q w = (Some e, w') \<Longrightarrow> root w' = root w"
  by (auto simp: os_Rename_def split: sum.splits prod.splits dest!: syscall_Inl)

lemma os_Symlink_None: "os_Symlink t p w = (None, w') \<Longrightarrow> fs_create p (Symlink t) (root w) = Inr (root w')"
  by (auto simp: os_Symlink_def map_sum_def split: sum.splits prod.splits dest!: syscall_Inr)

lemma os_Symlink_Some: "os_Symlink t p w = (Some e, w') \<Longrightarrow> root w' = root w"
  by (auto simp: os_Symlink_def split: sum.splits prod.splits dest!: syscall_Inl)

text \<open>Reading calls leave the tree alone.\<close>

lemma os_read_root:
  "os_Stat p w = (a, w') \<Longrightarrow> root w' = root w"
  "os_Lstat p w = (a, w') \<Longrightarrow> root w' = root w"
  "os_ReadFile p w = (b, w') \<Longrightarrow> root w' = root w"
  "os_ReadDir p w = (c, w') \<Longrightarrow> root w' = root w"
  "EvalSymlinks p w = (d, w') \<Longrightarrow> root w' = root w"
  by (auto simp: os_Stat_def os_Lstat_def os_ReadFile_def os_ReadDir_def EvalSymlinks_def
      dest!: path_get_root)

text \<open>Calls in a world without injected faults, on paths that meet no link.\<close>

lemma os_Stat_found [os_simps]:
  "quiet w \<Longrightarrow> lookup (root w) p = Some nd \<Longrightarrow> \<not> is_link nd \<Longrightarrow> os_Stat p w = (Inr nd, w)"
  by (simp add: os_Stat_def os_simps fs_stat_found)

lemma os_Stat_missing [os_simps]:
  "quiet w \<Longrightarrow> is_dir (root w) p \<Longrightarrow> lookup (root w) (p @ [c]) = None \<Longrightarrow>
     os_Stat (p @ [c]) w = (Inl (PathError ''stat'' (p @ [c]) ENOENT), w)"
  by (simp add: os_Stat_def os_simps fs_stat_missing)

lemma os_Lstat_found [os_simps]:
  "quiet w \<Longrightarrow> lookup (root w) p = Some nd \<Longrightarrow> os_Lstat p w = (Inr nd, w)"
  by (simp add: os_Lstat_def os_simps fs_stat_found)

lemma os_Lstat_missing [os_simps]:
  "quiet w \<Longrightarrow> is_dir (root w) p \<Longrightarrow> lookup (root w) (p @ [c]) = None \<Longrightarrow>
     os_Lstat (p @ [c]) w = (Inl (PathError ''lstat'' (p @ [c]) ENOENT), w)"
  by (simp add: os_Lstat_def os_simps fs_stat_missing)

lemma os_ReadFile_found [os_simps]:
  "quiet w \<Longrightarrow> lookup (root w) p = Some (File c) \<Longrightarrow> os_ReadFile p w = (Inr c, w)"
  by (simp add: os_ReadFile_def os_simps fs_stat_found)

lemma os_ReadFile_missing [os_simps]:
  "quiet w \<Longrightarrow> is_dir (root w) p \<Longrightarrow> lookup (root w) (p @ [c]) = None \<Longrightarrow>
     os_ReadFile (p @ [c]) w = (Inl (PathError ''open'' (p @ [c]) ENOENT), w)"
  by (simp add: os_ReadFile_def os_simps fs_stat_missing)

lemma os_ReadDir_found [os_simps]:
  "quiet w \<Longrightarrow> lookup (root w) p = Some (Dir es) \<Longrightarrow> os_ReadDir p w = (Inr (sort_key fst es), w)"
  by (simp add: os_ReadDir_def os_simps fs_stat_found)

lemma os_ReadDir_missing [os_simps]:
  "quiet w \<Longrightarrow> is_dir (root w) p \<Longrightarrow> lookup (root w) (p @ [c]) = None \<Longrightarrow>
     os_ReadDir (p @ [c]) w = (Inl (PathError ''open'' (p @ [c]) ENOENT), w)"
  by (simp add: os_ReadDir_def os_simps fs_stat_missing)

lemma EvalSymlinks_found [os_simps]:
  "quiet w \<Longrightarrow> lookup (root w) p = Some nd \<Longrightarrow> \<not> is_link nd \<Longrightarrow> EvalSymlinks p w = (Inr p, w)"
  by (simp add: EvalSymlinks_def os_simps fs_stat_found)

lemma EvalSymlinks_missing [os_simps]:
  "quiet w \<Longrightarrow> is_dir (root w) p \<Longrightarrow> lookup (root w) (p @ [c]) = None \<Longrightarrow>
     EvalSymlinks (p @ [c]) w = (Inl (PathError ''lstat'' (p @ [c]) ENOENT), w)"
  by (simp add: EvalSymlinks_def os_simps fs_stat_missing)

lemma EvalSymlinks_link:
  "quiet w \<Longrightarrow> lookup (root w) p = Some (Symlink t) \<Longrightarrow> p \<noteq> [] \<Longrightarrow> lookup (root w) t = Some nd \<Longrightarrow>
     \<not> is_link nd \<Longrightarrow> EvalSymlinks p w = (Inr t, w)"
  using fs_stat_link [of "root w" p t nd 254] by (simp add: EvalSymlinks_def os_simps)

lemma os_Mkdir_new [os_simps]:
  "quiet w \<Longrightarrow> is_dir (root w) p \<Longrightarrow> lookup (root w) (p @ [c]) = None \<Longrightarrow>
     os_Mkdir (p @ [c]) w = (None, w\<lparr>root := put (p @ [c]) (Dir []) (root w)\<rparr>)"
  by (simp add: os_Mkdir_def os_simps fs_create_def namei_new [of _ "[]", simplified])

lemma os_Mkdir_exists [os_simps]:
  "quiet w \<Longrightarrow> lookup (root w) p = Some nd \<Longrightarrow>
     os_Mkdir p w = (Some (PathError ''mkdir'' p EEXIST), w)"
  by (simp add: os_Mkdir_def os_simps fs_create_def namei_found [of _ "[]", simplified])

lemma os_WriteFile_new [os_simps]:
  "quiet w \<Longrightarrow> is_dir (root w) p \<Longrightarrow> lookup (root w) (p @ [f]) = None \<Longrightarrow>
     os_WriteFile (p @ [f]) c w = (None, w\<lparr>root := put (p @ [f]) (File c) (root w)\<rparr>)"
  by (simp add: os_WriteFile_def os_simps fs_write_def namei_new [of _ "[]", simplified])

lemma os_WriteFile_over [os_simps]:
  "quiet w \<Longrightarrow> lookup (root w) p = Some (File c0) \<Longrightarrow>
     os_WriteFile p c w = (None, w\<lparr>root := put p (File c) (root w)\<rparr>)"
  by (simp add: os_WriteFile_def os_simps fs_write_def namei_found [of _ "[]", simplified])

lemma os_RemoveAll_found [os_simps]:
  "quiet w \<Longrightarrow> lookup (root w) p = Some nd \<Longrightarrow>
     os_RemoveAll p w = (None, w\<lparr>root := del p (root w)\<rparr>)"
  by (simp add: os_RemoveAll_def os_simps fs_remove_all_def fs_stat_found)

lemma os_RemoveAll_missing [os_simps]:
  "quiet w \<Longrightarrow> is_dir (root w) p \<Longrightarrow> lookup (root w) (p @ [c]) = None \<Longrightarrow>
     os_RemoveAll (p @ [c]) w = (None, w)"
  by (simp add: os_RemoveAll_def os_simps fs_remove_all_def fs_stat_missing)

lemma os_Remove_link [os_simps]:
  "quiet w \<Longrightarrow> lookup (root w) p = Some (Symlink t) \<Longrightarrow>
     os_Remove p w = (None, w\<lparr>root := del p (root w)\<rparr>)"
  by (simp add: os_Remove_def os_simps fs_remove_def fs_stat_found)

lemma os_Symlink_new [os_simps]:
  "quiet w \<Longrightarrow> is_dir (root w) p \<Longrightarrow> lookup (root w) (p @ [c]) = None \<Longrightarrow>
     os_Symlink t (p @ [c]) w = (None, w\<lparr>root := put (p @ [c]) (Symlink t) (root w)\<rparr>)"
  by (simp add: os_Symlink_def fs_create_def namei_new [of _ "[]", simplified])

lemma os_Rename_new [os_simps]:
  "quiet w \<Longrightarrow> lookup (root w) p = Some nd \<Longrightarrow> is_dir (root w) q \<Longrightarrow>
     lookup (root w) (q @ [c]) = None \<Longrightarrow> \<not> prefix p (q @ [c]) \<Longrightarrow>
     os_Rename p (q @ [c]) w = (None, w\<lparr>root := put (q @ [c]) nd (del p (root w))\<rparr>)"
  by (simp add: os_Rename_def fs_rename_def fs_stat_found namei_new [of _ "[]", simplified])

lemma os_Close_quiet [os_simps]: "quiet w \<Longrightarrow> os_Close p w = (None, w)"
  by (simp add: os_Close_def os_simps)

lemma os_Sync_quiet [os_simps]: "quiet w \<Longrightarrow> os_Sync p w = (None, w)"
  by (simp add: os_Sync_def os_simps)

section \<open>Laws of \<open>filepath.Join\<close>\<close>

lemma Join_name [simp]: "clean_name c \<Longrightarrow> Join p c = p @ [c]"
  by (auto simp: Join_def clean_name_def push_def)

lemma Join_empty [simp]: "Join p [] = p"
  by (simp add: Join_def push_def)

lemma Join_slash [simp]: "Join p (CHR ''/'' # s) = Join p s"
  by (simp add: Join_def push_def)

text \<open>Reading back the printed form of a clean path.\<close>

lemma split_on_join:
  "xs \<noteq> [] \<Longrightarrow> (\<forall>x \<in> set xs. c \<notin> set x) \<Longrightarrow> split_on c (join_with [c] xs) = xs"
  by (induction "[c]" xs rule: join_with.induct) (auto simp: split_on_append)

lemma foldl_push_names: "(\<forall>c \<in> set cs. clean_name c) \<Longrightarrow> foldl push p cs = p @ cs"
  by (induction cs arbitrary: p) (auto simp: push_def clean_name_def)

lemma fpath_path_string:
  assumes "\<forall>c \<in> set p. clean_name c"
  shows "fpath (path_string p) = p"
proof (cases "p = []")
  case False
  have "\<forall>x \<in> set p. CHR ''/'' \<notin> set x" using assms by (auto simp: clean_name_def)
  then have "split_on (CHR ''/'') (join_with ''/'' p) = p"
    using False by (rule_tac split_on_join) auto
  then show ?thesis
    using foldl_push_names [OF assms, of "[]"] by (simp add: fpath_def path_string_def) (simp add: Join_def)
qed (simp add: fpath_def path_string_def)

text \<open>A joined path is clean whenever the base is.\<close>

lemma push_clean:
  "(\<forall>c \<in> set p. clean_name c) \<Longrightarrow> CHR ''/'' \<notin> set s \<Longrightarrow> \<forall>c \<in> set (push p s). clean_name c"
  by (auto simp: push_def clean_name_def dest: in_set_butlastD)

lemma foldl_push_clean:
  "(\<forall>c \<in> set p. clean_name c) \<Longrightarrow> (\<forall>s \<in> set ss. CHR ''/'' \<notin> set s) \<Longrightarrow>
     \<forall>c \<in> set (foldl push p ss). clean_name c"
proof (induction ss arbitrary: p)
  case (Cons s ss)
  have "\<forall>c \<in> set (push p s). clean_name c"
    using Cons.prems push_clean by auto
  then show ?case using Cons.IH Cons.prems by simp
qed simp

lemma Join_clean: "(\<forall>c \<in> set p. clean_name c) \<Longrightarrow> \<forall>c \<in> set (Join p s). clean_name c"
  unfolding Join_def by (rule foldl_push_clean) (auto dest: split_on_pieces)

end
