(* ===== verification/Types.thy ===== *)
theory Types
  imports Os
begin

text \<open>
  The package \<open>pkg/types\<close>: parameters, job requests and build information, with their JSON
  encodings. A Go map is an association list with distinct keys, whose order stands for the
  unspecified order in which \<open>range\<close> visits the map; a nil map and an empty one are not
  distinguished. Times and durations are in nanoseconds. The error type of the package is the
  constructor \<open>ErrImageBuild\<close> of \<open>Os.goerr\<close>.
\<close>

type_synonym Params = "(string \<times> string) list"

text \<open>\<open>%s\<close> and \<open>%v\<close> of a map, which \<open>fmt\<close> prints in the order of the keys.\<close>

definition fmt_Params :: "Params \<Rightarrow> string" where
  "fmt_Params ps = ''map['' @ join_with '' '' (map (\<lambda>kv. fst kv @ '':'' @ snd kv) (sort_key fst ps)) @ '']''"

type_synonym TransportMethod = string

definition Rsync_method :: TransportMethod where "Rsync_method = ''rsync''"

definition Scp_method :: TransportMethod where "Scp_method = ''scp''"

definition ContainerPendingExitCode :: int where "ContainerPendingExitCode = - 999"

definition ContainerSuccessExitCode :: int where "ContainerSuccessExitCode = 0"

record BuildInfo =
  bParams :: Params
  bGroup :: string
  bPath :: string
  bCached :: bool
  bCoalesced :: bool
  bIncremental :: bool
  bExitCode :: int
  bErrBuild :: string
  bContainerStdouterr :: string
  bContainerStderr :: string
  bTransportMethod :: TransportMethod
  bStartedAt :: int
  bDuration :: int
  bURL :: string

definition zero_BuildInfo :: BuildInfo where
  "zero_BuildInfo = \<lparr>bParams = [], bGroup = [], bPath = [], bCached = False, bCoalesced = False,
     bIncremental = False, bExitCode = 0, bErrBuild = [], bContainerStdouterr = [],
     bContainerStderr = [], bTransportMethod = [], bStartedAt = 0, bDuration = 0, bURL = []\<rparr>"

definition second :: int where "second = 1000000000"

definition NewBuildInfo :: "'d world \<Rightarrow> BuildInfo \<times> 'd world" where
  "NewBuildInfo w =
     (let (now, w) = time_Now w
      in (zero_BuildInfo\<lparr>bStartedAt := now, bExitCode := ContainerPendingExitCode,
            bDuration := - 1 * second\<rparr>, w))"

record JobRequest =
  rProject :: string
  rParams :: Params
  rGroup :: string
  rRebuild :: bool

section \<open>JSON encodings\<close>

text \<open>\<open>json.Marshal\<close> of a \<open>BuildInfo\<close>: the fields in order, two of them omitted when empty.\<close>

definition omitempty :: "string \<Rightarrow> string \<Rightarrow> (string \<times> json) list" where
  "omitempty k s = (if s = [] then [] else [(k, JStr s)])"

definition marshal_BuildInfo :: "BuildInfo \<Rightarrow> json" where
  "marshal_BuildInfo bi = JObj
     ([(''Params'', str_map_json (bParams bi)), (''Group'', JStr (bGroup bi)),
       (''Path'', JStr (bPath bi)), (''Cached'', JBool (bCached bi)),
       (''Coalesced'', JBool (bCoalesced bi)), (''Incremental'', JBool (bIncremental bi)),
       (''ExitCode'', JInt (bExitCode bi)), (''ErrBuild'', JStr (bErrBuild bi))]
      @ omitempty ''ContainerStdouterr'' (bContainerStdouterr bi)
      @ omitempty ''ContainerStderr'' (bContainerStderr bi)
      @ [(''TransportMethod'', JStr (bTransportMethod bi)), (''StartedAt'', JTime (bStartedAt bi)),
         (''Duration'', JInt (bDuration bi)), (''URL'', JStr (bURL bi))])"

definition set_BuildInfo_field :: "string \<Rightarrow> json \<Rightarrow> BuildInfo \<Rightarrow> BuildInfo option" where
  "set_BuildInfo_field key v bi =
     (let k = lower key in
      if k = ''params'' then map_option (\<lambda>x. bi\<lparr>bParams := x\<rparr>) (as_str_map v (bParams bi))
      else if k = ''group'' then map_option (\<lambda>x. bi\<lparr>bGroup := x\<rparr>) (as_str v (bGroup bi))
      else if k = ''path'' then map_option (\<lambda>x. bi\<lparr>bPath := x\<rparr>) (as_str v (bPath bi))
      else if k = ''cached'' then map_option (\<lambda>x. bi\<lparr>bCached := x\<rparr>) (as_bool v (bCached bi))
      else if k = ''coalesced'' then map_option (\<lambda>x. bi\<lparr>bCoalesced := x\<rparr>) (as_bool v (bCoalesced bi))
      else if k = ''incremental'' then map_option (\<lambda>x. bi\<lparr>bIncremental := x\<rparr>) (as_bool v (bIncremental bi))
      else if k = ''exitcode'' then map_option (\<lambda>x. bi\<lparr>bExitCode := x\<rparr>) (as_int v (bExitCode bi))
      else if k = ''errbuild'' then map_option (\<lambda>x. bi\<lparr>bErrBuild := x\<rparr>) (as_str v (bErrBuild bi))
      else if k = ''containerstdouterr''
        then map_option (\<lambda>x. bi\<lparr>bContainerStdouterr := x\<rparr>) (as_str v (bContainerStdouterr bi))
      else if k = ''containerstderr''
        then map_option (\<lambda>x. bi\<lparr>bContainerStderr := x\<rparr>) (as_str v (bContainerStderr bi))
      else if k = ''transportmethod''
        then map_option (\<lambda>x. bi\<lparr>bTransportMethod := x\<rparr>) (as_str v (bTransportMethod bi))
      else if k = ''startedat'' then map_option (\<lambda>x. bi\<lparr>bStartedAt := x\<rparr>) (as_time v (bStartedAt bi))
      else if k = ''duration'' then map_option (\<lambda>x. bi\<lparr>bDuration := x\<rparr>) (as_int v (bDuration bi))
      else if k = ''url'' then map_option (\<lambda>x. bi\<lparr>bURL := x\<rparr>) (as_str v (bURL bi))
      else Some bi)"

definition json_error :: goerr where
  "json_error = ErrorString ''json: cannot unmarshal value''"

definition syntax_error :: goerr where
  "syntax_error = ErrorString ''invalid character looking for beginning of value''"

text \<open>\<open>json.Unmarshal(data, x)\<close> for a struct \<open>x\<close> with the given field assignment.\<close>

definition unmarshal_struct :: "(string \<Rightarrow> json \<Rightarrow> 'a \<Rightarrow> 'a option) \<Rightarrow> content \<Rightarrow> 'a \<Rightarrow> goerr + 'a" where
  "unmarshal_struct set_field data x =
     (case data of
        Text _ \<Rightarrow> Inl syntax_error
      | Doc (JObj kvs) \<Rightarrow>
          (case decode_fields set_field kvs x of None \<Rightarrow> Inl json_error | Some y \<Rightarrow> Inr y)
      | Doc JNull \<Rightarrow> Inr x
      | Doc _ \<Rightarrow> Inl json_error)"

definition unmarshal_BuildInfo :: "content \<Rightarrow> BuildInfo \<Rightarrow> goerr + BuildInfo" where
  "unmarshal_BuildInfo = unmarshal_struct set_BuildInfo_field"

definition marshal_JobRequest :: "JobRequest \<Rightarrow> json" where
  "marshal_JobRequest r = JObj
     [(''Project'', JStr (rProject r)), (''Params'', str_map_json (rParams r)),
      (''Group'', JStr (rGroup r)), (''Rebuild'', JBool (rRebuild r))]"

definition set_JobRequest_field :: "string \<Rightarrow> json \<Rightarrow> JobRequest \<Rightarrow> JobRequest option" where
  "set_JobRequest_field key v r =
     (let k = lower key in
      if k = ''project'' then map_option (\<lambda>x. r\<lparr>rProject := x\<rparr>) (as_str v (rProject r))
      else if k = ''params'' then map_option (\<lambda>x. r\<lparr>rParams := x\<rparr>) (as_str_map v (rParams r))
      else if k = ''group'' then map_option (\<lambda>x. r\<lparr>rGroup := x\<rparr>) (as_str v (rGroup r))
      else if k = ''rebuild'' then map_option (\<lambda>x. r\<lparr>rRebuild := x\<rparr>) (as_bool v (rRebuild r))
      else Some r)"

definition zero_JobRequest :: JobRequest where
  "zero_JobRequest = \<lparr>rProject = [], rParams = [], rGroup = [], rRebuild = False\<rparr>"

definition unmarshal_JobRequest :: "content \<Rightarrow> goerr + JobRequest" where
  "unmarshal_JobRequest data = unmarshal_struct set_JobRequest_field data zero_JobRequest"

section \<open>Round trips\<close>

lemma lower_keys [simp]:
  "lower ''Params'' = ''params''" "lower ''Group'' = ''group''"
  "lower ''Path'' = ''path''" "lower ''Cached'' = ''cached''"
  "lower ''Coalesced'' = ''coalesced''" "lower ''Incremental'' = ''incremental''"
  "lower ''ExitCode'' = ''exitcode''" "lower ''ErrBuild'' = ''errbuild''"
  "lower ''ContainerStdouterr'' = ''containerstdouterr''"
  "lower ''ContainerStderr'' = ''containerstderr''"
  "lower ''TransportMethod'' = ''transportmethod''"
  "lower ''StartedAt'' = ''startedat''" "lower ''Duration'' = ''duration''"
  "lower ''URL'' = ''url''" "lower ''Project'' = ''project''"
  "lower ''Rebuild'' = ''rebuild''"
  by code_simp+

text \<open>
  The value a decoder hands back: the fields that the encoder omits keep the value they had in
  the target, and the parameters come back in key order.
\<close>

definition decoded :: "BuildInfo \<Rightarrow> BuildInfo \<Rightarrow> BuildInfo" where
  "decoded target bi = bi\<lparr>bParams := sort_key fst (bParams bi),
     bContainerStdouterr := (if bContainerStdouterr bi = [] then bContainerStdouterr target
                             else bContainerStdouterr bi),
     bContainerStderr := (if bContainerStderr bi = [] then bContainerStderr target
                          else bContainerStderr bi)\<rparr>"

lemma unmarshal_marshal_BuildInfo:
  assumes "distinct (map fst (bParams bi))" and "bParams target = []"
  shows "unmarshal_BuildInfo (Doc (marshal_BuildInfo bi)) target = Inr (decoded target bi)"
  using assms
  by (simp add: unmarshal_BuildInfo_def unmarshal_struct_def marshal_BuildInfo_def omitempty_def
      set_BuildInfo_field_def Let_def as_str_map_roundtrip decoded_def)

lemma unmarshal_marshal_JobRequest:
  assumes "distinct (map fst (rParams r))"
  shows "unmarshal_JobRequest (Doc (marshal_JobRequest r)) = Inr (r\<lparr>rParams := sort_key fst (rParams r)\<rparr>)"
  using assms
  by (simp add: unmarshal_JobRequest_def unmarshal_struct_def marshal_JobRequest_def
      set_JobRequest_field_def Let_def zero_JobRequest_def as_str_map_roundtrip)

end
