(* ===== verification/Env.thy ===== *)
theory Env
  imports Types
begin

text \<open>
  The code the sources call that is not part of the repository: the commands run through
  \<open>os/exec\<close> (\<open>cp\<close>, \<open>btrfs\<close>, \<open>scp\<close>, \<open>rsync\<close>), the Docker client library with the daemon behind
  it, the number of processors and the user id of the process, and the byte layout of the archives that \<open>archive/tar\<close> writes (which also records modes
  and modification times). They are the fields of a record that the definitions take as an
  argument; nothing is assumed of them here.

  A daemon changes the file system only through the bind mounts of a running container:
  \<open>dk_effect d id target\<close> maps the tree at the mount's source to what the container leaves there.
\<close>

type_synonym tar = "(string \<times> string) list"

record ImageBuildOptions =
  oTags :: "string list"
  oBuildArgs :: "(string \<times> string) list"
  oNetworkMode :: string
  oPullParent :: bool
  oNoCache :: bool
  oForceRemove :: bool

record Mount =
  mSource :: path
  mTarget :: string

text \<open>A chunk of the multiplexed container log: on stderr or on stdout.\<close>

datatype frame = Stdout string | Stderr string

record 'd env =
  exec_cmd :: "string list \<Rightarrow> 'd world \<Rightarrow> (string \<times> goerr option) \<times> 'd world"
  tar_bytes :: "tar \<Rightarrow> string"
  num_cpu :: int
  getuid :: int
  dk_NewEnvClient :: "'d \<Rightarrow> goerr option \<times> 'd"
  dk_Close :: "'d \<Rightarrow> goerr option \<times> 'd"
  dk_ImageBuild :: "ImageBuildOptions \<Rightarrow> string \<Rightarrow> 'd \<Rightarrow> (goerr + string) \<times> 'd"
  dk_DisplayJSONMessagesStream :: "string \<Rightarrow> string \<times> goerr option"
  dk_ImageInspectWithRaw :: "string \<Rightarrow> 'd \<Rightarrow> goerr option \<times> 'd"
  dk_ContainerList :: "string \<Rightarrow> 'd \<Rightarrow> (goerr + string list) \<times> 'd"
  dk_ContainerRename :: "string \<Rightarrow> string \<Rightarrow> 'd \<Rightarrow> goerr option \<times> 'd"
  dk_ContainerCreate :: "string \<Rightarrow> string \<Rightarrow> Mount list \<Rightarrow> string \<Rightarrow> 'd \<Rightarrow> (goerr + string) \<times> 'd"
  dk_ContainerStart :: "string \<Rightarrow> 'd \<Rightarrow> goerr option \<times> 'd"
  dk_ContainerRemove :: "string \<Rightarrow> 'd \<Rightarrow> goerr option \<times> 'd"
  dk_ContainerLogs :: "string \<Rightarrow> 'd \<Rightarrow> (goerr + frame list \<times> goerr option) \<times> 'd"
  dk_effect :: "'d \<Rightarrow> string \<Rightarrow> string \<Rightarrow> node \<Rightarrow> node"
  dk_ContainerInspectWithRaw :: "string \<Rightarrow> 'd \<Rightarrow> (goerr + content) \<times> 'd"
  dk_ContainersPrune :: "'d \<Rightarrow> (goerr + nat \<times> nat) \<times> 'd"
  dk_ImagesPrune :: "'d \<Rightarrow> (goerr + nat \<times> nat) \<times> 'd"

text \<open>Run a client call on the daemon of a world.\<close>

definition docker :: "('d \<Rightarrow> 'a \<times> 'd) \<Rightarrow> 'd world \<Rightarrow> 'a \<times> 'd world" where
  "docker f w = (let (x, d) = f (dockerd w) in (x, w\<lparr>dockerd := d\<rparr>))"

lemma docker_frame [world_simps]:
  "docker f w = (x, w') \<Longrightarrow> root w' = root w"
  "docker f w = (x, w') \<Longrightarrow> faults w' = faults w"
  by (auto simp: docker_def split: prod.splits)

end
