(* ===== verification/Utils.thy ===== *)
theory Utils
  imports Env
begin

text \<open>
  The package \<open>pkg/utils\<close>: directory checks, command execution, and the archive of a project
  directory. \<open>Tar\<close> reads the whole tree in one step, which can fail as a whole: the walk only
  reads, and every failure of it is returned to the caller unchanged.
\<close>

definition PathIsDir :: "string \<Rightarrow> 'd world \<Rightarrow> goerr option \<times> 'd world" where
  "PathIsDir p w =
     (case (if p = [] then (Inl (PathError ''stat'' [] ENOENT), w) else os_Stat (fpath p) w) of
        (Inl err, w) \<Rightarrow> (Some err, w)
      | (Inr fi, w) \<Rightarrow>
          (if \<not> IsDir fi then (Some (ErrorString (''Path '' @ p @ '' is not a directory'')), w)
           else (None, w)))"

definition EnsureDirExists :: "path \<Rightarrow> 'd world \<Rightarrow> goerr option \<times> 'd world" where
  "EnsureDirExists p w =
     (case os_Stat p w of
        (Inr fi, w) \<Rightarrow>
          (if \<not> IsDir fi then (Some (ErrorString (path_string p @ '' is not a directory'')), w)
           else (None, w))
      | (Inl err, w) \<Rightarrow>
          (if IsNotExist err then
             (case os_Mkdir p w of
                (Some err, w) \<Rightarrow> (Some err, w)
              | (None, w) \<Rightarrow> (None, w))
           else (Some err, w)))"

definition RunCmd :: "'d env \<Rightarrow> string list \<Rightarrow> 'd world \<Rightarrow> (string \<times> goerr option) \<times> 'd world" where
  "RunCmd env args w = exec_cmd env args w"

text \<open>
  \<open>filepath.Walk\<close> visits the entries of a directory in lexical order; only regular files enter
  the archive, under their path relative to the root.
\<close>

function tar_walk :: "path \<Rightarrow> node \<Rightarrow> (path \<times> string) list" where
  "tar_walk rel (File c) = [(rel, bytes_of c)]"
| "tar_walk rel (Symlink t) = []"
| "tar_walk rel (Dir es) =
     concat (map snd (sort_key fst (map (\<lambda>e. (fst e, tar_walk (rel @ [fst e]) (snd e))) es)))"
  by pat_completeness auto
termination
  by (relation "measure (\<lambda>(rel, nd). size nd)") (simp_all add: size_child [simplified])

definition rel_name :: "path \<Rightarrow> string" where
  "rel_name rel = (if rel = [] then ''.'' else join_with ''/'' rel)"

definition Tar :: "'d env \<Rightarrow> path \<Rightarrow> 'd world \<Rightarrow> (goerr + string) \<times> 'd world" where
  "Tar env p w =
     (case os_Lstat p w of
        (Inl err, w) \<Rightarrow> (Inl err, w)
      | (Inr nd, w) \<Rightarrow>
          (Inr (tar_bytes env (map (\<lambda>(rel, s). (rel_name rel, s)) (tar_walk [] nd))), w))"

text \<open>Names in a directory are distinct, all the way down.\<close>

function wf_node :: "node \<Rightarrow> bool" where
  "wf_node (File c) = True"
| "wf_node (Symlink t) = True"
| "wf_node (Dir es) = (distinct (map fst es) \<and> (\<forall>e \<in> set es. wf_node (snd e)))"
  by pat_completeness auto
termination
  by (relation "measure size") (simp_all add: size_child [simplified])

section \<open>Directory checks\<close>

lemma PathIsDir_ok: "PathIsDir p w = (None, w') \<Longrightarrow> p \<noteq> [] \<and> root w' = root w"
  by (auto simp: PathIsDir_def split: if_splits prod.splits sum.splits dest: os_read_root)

lemma EnsureDirExists_dir [os_simps]:
  assumes "quiet w" and "is_dir (root w) p"
  shows "EnsureDirExists p w = (None, w)"
  using assms by (auto simp: EnsureDirExists_def is_dir_iff os_simps)

lemma EnsureDirExists_new [os_simps]:
  assumes "quiet w" and "is_dir (root w) p" and "lookup (root w) (p @ [c]) = None"
  shows "EnsureDirExists (p @ [c]) w = (None, w\<lparr>root := put (p @ [c]) (Dir []) (root w)\<rparr>)"
  using assms by (simp add: EnsureDirExists_def os_simps)

section \<open>The archive of a project\<close>


lemma tar_walk_mem:
  "wf_node nd \<Longrightarrow> (q, s) \<in> set (tar_walk rel nd) \<longleftrightarrow>
     (\<exists>p c. q = rel @ p \<and> lookup nd p = Some (File c) \<and> s = bytes_of c)"
proof (induction rel nd arbitrary: q s rule: tar_walk.induct)
  case (1 rel c)
  then show ?case by (auto simp: lookup.simps elim: lookup.elims)
next
  case (2 rel t)
  then show ?case by (auto elim: lookup.elims)
next
  case (3 rel es)
  have IH: "(q, s) \<in> set (tar_walk (rel @ [fst e]) (snd e)) \<longleftrightarrow>
      (\<exists>p c. q = rel @ fst e # p \<and> lookup (snd e) p = Some (File c) \<and> s = bytes_of c)"
    if "e \<in> set es" for e
    using "3.IH" [OF that] "3.prems" that by simp
  have "(q, s) \<in> set (tar_walk rel (Dir es)) \<longleftrightarrow>
      (\<exists>e \<in> set es. (q, s) \<in> set (tar_walk (rel @ [fst e]) (snd e)))"
    by auto
  also have "\<dots> \<longleftrightarrow> (\<exists>e \<in> set es. \<exists>p c. q = rel @ fst e # p \<and> lookup (snd e) p = Some (File c) \<and> s = bytes_of c)"
    using IH by blast
  also have "\<dots> \<longleftrightarrow> (\<exists>p c. q = rel @ p \<and> lookup (Dir es) p = Some (File c) \<and> s = bytes_of c)"
    (is "?L \<longleftrightarrow> ?R")
  proof
    assume ?L
    then obtain e p c where e: "e \<in> set es" and q: "q = rel @ fst e # p"
        "lookup (snd e) p = Some (File c)" "s = bytes_of c"
      by blast
    have "map_of es (fst e) = Some (snd e)"
      using "3.prems" e by (cases e) simp
    with q show ?R by (intro exI [of _ "fst e # p"]) auto
  next
    assume ?R
    then obtain p c where p: "q = rel @ p" "lookup (Dir es) p = Some (File c)" "s = bytes_of c"
      by blast
    then obtain n p' x where "p = n # p'" "map_of es n = Some x" "lookup x p' = Some (File c)"
      by (cases p) (auto split: option.splits)
    then show ?L
      using p map_of_SomeD [of es n x] by (intro bexI [of _ "(n, x)"]) auto
  qed
  finally show ?case .
qed

lemma append_less_append: "rel @ x < rel @ y \<longleftrightarrow> x < (y :: 'a::linorder list)"
  by (induction rel) auto

lemma sorted_concat:
  fixes xss :: "('k::linorder \<times> 'a list) list"
  assumes "\<And>k xs. (k, xs) \<in> set xss \<Longrightarrow> sorted_wrt R xs"
    and "\<And>k xs l ys x y. (k, xs) \<in> set xss \<Longrightarrow> (l, ys) \<in> set xss \<Longrightarrow> k < l \<Longrightarrow>
           x \<in> set xs \<Longrightarrow> y \<in> set ys \<Longrightarrow> R x y"
    and "sorted_wrt (<) (map fst xss)"
  shows "sorted_wrt R (concat (map snd xss))"
  using assms
proof (induction xss)
  case (Cons kx xss)
  obtain k xs where kx: "kx = (k, xs)" by force
  have tail: "sorted_wrt R (concat (map snd xss))"
  proof (rule Cons.IH)
    show "sorted_wrt R xs" if "(k, xs) \<in> set xss" for k xs
      using Cons.prems(1) [of k xs] that by simp
    show "R x y" if "(k, xs) \<in> set xss" "(l, ys) \<in> set xss" "k < l" "x \<in> set xs" "y \<in> set ys"
      for k xs l ys x y
      using Cons.prems(2) [of k xs l ys x y] that by simp
    show "sorted_wrt (<) (map fst xss)" using Cons.prems(3) by simp
  qed
  have cross: "R x y" if "x \<in> set xs" "y \<in> set (concat (map snd xss))" for x y
  proof -
    from that(2) obtain l ys where ly: "(l, ys) \<in> set xss" "y \<in> set ys" by auto
    then have "k < l" using Cons.prems(3) kx by force
    with Cons.prems(2) [of k xs l ys x y] ly that(1) kx show ?thesis by simp
  qed
  have "sorted_wrt R xs" using Cons.prems(1) [of k xs] kx by simp
  with tail cross kx show ?case by (auto simp: sorted_wrt_append)
qed simp

lemma tar_walk_sorted: "wf_node nd \<Longrightarrow> sorted_wrt (<) (map fst (tar_walk rel nd))"
proof (induction rel nd rule: tar_walk.induct)
  case (3 rel es)
  define blocks where "blocks = sort_key fst (map (\<lambda>e. (fst e, tar_walk (rel @ [fst e]) (snd e))) es)"
  have mem: "\<exists>e \<in> set es. k = fst e \<and> xs = tar_walk (rel @ [fst e]) (snd e)"
    if "(k, xs) \<in> set blocks" for k xs
    using that by (auto simp: blocks_def)
  have "distinct (map fst blocks)" "sorted (map fst blocks)"
    using "3.prems" by (simp_all add: blocks_def comp_def)
  then have keys: "sorted_wrt (<) (map fst blocks)"
    by (simp add: strict_sorted_iff)
  have "sorted_wrt (\<lambda>x y. fst x < fst y) (concat (map snd blocks))"
  proof (rule sorted_concat [OF _ _ keys])
    fix k xs assume "(k, xs) \<in> set blocks"
    then obtain e where "e \<in> set es" "xs = tar_walk (rel @ [fst e]) (snd e)" using mem by blast
    then show "sorted_wrt (\<lambda>x y. fst x < fst y) xs"
      using "3.IH" [of e] "3.prems" by (simp add: sorted_wrt_map)
  next
    fix k xs l ys x y
    assume kl: "(k, xs) \<in> set blocks" "(l, ys) \<in> set blocks" "k < l" "x \<in> set xs" "y \<in> set ys"
    obtain e where e: "e \<in> set es" "k = fst e" "xs = tar_walk (rel @ [fst e]) (snd e)"
      using mem [OF kl(1)] by blast
    obtain f where f: "f \<in> set es" "l = fst f" "ys = tar_walk (rel @ [fst f]) (snd f)"
      using mem [OF kl(2)] by blast
    obtain p where "fst x = rel @ k # p"
      using tar_walk_mem [of "snd e" "fst x" "snd x" "rel @ [fst e]"] e kl(4) "3.prems" by auto
    moreover obtain q where "fst y = rel @ l # q"
      using tar_walk_mem [of "snd f" "fst y" "snd y" "rel @ [fst f]"] f kl(5) "3.prems" by auto
    ultimately show "fst x < fst y"
      using kl(3) by (simp add: append_less_append)
  qed
  then show ?case by (simp add: sorted_wrt_map blocks_def)
qed simp_all

text \<open>
  The walk lists every regular file once, in lexical order of the paths, so its result depends
  only on which files a tree holds and not on the order in which directories list them.
\<close>

lemma sorted_fst_unique:
  assumes "sorted_wrt (<) (map fst xs)" and "sorted_wrt (<) (map fst ys)" and "set xs = set ys"
  shows "xs = (ys :: ('k::linorder \<times> 'v) list)"
  by (rule map_sorted_distinct_set_unique [of fst])
    (use assms in \<open>auto simp: strict_sorted_iff distinct_map\<close>)

lemma tar_walk_eqI:
  assumes "wf_node a" and "wf_node b"
    and "\<And>p c. lookup a p = Some (File c) \<longleftrightarrow> lookup b p = Some (File c)"
  shows "tar_walk [] a = tar_walk [] b"
proof (rule sorted_fst_unique)
  show "set (tar_walk [] a) = set (tar_walk [] b)"
    using assms tar_walk_mem [OF assms(1)] tar_walk_mem [OF assms(2)] by auto
qed (use assms tar_walk_sorted in auto)

end
