(* ===== verification/Filesystem.thy ===== *)
theory Filesystem
  imports Utils
begin

text \<open>
  The package \<open>pkg/filesystem\<close>: the interface \<open>FileSystem\<close>, its two implementations and the
  registry. The interface is a record of operations; the contract the build server relies on is
  the locale \<open>filesystem_adapter\<close>, which the plain adapter satisfies.
\<close>

record 'd FileSystem =
  fsCreate :: "path \<Rightarrow> 'd world \<Rightarrow> goerr option \<times> 'd world"
  fsClone :: "path \<Rightarrow> path \<Rightarrow> 'd world \<Rightarrow> goerr option \<times> 'd world"
  fsRemove :: "path \<Rightarrow> 'd world \<Rightarrow> goerr option \<times> 'd world"

section \<open>The plain adapter\<close>

definition PlainFS_Create :: "path \<Rightarrow> 'd world \<Rightarrow> goerr option \<times> 'd world" where
  "PlainFS_Create p w = os_Mkdir p w"

text \<open>\<open>fmt.Errorf("%s (%s)", err, out)\<close> around the result of a command.\<close>

definition cmd_error :: "string \<times> goerr option \<Rightarrow> goerr option" where
  "cmd_error r = (case r of (out, None) \<Rightarrow> None
     | (out, Some err) \<Rightarrow> Some (ErrorString (Error err @ '' ('' @ out @ '')'')))"

definition PlainFS_Clone :: "'d env \<Rightarrow> path \<Rightarrow> path \<Rightarrow> 'd world \<Rightarrow> goerr option \<times> 'd world" where
  "PlainFS_Clone env src dst w =
     (let (r, w) = RunCmd env [''cp'', ''-r'', path_string src, path_string dst] w
      in (cmd_error r, w))"

definition PlainFS_Remove :: "path \<Rightarrow> 'd world \<Rightarrow> goerr option \<times> 'd world" where
  "PlainFS_Remove p w = os_RemoveAll p w"

definition PlainFS :: "'d env \<Rightarrow> 'd FileSystem" where
  "PlainFS env = \<lparr>fsCreate = PlainFS_Create, fsClone = PlainFS_Clone env, fsRemove = PlainFS_Remove\<rparr>"

section \<open>The Btrfs adapter\<close>

definition btrfs_runCmd :: "'d env \<Rightarrow> string list \<Rightarrow> 'd world \<Rightarrow> goerr option \<times> 'd world" where
  "btrfs_runCmd env args w = (let (r, w) = RunCmd env args w in (cmd_error r, w))"

definition Btrfs_Create :: "'d env \<Rightarrow> path \<Rightarrow> 'd world \<Rightarrow> goerr option \<times> 'd world" where
  "Btrfs_Create env p w = btrfs_runCmd env [''btrfs'', ''subvolume'', ''create'', path_string p] w"

definition Btrfs_Clone :: "'d env \<Rightarrow> path \<Rightarrow> path \<Rightarrow> 'd world \<Rightarrow> goerr option \<times> 'd world" where
  "Btrfs_Clone env src dst w =
     btrfs_runCmd env [''btrfs'', ''subvolume'', ''snapshot'', path_string src, path_string dst] w"

definition Btrfs_Remove :: "'d env \<Rightarrow> path \<Rightarrow> 'd world \<Rightarrow> goerr option \<times> 'd world" where
  "Btrfs_Remove env p w =
     (case os_Stat p w of
        (Inr _, w) \<Rightarrow> btrfs_runCmd env [''btrfs'', ''subvolume'', ''delete'', path_string p] w
      | (Inl _, w) \<Rightarrow> (None, w))"

definition Btrfs :: "'d env \<Rightarrow> 'd FileSystem" where
  "Btrfs env = \<lparr>fsCreate = Btrfs_Create env, fsClone = Btrfs_Clone env, fsRemove = Btrfs_Remove env\<rparr>"

section \<open>The registry\<close>

text \<open>The registry as the \<open>init\<close> functions of the two packages leave it, also as \<open>%v\<close> prints it.\<close>

definition Registry :: "'d env \<Rightarrow> (string \<times> 'd FileSystem) list" where
  "Registry env = [(''btrfs'', Btrfs env), (''plain'', PlainFS env)]"

definition Get :: "'d env \<Rightarrow> string \<Rightarrow> goerr + 'd FileSystem" where
  "Get env s =
     (case map_of (Registry env) s of
        None \<Rightarrow> Inl (ErrorString (''unknown filesystem '' @ [CHR 0x27] @ s @ [CHR 0x27] @ '' (map[btrfs:{} plain:{}])''))
      | Some fs \<Rightarrow> Inr fs)"

section \<open>The contract of an adapter\<close>

text \<open>
  \<open>Create\<close> makes a new directory and refuses an existing path; \<open>Remove\<close> removes a path with its
  children and, as the interface asks, does not complain about a missing one.
\<close>

locale filesystem_adapter =
  fixes create :: "path \<Rightarrow> 'd world \<Rightarrow> goerr option \<times> 'd world"
    and remove :: "path \<Rightarrow> 'd world \<Rightarrow> goerr option \<times> 'd world"
  assumes create_new:
      "quiet w \<Longrightarrow> is_dir (root w) p \<Longrightarrow> lookup (root w) (p @ [c]) = None \<Longrightarrow>
         create (p @ [c]) w = (None, w\<lparr>root := put (p @ [c]) (Dir []) (root w)\<rparr>)"
    and create_existing:
      "quiet w \<Longrightarrow> lookup (root w) p = Some nd \<Longrightarrow> fst (create p w) \<noteq> None"
    and remove_found:
      "quiet w \<Longrightarrow> lookup (root w) p = Some nd \<Longrightarrow> remove p w = (None, w\<lparr>root := del p (root w)\<rparr>)"
    and remove_missing:
      "quiet w \<Longrightarrow> is_dir (root w) p \<Longrightarrow> lookup (root w) (p @ [c]) = None \<Longrightarrow> remove (p @ [c]) w = (None, w)"
begin

text \<open>Removing a path and creating it again leaves an empty directory.\<close>

lemma remove_then_create:
  assumes "quiet w" and "is_dir (root w) p"
  shows "\<exists>w'. remove (p @ [c]) w = (None, w') \<and> quiet w' \<and>
           fst (create (p @ [c]) w') = None \<and>
           lookup (root (snd (create (p @ [c]) w'))) (p @ [c]) = Some (Dir [])"
proof (cases "lookup (root w) (p @ [c])")
  case None
  with assms show ?thesis by (simp add: remove_missing create_new)
next
  case (Some nd)
  have "is_dir (del (p @ [c]) (root w)) p"
    by (rule is_dir_del [OF assms(2)]) (auto dest: prefix_length_le)
  with assms Some show ?thesis by (simp add: remove_found create_new)
qed

lemma create_twice_fails:
  assumes "quiet w" and "is_dir (root w) p" and "lookup (root w) (p @ [c]) = None"
  shows "fst (create (p @ [c]) (snd (create (p @ [c]) w))) \<noteq> None"
  using assms by (simp add: create_new create_existing)

end

interpretation plainfs: filesystem_adapter PlainFS_Create PlainFS_Remove
  by unfold_locales
    (simp_all add: PlainFS_Create_def PlainFS_Remove_def os_simps)

lemma PlainFS_sel [simp]:
  "fsCreate (PlainFS env) = PlainFS_Create" "fsClone (PlainFS env) = PlainFS_Clone env"
  "fsRemove (PlainFS env) = PlainFS_Remove"
  by (simp_all add: PlainFS_def)

lemma Btrfs_sel [simp]:
  "fsCreate (Btrfs env) = Btrfs_Create env" "fsClone (Btrfs env) = Btrfs_Clone env"
  "fsRemove (Btrfs env) = Btrfs_Remove env"
  by (simp_all add: Btrfs_def)

end
