(* ===== verification/Config.thy ===== *)
theory Config
  imports Filesystem
begin

text \<open>
  The file \<open>cmd/mistryd/config.go\<close>: the configuration of the server. Its numbers are unbounded
  integers here: the decoder rejects what does not fit 64 bits, and the only arithmetic on them,
  doubling the number of workers for the default backlog, leaves that range only for more
  workers than a process can start.
\<close>

record 'd Config =
  cAddr :: string
  cFileSystem :: "'d FileSystem"
  cUID :: string
  cProjectsPath :: string
  cBuildPath :: string
  cMounts :: "(string \<times> string) list"
  cConcurrency :: int
  cBacklog :: int

text \<open>The fields under their JSON names; a file system adapter cannot be decoded.\<close>

definition set_Config_field :: "string \<Rightarrow> json \<Rightarrow> 'd Config \<Rightarrow> 'd Config option" where
  "set_Config_field key v cfg =
     (let k = lower key in
      if k = ''addr'' then map_option (\<lambda>x. cfg\<lparr>cAddr := x\<rparr>) (as_str v (cAddr cfg))
      else if k = ''filesystem'' then (if v = JNull then Some cfg else None)
      else if k = ''uid'' then map_option (\<lambda>x. cfg\<lparr>cUID := x\<rparr>) (as_str v (cUID cfg))
      else if k = ''projects_path'' then map_option (\<lambda>x. cfg\<lparr>cProjectsPath := x\<rparr>) (as_str v (cProjectsPath cfg))
      else if k = ''build_path'' then map_option (\<lambda>x. cfg\<lparr>cBuildPath := x\<rparr>) (as_str v (cBuildPath cfg))
      else if k = ''mounts'' then map_option (\<lambda>x. cfg\<lparr>cMounts := x\<rparr>) (as_str_map v (cMounts cfg))
      else if k = ''job_concurrency'' then map_option (\<lambda>x. cfg\<lparr>cConcurrency := x\<rparr>) (as_int v (cConcurrency cfg))
      else if k = ''job_backlog'' then map_option (\<lambda>x. cfg\<lparr>cBacklog := x\<rparr>) (as_int v (cBacklog cfg))
      else Some cfg)"

text \<open>The defaults applied after decoding, in the order of the source.\<close>

definition config_defaults :: "'d env \<Rightarrow> 'd Config \<Rightarrow> 'd Config" where
  "config_defaults env cfg =
     (let cfg = (if cConcurrency cfg = 0 then cfg\<lparr>cConcurrency := num_cpu env\<rparr> else cfg)
      in (if cBacklog cfg = 0 then cfg\<lparr>cBacklog := cConcurrency cfg * 2\<rparr> else cfg))"

definition ParseConfig :: "'d env \<Rightarrow> string \<Rightarrow> 'd FileSystem \<Rightarrow> content \<Rightarrow> 'd world \<Rightarrow> (goerr + 'd Config) \<times> 'd world" where
  "ParseConfig env addr fs r w =
     (if addr = [] then (Inl (ErrorString ''addr must be provided''), w)
      else
        let cfg0 = \<lparr>cAddr = addr, cFileSystem = fs, cUID = [], cProjectsPath = [], cBuildPath = [],
                    cMounts = [], cConcurrency = 0, cBacklog = 0\<rparr>
        in case unmarshal_struct set_Config_field r cfg0 of
             Inl err \<Rightarrow> (Inl err, w)
           | Inr cfg \<Rightarrow>
               let cfg = (if cUID cfg = [] then cfg\<lparr>cUID := itoa (getuid env)\<rparr> else cfg)
               in case PathIsDir (cProjectsPath cfg) w of
                    (Some err, w) \<Rightarrow> (Inl err, w)
                  | (None, w) \<Rightarrow>
                      (case PathIsDir (cBuildPath cfg) w of
                         (Some err, w) \<Rightarrow> (Inl err, w)
                       | (None, w) \<Rightarrow> (Inr (config_defaults env cfg), w)))"

text \<open>The directories the rest of the server works in.\<close>

abbreviation projects_dir :: "'d Config \<Rightarrow> path" where
  "projects_dir cfg \<equiv> fpath (cProjectsPath cfg)"

abbreviation build_dir :: "'d Config \<Rightarrow> path" where
  "build_dir cfg \<equiv> fpath (cBuildPath cfg)"

end
