(* ===== verification/Sha256.thy ===== *)
theory Sha256
  imports Json "HOL-Library.Word"
begin

unbundle bit_operations_syntax

text \<open>
  SHA-256 (FIPS 180-4), which \<open>NewJob\<close> takes from the Go package \<open>crypto/sha256\<close>, and the
  rendering of a digest by \<open>%x\<close>. The development only needs that the digest is a function of
  the seed and that it is printed as 64 hexadecimal digits.
\<close>

type_synonym u32 = "32 word"

definition sha_k :: "u32 list" where
  "sha_k =
    [0x428A2F98, 0x71374491, 0xB5C0FBCF, 0xE9B5DBA5, 0x3956C25B, 0x59F111F1,
     0x923F82A4, 0xAB1C5ED5, 0xD807AA98, 0x12835B01, 0x243185BE, 0x550C7DC3,
     0x72BE5D74, 0x80DEB1FE, 0x9BDC06A7, 0xC19BF174, 0xE49B69C1, 0xEFBE4786,
     0xFC19DC6, 0x240CA1CC, 0x2DE92C6F, 0x4A7484AA, 0x5CB0A9DC, 0x76F988DA,
     0x983E5152, 0xA831C66D, 0xB00327C8, 0xBF597FC7, 0xC6E00BF3, 0xD5A79147,
     0x6CA6351, 0x14292967, 0x27B70A85, 0x2E1B2138, 0x4D2C6DFC, 0x53380D13,
     0x650A7354, 0x766A0ABB, 0x81C2C92E, 0x92722C85, 0xA2BFE8A1, 0xA81A664B,
     0xC24B8B70, 0xC76C51A3, 0xD192E819, 0xD6990624, 0xF40E3585, 0x106AA070,
     0x19A4C116, 0x1E376C08, 0x2748774C, 0x34B0BCB5, 0x391C0CB3, 0x4ED8AA4A,
     0x5B9CCA4F, 0x682E6FF3, 0x748F82EE, 0x78A5636F, 0x84C87814, 0x8CC70208,
     0x90BEFFFA, 0xA4506CEB, 0xBEF9A3F7, 0xC67178F2]"

definition sha_h0 :: "u32 list" where
  "sha_h0 =
    [0x6A09E667, 0xBB67AE85, 0x3C6EF372, 0xA54FF53A, 0x510E527F, 0x9B05688C,
     0x1F83D9AB, 0x5BE0CD19]"

definition rotr :: "nat \<Rightarrow> u32 \<Rightarrow> u32" where
  "rotr n x = drop_bit n x OR push_bit (32 - n) x"

definition bytes_be :: "nat \<Rightarrow> nat \<Rightarrow> nat list" where
  "bytes_be k n = map (\<lambda>i. n div 256 ^ (k - 1 - i) mod 256) [0..<k]"

definition sha_pad :: "nat list \<Rightarrow> nat list" where
  "sha_pad m = m @ [128] @ replicate ((119 - length m mod 64) mod 64) 0 @ bytes_be 8 (8 * length m)"

fun be_words :: "nat list \<Rightarrow> u32 list" where
  "be_words (a # b # c # d # xs) = of_nat (((a * 256 + b) * 256 + c) * 256 + d) # be_words xs"
| "be_words _ = []"

fun chunks :: "nat \<Rightarrow> 'a list \<Rightarrow> nat \<Rightarrow> 'a list list" where
  "chunks 0 xs n = []"
| "chunks (Suc k) xs n = take n xs # chunks k (drop n xs) n"

definition schedule_word :: "u32 list \<Rightarrow> u32" where
  "schedule_word ws =
     (let t = length ws; x = ws ! (t - 15); y = ws ! (t - 2);
          s0 = rotr 7 x XOR rotr 18 x XOR drop_bit 3 x;
          s1 = rotr 17 y XOR rotr 19 y XOR drop_bit 10 y
      in ws ! (t - 16) + s0 + ws ! (t - 7) + s1)"

definition schedule :: "u32 list \<Rightarrow> u32 list" where
  "schedule ws = ((\<lambda>ws. ws @ [schedule_word ws]) ^^ 48) ws"

fun sha_round :: "u32 \<times> u32 \<Rightarrow> u32 list \<Rightarrow> u32 list" where
  "sha_round (k, x) [a, b, c, d, e, f, g, h] =
     (let s1 = rotr 6 e XOR rotr 11 e XOR rotr 25 e;
          ch = (e AND f) XOR (NOT e AND g);
          t1 = h + s1 + ch + k + x;
          s0 = rotr 2 a XOR rotr 13 a XOR rotr 22 a;
          maj = (a AND b) XOR (a AND c) XOR (b AND c)
      in [t1 + s0 + maj, a, b, c, d + t1, e, f, g])"
| "sha_round _ st = st"

definition sha_block :: "u32 list \<Rightarrow> u32 list \<Rightarrow> u32 list" where
  "sha_block h ws = map2 (+) h (fold sha_round (zip sha_k (schedule ws)) h)"

definition sha256 :: "string \<Rightarrow> nat list" where
  "sha256 s =
     (let m = sha_pad (map of_char s);
          hs = foldl (\<lambda>h c. sha_block h (be_words c)) sha_h0 (chunks (length m div 64) m 64)
      in concat (map (\<lambda>h. bytes_be 4 (unat h)) hs))"

definition hex_text :: "nat list \<Rightarrow> string" where
  "hex_text bs = concat (map (\<lambda>b. [hex_digit (b div 16), hex_digit (b mod 16)]) bs)"

definition sha256_hex :: "string \<Rightarrow> string" where
  "sha256_hex s = hex_text (sha256 s)"

section \<open>The digest is printed as 64 hexadecimal digits\<close>

lemma sha_round_length [simp]: "length st = 8 \<Longrightarrow> length (sha_round kx st) = 8"
  by (cases "(kx, st)" rule: sha_round.cases) (auto simp: Let_def)

lemma fold_sha_round_length: "length st = 8 \<Longrightarrow> length (fold sha_round kxs st) = 8"
  by (induction kxs arbitrary: st) auto

lemma sha_block_length [simp]: "length h = 8 \<Longrightarrow> length (sha_block h ws) = 8"
  by (simp add: sha_block_def fold_sha_round_length)

lemma foldl_sha_block_length:
  "length h = 8 \<Longrightarrow> length (foldl (\<lambda>h c. sha_block h (be_words c)) h cs) = 8"
  by (induction cs arbitrary: h) auto

lemma length_concat_const: "(\<forall>x \<in> set xs. length (f x) = k) \<Longrightarrow> length (concat (map f xs)) = length xs * k"
  by (induction xs) auto

lemma sha256_length: "length (sha256 s) = 32"
proof -
  have h0: "length sha_h0 = 8" by (simp add: sha_h0_def)
  have "length (concat (map (\<lambda>h. bytes_be 4 (unat h)) hs)) = length hs * 4" for hs :: "u32 list"
    by (rule length_concat_const) (simp add: bytes_be_def)
  then show ?thesis
    by (simp add: sha256_def Let_def foldl_sha_block_length [OF h0])
qed

lemma sha256_hex_length [simp]: "length (sha256_hex s) = 64"
  using length_concat_const [of "sha256 s" "\<lambda>b. [hex_digit (b div 16), hex_digit (b mod 16)]" 2]
  by (simp add: sha256_hex_def hex_text_def sha256_length)

lemma hex_digit_clean: "d < 16 \<Longrightarrow> hex_digit d \<in> set ''0123456789abcdef''"
proof -
  assume "d < 16"
  then have "d \<in> set [0..<16]" by simp
  moreover have "\<forall>d \<in> set [0..<16]. hex_digit d \<in> set ''0123456789abcdef''"
    by code_simp
  ultimately show ?thesis by blast
qed

lemma bytes_be_bound: "b \<in> set (bytes_be k n) \<Longrightarrow> b < 256"
  by (auto simp: bytes_be_def)

lemma sha256_byte: "b \<in> set (sha256 s) \<Longrightarrow> b < 256"
  by (auto simp: sha256_def Let_def dest: bytes_be_bound)

lemma sha256_hex_digits: "set (sha256_hex s) \<subseteq> set ''0123456789abcdef''"
proof
  fix c assume "c \<in> set (sha256_hex s)"
  then obtain b where b: "b \<in> set (sha256 s)" "c \<in> {hex_digit (b div 16), hex_digit (b mod 16)}"
    by (auto simp: sha256_hex_def hex_text_def)
  from sha256_byte [OF b(1)] have "b div 16 < 16" "b mod 16 < 16" by auto
  with b(2) show "c \<in> set ''0123456789abcdef''"
    using hex_digit_clean by (metis insertE singletonD)
qed

end
