(* ===== verification/Job.thy ===== *)
theory Job
  imports Config Sha256
begin

text \<open>
  The file \<open>cmd/mistryd/job.go\<close>: jobs, their identity, their build directories, and the Docker
  calls that build and run them. The pointer \<open>j.BuildInfo\<close> is the field \<open>jBuildInfo\<close>; functions
  that change a job return it. Loggers are left out.
\<close>

section \<open>Constants of \<open>cmd/mistryd/main.go\<close>\<close>

definition DataDir :: string where "DataDir = ''/data''"
definition CacheDir :: string where "CacheDir = ''/cache''"
definition ArtifactsDir :: string where "ArtifactsDir = ''/artifacts''"
definition ParamsDir :: string where "ParamsDir = ''/params''"
definition BuildLogFname :: string where "BuildLogFname = ''out.log''"
definition BuildInfoFname :: string where "BuildInfoFname = ''build_info.json''"
definition ImgCntPrefix :: string where "ImgCntPrefix = ''mistry-''"

section \<open>Jobs\<close>

record Job =
  jID :: string
  jProject :: string
  jParams :: Params
  jGroup :: string
  jRebuild :: bool
  jRootBuildPath :: path
  jPendingBuildPath :: path
  jReadyBuildPath :: path
  jLatestBuildPath :: path
  jReadyDataPath :: path
  jProjectPath :: path
  jBuildLogPath :: path
  jBuildInfoFilePath :: path
  jImage :: string
  jImageTar :: string
  jContainer :: string
  jStartedAt :: int
  jBuildInfo :: BuildInfo
  jState :: string

definition BuildLogPath :: "path \<Rightarrow> path" where
  "BuildLogPath jobPath = Join jobPath BuildLogFname"

text \<open>
  The seed of a job's ID. The loop over the map visits the parameters in list order; the keys
  that start with an underscore are skipped and the rest is sorted.
\<close>

definition id_keys :: "Params \<Rightarrow> string list" where
  "id_keys params = sort (filter (\<lambda>k. \<not> prefix ''_'' k) (map fst params))"

definition map_get :: "Params \<Rightarrow> string \<Rightarrow> string" where
  "map_get m k = (case map_of m k of Some v \<Rightarrow> v | None \<Rightarrow> [])"

definition id_seed :: "string \<Rightarrow> Params \<Rightarrow> string \<Rightarrow> string \<Rightarrow> string" where
  "id_seed project params grp tar =
     foldl (\<lambda>seed v. seed @ v @ map_get params v) (project @ grp) (id_keys params) @ tar"

text \<open>The paths that \<open>NewJob\<close> derives from the build root of the project and the ID.\<close>

definition latest_path :: "path \<Rightarrow> string \<Rightarrow> path" where
  "latest_path rootp grp =
     (if grp = [] then Join rootp ''latest'' else Join (Join rootp ''groups'') grp)"

definition NewJob ::
  "'d env \<Rightarrow> string \<Rightarrow> Params \<Rightarrow> string \<Rightarrow> 'd Config option \<Rightarrow> 'd world \<Rightarrow> (goerr + Job) \<times> 'd world" where
  "NewJob env project params grp cfgp w =
     (if project = [] then (Inl (ErrorString ''no project given''), w)
      else case cfgp of
        None \<Rightarrow> (Inl (ErrorString ''invalid configuration''), w)
      | Some cfg \<Rightarrow>
          let projectPath = Join (projects_dir cfg) project;
              rootBuildPath = Join (build_dir cfg) project
          in case Tar env projectPath w of
               (Inl err, w) \<Rightarrow>
                 ((if IsNotExist err
                   then Inl (ErrorString (''Unknown project '' @ [CHR 0x27] @ project @ [CHR 0x27]))
                   else Inl err), w)
             | (Inr imageTar, w) \<Rightarrow>
                 let ident = sha256_hex (id_seed project params grp imageTar);
                     pending = Join (Join rootBuildPath ''pending'') ident;
                     ready = Join (Join rootBuildPath ''ready'') ident;
                     (now, w) = time_Now w;
                     (bi, w) = NewBuildInfo w
                 in (Inr \<lparr>jID = ident, jProject = project, jParams = params, jGroup = grp,
                       jRebuild = False,
                       jRootBuildPath = rootBuildPath,
                       jPendingBuildPath = pending, jReadyBuildPath = ready,
                       jLatestBuildPath = latest_path rootBuildPath grp,
                       jReadyDataPath = Join ready DataDir,
                       jProjectPath = projectPath,
                       jBuildLogPath = BuildLogPath pending,
                       jBuildInfoFilePath = Join pending BuildInfoFname,
                       jImage = ImgCntPrefix @ project, jImageTar = imageTar,
                       jContainer = ImgCntPrefix @ ident,
                       jStartedAt = now, jBuildInfo = bi, jState = ''pending''\<rparr>, w))"

section \<open>Docker\<close>

text \<open>Where a stream of bytes goes: into an open file, or nowhere.\<close>

datatype writer = ToFile path | Discard

fun write_out :: "writer \<Rightarrow> string \<Rightarrow> 'd world \<Rightarrow> 'd world" where
  "write_out (ToFile p) s w = append_file p s w"
| "write_out Discard s w = w"

definition BuildImage ::
  "'d env \<Rightarrow> Job \<Rightarrow> string \<Rightarrow> writer \<Rightarrow> bool \<Rightarrow> bool \<Rightarrow> 'd world \<Rightarrow> goerr option \<times> 'd world" where
  "BuildImage env j uid out pullParent noCache w =
     (let buildOpts = \<lparr>oTags = [jImage j], oBuildArgs = [(''uid'', uid)], oNetworkMode = ''host'',
                       oPullParent = pullParent, oNoCache = noCache, oForceRemove = True\<rparr>
      in case docker (dk_ImageBuild env buildOpts (jImageTar j)) w of
           (Inl err, w) \<Rightarrow> (Some (ErrImageBuild (jImage j) err), w)
         | (Inr body, w) \<Rightarrow>
             let (txt, serr) = dk_DisplayJSONMessagesStream env body;
                 w = write_out out txt w
             in case serr of
                  Some err \<Rightarrow> (Some (ErrImageBuild (jImage j) err), w)
                | None \<Rightarrow>
                    (case docker (dk_ImageInspectWithRaw env (jImage j)) w of
                       (Some err, w) \<Rightarrow> (Some (ErrImageBuild (jImage j) err), w)
                     | (None, w) \<Rightarrow> (None, w)))"

definition randomHexString :: "'d world \<Rightarrow> string \<times> 'd world" where
  "randomHexString w = (let (buf, w) = rand_Read 16 w in (hex_text buf, w))"

fun rename_all :: "'d env \<Rightarrow> string \<Rightarrow> string list \<Rightarrow> 'd world \<Rightarrow> goerr option \<times> 'd world" where
  "rename_all env name [] w = (None, w)"
| "rename_all env name (c # cs) w =
     (let (suffix, w) = randomHexString w
      in case docker (dk_ContainerRename env c (name @ ''-renamed-'' @ suffix)) w of
           (Some err, w) \<Rightarrow> (Some err, w)
         | (None, w) \<Rightarrow> rename_all env name cs w)"

definition renameIfExists :: "'d env \<Rightarrow> string \<Rightarrow> 'd world \<Rightarrow> goerr option \<times> 'd world" where
  "renameIfExists env name w =
     (case docker (dk_ContainerList env name) w of
        (Inl err, w) \<Rightarrow> (Some err, w)
      | (Inr containers, w) \<Rightarrow> rename_all env name containers w)"

text \<open>
  Following the logs waits for the container; meanwhile the container works on the trees that
  are mounted into it.
\<close>

fun run_mounts :: "'d env \<Rightarrow> string \<Rightarrow> Mount list \<Rightarrow> 'd world \<Rightarrow> 'd world" where
  "run_mounts env cid [] w = w"
| "run_mounts env cid (m # ms) w =
     run_mounts env cid ms
       (case fs_stat max_links True (mSource m) (root w) of
          Inl _ \<Rightarrow> w
        | Inr (q, nd) \<Rightarrow> w\<lparr>root := put q (dk_effect env (dockerd w) cid (mTarget m) nd) (root w)\<rparr>)"

text \<open>\<open>stdcopy.StdCopy(out, io.MultiWriter(out, outErr), logs)\<close>: what reaches each writer.\<close>

fun frame_text :: "frame \<Rightarrow> string" where
  "frame_text (Stdout s) = s"
| "frame_text (Stderr s) = s"

fun frame_err :: "frame \<Rightarrow> string" where
  "frame_err (Stdout s) = []"
| "frame_err (Stderr s) = s"

text \<open>The exit code in the JSON that the daemon returns for a container.\<close>

definition set_State_field :: "string \<Rightarrow> json \<Rightarrow> int \<Rightarrow> int option" where
  "set_State_field k v x = (if lower k = ''exitcode'' then as_int v x else Some x)"

definition set_result_field :: "string \<Rightarrow> json \<Rightarrow> int \<Rightarrow> int option" where
  "set_result_field k v x =
     (if lower k = ''state'' then
        (case v of JObj kvs \<Rightarrow> decode_fields set_State_field kvs x | JNull \<Rightarrow> Some x | _ \<Rightarrow> None)
      else Some x)"

definition container_mounts :: "'d Config \<Rightarrow> Job \<Rightarrow> Mount list" where
  "container_mounts cfg j =
     \<lparr>mSource = Join (jPendingBuildPath j) DataDir, mTarget = DataDir\<rparr>
       # map (\<lambda>(src, target). \<lparr>mSource = fpath src, mTarget = target\<rparr>) (cMounts cfg)"

text \<open>
  What happens after the container was started, up to the deferred removal: the text for the
  second writer and the exit code.
\<close>

definition await_container ::
  "'d env \<Rightarrow> Mount list \<Rightarrow> string \<Rightarrow> writer \<Rightarrow> 'd world \<Rightarrow> (string \<times> (goerr + int)) \<times> 'd world" where
  "await_container env mnts cid out w =
     (case docker (dk_ContainerLogs env cid) w of
        (Inl err, w) \<Rightarrow> (([], Inl err), w)
      | (Inr (frames, cerr), w) \<Rightarrow>
          let w = run_mounts env cid mnts w;
              w = write_out out (concat (map frame_text frames)) w;
              outErr = concat (map frame_err frames)
          in case cerr of
               Some err \<Rightarrow> ((outErr, Inl err), w)
             | None \<Rightarrow>
                 (case docker (dk_ContainerInspectWithRaw env cid) w of
                    (Inl err, w) \<Rightarrow> ((outErr, Inl err), w)
                  | (Inr inspect, w) \<Rightarrow>
                      ((outErr, unmarshal_struct set_result_field inspect 0), w)))"

text \<open>
  The result is what the second writer received, the exit code and the error; as in the
  source, the exit code of a failed call is 0. An error of \<open>renameIfExists\<close> is overwritten.
\<close>

definition StartContainer ::
  "'d env \<Rightarrow> 'd Config \<Rightarrow> Job \<Rightarrow> writer \<Rightarrow> 'd world \<Rightarrow> (string \<times> int \<times> goerr option) \<times> 'd world" where
  "StartContainer env cfg j out w =
     (let mnts = container_mounts cfg j;
          (_, w) = renameIfExists env (jContainer j) w
      in case docker (dk_ContainerCreate env (cUID cfg) (jImage j) mnts (jContainer j)) w of
           (Inl err, w) \<Rightarrow> (([], 0, Some err), w)
         | (Inr cid, w) \<Rightarrow>
             (case docker (dk_ContainerStart env cid) w of
                (Some err, w) \<Rightarrow> (([], 0, Some err), w)
              | (None, w) \<Rightarrow>
                  let ((outErr, res), w) = await_container env mnts cid out w;
                      (_, w) = docker (dk_ContainerRemove env cid) w
                  in (case res of
                        Inl err \<Rightarrow> ((outErr, 0, Some err), w)
                      | Inr code \<Rightarrow> ((outErr, code, None), w))))"

section \<open>Text and JSON forms of a job\<close>

text \<open>Slicing the first seven bytes of the ID panics on a shorter one.\<close>

definition Job_String :: "Job \<Rightarrow> string outcome" where
  "Job_String j =
     (if length (jID j) < 7 then Panic ''slice bounds out of range''
      else Ret (''{project='' @ jProject j @ '' group='' @ jGroup j @ '' id='' @ take 7 (jID j) @ ''}''))"

definition Job_MarshalJSON :: "Job \<Rightarrow> json" where
  "Job_MarshalJSON j = JObj
     [(''id'', JStr (jID j)), (''project'', JStr (jProject j)),
      (''startedAt'', JDate (jStartedAt j div second)),
      (''buildInfo'', marshal_BuildInfo (jBuildInfo j)), (''state'', JStr (jState j))]"

record JobData =
  dID :: string
  dProject :: string
  dStartedAt :: json
  dBuildInfo :: BuildInfo
  dState :: string

definition set_JobData_field :: "string \<Rightarrow> json \<Rightarrow> JobData \<Rightarrow> JobData option" where
  "set_JobData_field key v d =
     (let k = lower key in
      if k = ''id'' then map_option (\<lambda>x. d\<lparr>dID := x\<rparr>) (as_str v (dID d))
      else if k = ''project'' then map_option (\<lambda>x. d\<lparr>dProject := x\<rparr>) (as_str v (dProject d))
      else if k = ''startedat'' then
        (case v of JStr _ \<Rightarrow> Some (d\<lparr>dStartedAt := v\<rparr>) | JTime _ \<Rightarrow> Some (d\<lparr>dStartedAt := v\<rparr>)
         | JDate _ \<Rightarrow> Some (d\<lparr>dStartedAt := v\<rparr>) | JNull \<Rightarrow> Some d | _ \<Rightarrow> None)
      else if k = ''buildinfo'' then
        (case v of JNull \<Rightarrow> Some d
         | _ \<Rightarrow> (case unmarshal_BuildInfo (Doc v) (dBuildInfo d) of Inl _ \<Rightarrow> None
                | Inr bi \<Rightarrow> Some (d\<lparr>dBuildInfo := bi\<rparr>)))
      else if k = ''state'' then map_option (\<lambda>x. d\<lparr>dState := x\<rparr>) (as_str v (dState d))
      else Some d)"

text \<open>
  The fields of \<open>j\<close> that are assigned before the date is parsed stay assigned on error. The
  target of the decoder is a pointer, which the document \<open>null\<close> sets to nil.
\<close>

definition Job_UnmarshalJSON :: "content \<Rightarrow> Job \<Rightarrow> (goerr option \<times> Job) outcome" where
  "Job_UnmarshalJSON data j =
     (if data = Doc JNull then Panic ''nil pointer dereference''
      else case unmarshal_struct set_JobData_field data
             \<lparr>dID = [], dProject = [], dStartedAt = JStr [], dBuildInfo = zero_BuildInfo, dState = []\<rparr> of
        Inl err \<Rightarrow> Ret (Some err, j)
      | Inr d \<Rightarrow>
          let j = j\<lparr>jID := dID d, jProject := dProject d\<rparr>
          in case dStartedAt d of
               JDate s \<Rightarrow>
                 Ret (None, j\<lparr>jStartedAt := s * second, jBuildInfo := dBuildInfo d, jState := dState d\<rparr>)
             | _ \<Rightarrow> Ret (Some (ErrorString ''parsing time: cannot parse''), j))"

section \<open>Job state and build directories on disk\<close>

definition GetState :: "path \<Rightarrow> string \<Rightarrow> string \<Rightarrow> 'd world \<Rightarrow> (goerr + string) \<times> 'd world" where
  "GetState p project ident w =
     (let pPath = Join (Join (Join p project) ''pending'') ident;
          rPath = Join (Join (Join p project) ''ready'') ident
      in case os_Stat pPath w of
           (Inr _, w) \<Rightarrow> (Inr ''pending'', w)
         | (Inl _, w) \<Rightarrow>
             (case os_Stat rPath w of
                (Inr _, w) \<Rightarrow> (Inr ''ready'', w)
              | (Inl _, w) \<Rightarrow>
                  (Inl (ErrorString (''job with id='' @ ident @ '' not found error'')), w)))"

text \<open>\<open>None\<close> is the empty string: no base to clone.\<close>

definition CloneSrcPath :: "Job \<Rightarrow> 'd world \<Rightarrow> path option \<times> 'd world" where
  "CloneSrcPath j w =
     (if jGroup j \<noteq> [] then
        (case EvalSymlinks (jLatestBuildPath j) w of
           (Inl _, w) \<Rightarrow> (None, w)
         | (Inr p, w) \<Rightarrow> (Some p, w))
      else (None, w))"

definition workErr :: "string \<Rightarrow> goerr option \<Rightarrow> goerr" where
  "workErr s e =
     ErrorString (''work: '' @ s @ (case e of None \<Rightarrow> [] | Some e \<Rightarrow> ''; '' @ Error e))"

fun ensure_dirs :: "path list \<Rightarrow> 'd world \<Rightarrow> goerr option \<times> 'd world" where
  "ensure_dirs [] w = (None, w)"
| "ensure_dirs (d # ds) w =
     (case EnsureDirExists d w of
        (Some err, w) \<Rightarrow> (Some (workErr ''could not ensure directory exists'' (Some err)), w)
      | (None, w) \<Rightarrow> ensure_dirs ds w)"

definition build_dirs :: "Job \<Rightarrow> path list" where
  "build_dirs j =
     (let data = Join (jPendingBuildPath j) DataDir
      in [data, Join data CacheDir, Join data ArtifactsDir, Join data ParamsDir])"

definition BootstrapBuildDir ::
  "'d FileSystem \<Rightarrow> Job \<Rightarrow> 'd world \<Rightarrow> goerr option \<times> Job \<times> 'd world" where
  "BootstrapBuildDir fs j w =
     (let (cloneSrc, w) = CloneSrcPath j w;
          ((err, w), j) =
            (case cloneSrc of
               None \<Rightarrow> (fsCreate fs (jPendingBuildPath j) w, j)
             | Some src \<Rightarrow> (fsClone fs src (jPendingBuildPath j) w,
                           j\<lparr>jBuildInfo := (jBuildInfo j)\<lparr>bIncremental := True\<rparr>\<rparr>))
      in case err of
           Some e \<Rightarrow> (Some (workErr ''could not create pending build path'' (Some e)), j, w)
         | None \<Rightarrow>
             (case (case cloneSrc of
                      None \<Rightarrow> (None, w)
                    | Some _ \<Rightarrow> os_RemoveAll (Join (Join (jPendingBuildPath j) DataDir) ParamsDir) w) of
                (Some e, w) \<Rightarrow> (Some (workErr ''could not remove params dir'' (Some e)), j, w)
              | (None, w) \<Rightarrow> (let (err, w) = ensure_dirs (build_dirs j) w in (err, j, w))))"

definition ReadJobLogs :: "path \<Rightarrow> 'd world \<Rightarrow> (goerr + string) \<times> 'd world" where
  "ReadJobLogs jobPath w =
     (case os_ReadFile (BuildLogPath jobPath) w of
        (Inl err, w) \<Rightarrow> (Inl err, w)
      | (Inr c, w) \<Rightarrow> (Inr (bytes_of c), w))"

text \<open>
  The decoder gets the address of the pointer \<open>buildInfo\<close>, so the document \<open>null\<close> sets it to nil
  (the result \<open>Inr None\<close>), and storing the logs then panics.
\<close>

definition ReadJobBuildInfo ::
  "path \<Rightarrow> bool \<Rightarrow> 'd world \<Rightarrow> ((goerr + BuildInfo option) \<times> 'd world) outcome" where
  "ReadJobBuildInfo p logs w =
     (let (buildInfo, w) = NewBuildInfo w
      in case os_ReadFile (Join p BuildInfoFname) w of
           (Inl err, w) \<Rightarrow> Ret (Inl err, w)
         | (Inr bytes, w) \<Rightarrow>
             (case (if bytes = Doc JNull then Inr None
                    else map_sum id Some (unmarshal_BuildInfo bytes buildInfo)) of
                Inl err \<Rightarrow> Ret (Inl err, w)
              | Inr buildInfo \<Rightarrow>
                  if logs then
                    (case ReadJobLogs p w of
                       (Inl err, w) \<Rightarrow> Ret (Inl err, w)
                     | (Inr lg, w) \<Rightarrow>
                         (case buildInfo of
                            None \<Rightarrow> Panic ''nil pointer dereference''
                          | Some bi \<Rightarrow> Ret (Inr (Some (bi\<lparr>bContainerStdouterr := lg\<rparr>)), w)))
                  else Ret (Inr buildInfo, w)))"

end
