(* ===== verification/Queues.thy ===== *)
theory Queues
  imports Job
begin

text \<open>
  The files \<open>cmd/mistryd/job_queue.go\<close> and \<open>cmd/mistryd/project_queue.go\<close>: the set of jobs that
  are being built, by which identical builds are coalesced, and the mutex per project. Each
  operation runs under the queue's own mutex, so it is one atomic step.
\<close>

section \<open>The job queue\<close>

text \<open>\<open>map[string]bool\<close>: a missing key reads as false.\<close>

record JobQueue =
  jobs :: "string \<rightharpoonup> bool"

definition NewJobQueue :: JobQueue where
  "NewJobQueue = \<lparr>jobs = Map.empty\<rparr>"

definition Add :: "JobQueue \<Rightarrow> Job \<Rightarrow> bool \<times> JobQueue" where
  "Add q j =
     (if jobs q (jID j) = Some True then (False, q)
      else (True, q\<lparr>jobs := (jobs q)(jID j \<mapsto> True)\<rparr>))"

definition Delete :: "JobQueue \<Rightarrow> Job \<Rightarrow> JobQueue" where
  "Delete q j = q\<lparr>jobs := (jobs q)(jID j := None)\<rparr>"

definition enqueued :: "JobQueue \<Rightarrow> string \<Rightarrow> bool" where
  "enqueued q i \<longleftrightarrow> jobs q i = Some True"

section \<open>The project queue\<close>

text \<open>
  The mutex of a project is allocated on first use and never replaced or shared, so the map
  from projects to pointers is represented by the state of the mutex pointed to.
\<close>

record ProjectQueue =
  plocks :: "string \<rightharpoonup> bool"

definition NewProjectQueue :: ProjectQueue where
  "NewProjectQueue = \<lparr>plocks = Map.empty\<rparr>"

definition Lock :: "ProjectQueue \<Rightarrow> string \<Rightarrow> ProjectQueue outcome" where
  "Lock q project =
     (let q = (case plocks q project of
                 None \<Rightarrow> q\<lparr>plocks := (plocks q)(project \<mapsto> False)\<rparr>
               | Some _ \<Rightarrow> q)
      in if plocks q project = Some True then Blocked
         else Ret (q\<lparr>plocks := (plocks q)(project \<mapsto> True)\<rparr>))"

definition Unlock :: "ProjectQueue \<Rightarrow> string \<Rightarrow> ProjectQueue outcome" where
  "Unlock q project =
     (case plocks q project of
        None \<Rightarrow> Panic ''nil pointer dereference''
      | Some False \<Rightarrow> Panic ''sync: unlock of unlocked mutex''
      | Some True \<Rightarrow> Ret (q\<lparr>plocks := (plocks q)(project \<mapsto> False)\<rparr>))"

definition held :: "ProjectQueue \<Rightarrow> string \<Rightarrow> bool" where
  "held q project \<longleftrightarrow> plocks q project = Some True"

section \<open>The contract of a claim registry\<close>

text \<open>
  What the worker relies on: a claim succeeds exactly when the key is free, and then the key is
  taken until it is released; nothing else changes.
\<close>

locale claim_registry =
  fixes empty :: 'q
    and claim :: "'q \<Rightarrow> 'j \<Rightarrow> bool \<times> 'q"
    and release :: "'q \<Rightarrow> 'j \<Rightarrow> 'q"
    and taken :: "'q \<Rightarrow> 'k \<Rightarrow> bool"
    and key :: "'j \<Rightarrow> 'k"
  assumes taken_empty: "\<not> taken empty k"
    and claim_iff: "fst (claim q j) \<longleftrightarrow> \<not> taken q (key j)"
    and taken_claim: "taken (snd (claim q j)) l \<longleftrightarrow> l = key j \<or> taken q l"
    and taken_release: "taken (release q j) l \<longleftrightarrow> l \<noteq> key j \<and> taken q l"
begin

text \<open>Claiming twice fails, and a release makes the next claim succeed.\<close>

lemma second_claim_fails: "key i = key j \<Longrightarrow> \<not> fst (claim (snd (claim q i)) j)"
  by (simp add: claim_iff taken_claim)

lemma claim_after_release: "key i = key j \<Longrightarrow> fst (claim (release q i) j)"
  by (simp add: claim_iff taken_release)

lemma claim_release_neutral:
  "fst (claim q j) \<Longrightarrow> taken (release (snd (claim q j)) j) l \<longleftrightarrow> taken q l"
  by (auto simp: claim_iff taken_claim taken_release)

text \<open>
  Of a sequence of claims on one key without a release in between, at most one succeeds: the
  first one, if the key was free.
\<close>

fun claims :: "'q \<Rightarrow> 'j list \<Rightarrow> bool list" where
  "claims q [] = []"
| "claims q (j # js) = fst (claim q j) # claims (snd (claim q j)) js"

lemma claims_taken: "taken q (key j) \<Longrightarrow> n < length js \<Longrightarrow> key (js ! n) = key j \<Longrightarrow> \<not> claims q js ! n"
proof (induction js arbitrary: q n)
  case (Cons l js)
  have "taken (snd (claim q l)) (key j)"
    using Cons.prems(1) by (simp add: taken_claim)
  with Cons show ?case
    by (cases n) (auto simp: claim_iff)
qed simp

lemma claims_once:
  assumes "m < n" and "n < length js" and "key (js ! m) = key (js ! n)"
  shows "\<not> claims q js ! n"
  using assms
proof (induction js arbitrary: q m n)
  case (Cons l js)
  show ?case
  proof (cases m)
    case 0
    with Cons.prems obtain n' where n': "n = Suc n'" "n' < length js" "key (js ! n') = key l"
      by (cases n) auto
    have "taken (snd (claim q l)) (key l)" by (simp add: taken_claim)
    from claims_taken [OF this n'(2,3)] n'(1) show ?thesis by simp
  next
    case (Suc m')
    with Cons.prems obtain n' where "n = Suc n'" by (cases n) auto
    with Suc Cons.prems Cons.IH [of m' n' "snd (claim q l)"] show ?thesis by simp
  qed
qed simp

end

interpretation jq: claim_registry NewJobQueue Add Delete enqueued jID
  by unfold_locales (auto simp: NewJobQueue_def Add_def Delete_def enqueued_def)

section \<open>The contract of a lock table\<close>

locale lock_table =
  fixes lock :: "'q \<Rightarrow> 'k \<Rightarrow> 'q outcome"
    and unlock :: "'q \<Rightarrow> 'k \<Rightarrow> 'q outcome"
    and locked :: "'q \<Rightarrow> 'k \<Rightarrow> bool"
  assumes lock_free: "\<not> locked q k \<Longrightarrow> \<exists>q'. lock q k = Ret q' \<and> (\<forall>l. locked q' l \<longleftrightarrow> l = k \<or> locked q l)"
    and lock_held: "locked q k \<Longrightarrow> lock q k = Blocked"
    and unlock_held: "locked q k \<Longrightarrow> \<exists>q'. unlock q k = Ret q' \<and> (\<forall>l. locked q' l \<longleftrightarrow> l \<noteq> k \<and> locked q l)"
    and unlock_free: "\<not> locked q k \<Longrightarrow> \<exists>m. unlock q k = Panic m"
begin

lemma lock_Ret: "lock q k = Ret q' \<Longrightarrow> \<not> locked q k \<and> (\<forall>l. locked q' l \<longleftrightarrow> l = k \<or> locked q l)"
  using lock_free [of q k] lock_held [of q k] by (cases "locked q k") auto

text \<open>A critical section leaves every lock as it found it, and never blocks on a free lock.\<close>

lemma lock_unlock:
  assumes "\<not> locked q k"
  shows "\<exists>q' q''. lock q k = Ret q' \<and> unlock q' k = Ret q'' \<and> (\<forall>l. locked q'' l \<longleftrightarrow> locked q l)"
proof -
  obtain q' where q': "lock q k = Ret q'" "\<forall>l. locked q' l \<longleftrightarrow> l = k \<or> locked q l"
    using lock_free [OF assms] by blast
  then obtain q'' where "unlock q' k = Ret q''" "\<forall>l. locked q'' l \<longleftrightarrow> l \<noteq> k \<and> locked q' l"
    using unlock_held [of q' k] by auto
  with q' assms show ?thesis by auto
qed

text \<open>Different keys do not exclude each other.\<close>

lemma lock_other:
  assumes "lock q k = Ret q'" and "\<not> locked q l" and "l \<noteq> k"
  shows "\<exists>q''. lock q' l = Ret q''"
  using lock_free [of q' l] lock_Ret [OF assms(1)] assms(2,3) by auto

end

interpretation pq: lock_table Lock Unlock held
proof unfold_locales
  fix q k
  show "\<not> held q k \<Longrightarrow> \<exists>q'. Lock q k = Ret q' \<and> (\<forall>l. held q' l \<longleftrightarrow> l = k \<or> held q l)"
    by (cases "plocks q k") (auto simp: Lock_def held_def Let_def)
  show "held q k \<Longrightarrow> Lock q k = Blocked"
    by (auto simp: Lock_def held_def Let_def)
  show "held q k \<Longrightarrow> \<exists>q'. Unlock q k = Ret q' \<and> (\<forall>l. held q' l \<longleftrightarrow> l \<noteq> k \<and> held q l)"
    by (auto simp: Unlock_def held_def)
  show "\<not> held q k \<Longrightarrow> \<exists>m. Unlock q k = Panic m"
    by (cases "plocks q k") (auto simp: Unlock_def held_def split: bool.splits)
qed

end
