(* ===== verification/Metrics.thy ===== *)
theory Metrics
  imports Job
begin

text \<open>
  The package \<open>cmd/mistryd/metrics\<close>: the collectors the server exports. A gauge holds one value
  per project, a counter a count per project, and a histogram the durations (in nanoseconds)
  observed per project, latest first. Registration with the Prometheus library and the choice of
  buckets are not modelled.
\<close>

record Recorder =
  BuildsHosted :: "string \<rightharpoonup> nat"
  BuildsStarted :: "string \<Rightarrow> nat"
  BuildsFinished :: "string \<Rightarrow> nat"
  BuildsCoalesced :: "string \<Rightarrow> nat"
  BuildsProcessedIncrementally :: "string \<Rightarrow> nat"
  BuildsSucceeded :: "string \<Rightarrow> int list"
  BuildsFailed :: "string \<Rightarrow> int list"
  CacheUtilization :: "string \<Rightarrow> nat"

definition NewRecorder :: Recorder where
  "NewRecorder = \<lparr>BuildsHosted = Map.empty, BuildsStarted = (\<lambda>_. 0), BuildsFinished = (\<lambda>_. 0),
     BuildsCoalesced = (\<lambda>_. 0), BuildsProcessedIncrementally = (\<lambda>_. 0), BuildsSucceeded = (\<lambda>_. []),
     BuildsFailed = (\<lambda>_. []), CacheUtilization = (\<lambda>_. 0)\<rparr>"

definition inc :: "string \<Rightarrow> (string \<Rightarrow> nat) \<Rightarrow> string \<Rightarrow> nat" where
  "inc project c = c(project := Suc (c project))"

definition observe :: "string \<Rightarrow> int \<Rightarrow> (string \<Rightarrow> int list) \<Rightarrow> string \<Rightarrow> int list" where
  "observe project d h = h(project := d # h project)"

fun record_projects :: "path \<Rightarrow> string list \<Rightarrow> Recorder \<Rightarrow> 'd world \<Rightarrow> Recorder \<times> 'd world" where
  "record_projects buildPath [] r w = (r, w)"
| "record_projects buildPath (p # ps) r w =
     (case os_ReadDir (Join (Join buildPath p) ''ready'') w of
        (Inl _, w) \<Rightarrow> record_projects buildPath ps r w
      | (Inr builds, w) \<Rightarrow>
          record_projects buildPath ps
            (r\<lparr>BuildsHosted := (BuildsHosted r)(p \<mapsto> length builds)\<rparr>) w)"

definition RecordHostedBuilds :: "path \<Rightarrow> path \<Rightarrow> Recorder \<Rightarrow> 'd world \<Rightarrow> Recorder \<times> 'd world" where
  "RecordHostedBuilds buildPath projectsPath r w =
     (case os_ReadDir projectsPath w of
        (Inl _, w) \<Rightarrow> (r, w)
      | (Inr projects, w) \<Rightarrow> record_projects buildPath (map fst projects) r w)"

definition RecordBuildStarted :: "string \<Rightarrow> Recorder \<Rightarrow> Recorder" where
  "RecordBuildStarted project r = r\<lparr>BuildsStarted := inc project (BuildsStarted r)\<rparr>"

definition RecordBuildCoalesced :: "string \<Rightarrow> Recorder \<Rightarrow> Recorder" where
  "RecordBuildCoalesced project r = r\<lparr>BuildsCoalesced := inc project (BuildsCoalesced r)\<rparr>"

definition RecordBuildFinished :: "string \<Rightarrow> bool \<Rightarrow> bool \<Rightarrow> int \<Rightarrow> Recorder \<Rightarrow> Recorder" where
  "RecordBuildFinished project success incremental duration r =
     (let r = r\<lparr>BuildsFinished := inc project (BuildsFinished r)\<rparr>
      in if success then
           (let r = (if incremental
                     then r\<lparr>BuildsProcessedIncrementally := inc project (BuildsProcessedIncrementally r)\<rparr>
                     else r)
            in r\<lparr>BuildsSucceeded := observe project duration (BuildsSucceeded r)\<rparr>)
         else r\<lparr>BuildsFailed := observe project duration (BuildsFailed r)\<rparr>)"

definition RecordCacheUtilization :: "string \<Rightarrow> Recorder \<Rightarrow> Recorder" where
  "RecordCacheUtilization project r = r\<lparr>CacheUtilization := inc project (CacheUtilization r)\<rparr>"

section \<open>The books balance\<close>

text \<open>Every finished build is observed exactly once, as a success or as a failure.\<close>

definition balanced :: "Recorder \<Rightarrow> bool" where
  "balanced r \<longleftrightarrow> (\<forall>p. BuildsFinished r p = length (BuildsSucceeded r p) + length (BuildsFailed r p) \<and>
     BuildsProcessedIncrementally r p \<le> length (BuildsSucceeded r p))"

lemma balanced_New: "balanced NewRecorder"
  by (simp add: balanced_def NewRecorder_def)

lemma balanced_Started [simp]: "balanced (RecordBuildStarted p r) = balanced r"
  by (simp add: balanced_def RecordBuildStarted_def)

lemma balanced_Coalesced [simp]: "balanced (RecordBuildCoalesced p r) = balanced r"
  by (simp add: balanced_def RecordBuildCoalesced_def)

lemma balanced_Cache [simp]: "balanced (RecordCacheUtilization p r) = balanced r"
  by (simp add: balanced_def RecordCacheUtilization_def)

lemma balanced_Finished: "balanced r \<Longrightarrow> balanced (RecordBuildFinished p s i d r)"
  by (auto simp: balanced_def RecordBuildFinished_def inc_def observe_def Let_def le_SucI)

text \<open>
  Every request is counted as started, and at most once more: as finished, as coalesced, or as
  answered from the cache.
\<close>

definition books :: "Recorder \<Rightarrow> bool" where
  "books r \<longleftrightarrow> balanced r \<and>
     (\<forall>p. BuildsFinished r p + BuildsCoalesced r p + CacheUtilization r p \<le> BuildsStarted r p)"

text \<open>What one request does to the collectors of its project.\<close>

definition outcome_recorded :: "string \<Rightarrow> Recorder \<Rightarrow> Recorder \<Rightarrow> bool" where
  "outcome_recorded p r r' \<longleftrightarrow>
     r' = r \<or> r' = RecordBuildCoalesced p r \<or> r' = RecordCacheUtilization p r \<or>
     (\<exists>ok incr d. r' = RecordBuildFinished p ok incr d r)"

lemma books_request:
  assumes "books r" and "outcome_recorded p (RecordBuildStarted p r) r'"
  shows "books r' \<and> BuildsStarted r' = inc p (BuildsStarted r)"
proof -
  have s: "balanced (RecordBuildStarted p r)" using assms(1) by (simp add: books_def)
  from assms(2) consider "r' = RecordBuildStarted p r" | "r' = RecordBuildCoalesced p (RecordBuildStarted p r)"
    | "r' = RecordCacheUtilization p (RecordBuildStarted p r)"
    | ok incr d where "r' = RecordBuildFinished p ok incr d (RecordBuildStarted p r)"
    by (auto simp: outcome_recorded_def)
  then show ?thesis
  proof cases
    case 4
    have "balanced r'" unfolding 4 by (rule balanced_Finished [OF s])
    with assms(1) 4 show ?thesis
      by (auto simp: books_def RecordBuildFinished_def RecordBuildStarted_def inc_def Let_def le_SucI)
  qed (use assms(1) in \<open>auto simp: books_def RecordBuildStarted_def RecordBuildCoalesced_def
      RecordCacheUtilization_def balanced_def inc_def le_SucI\<close>)
qed

lemma books_New: "books NewRecorder"
  using balanced_New by (simp add: books_def NewRecorder_def)

end
