(* ===== verification/Worker.thy ===== *)
theory Worker
  imports Queues Metrics
begin

text \<open>
  The file \<open>cmd/mistryd/worker.go\<close>: how a worker performs a job. \<open>Work\<close> is split along its
  phases; the deferred functions are applied in the order in which Go runs them (last deferred
  first). The waiting loop of a coalesced job takes the choices of its \<open>select\<close> statement as an
  argument: cancellation of the context, or a tick together with the file tree that the other
  goroutines have produced by then.
\<close>

record 'd Server =
  sCfg :: "'d Config"
  sJq :: JobQueue
  sPq :: ProjectQueue
  sMetrics :: "Recorder option"

definition record_metrics :: "(Recorder \<Rightarrow> Recorder) \<Rightarrow> 'd Server \<Rightarrow> 'd Server" where
  "record_metrics f s = s\<lparr>sMetrics := map_option f (sMetrics s)\<rparr>"

definition set_info :: "(BuildInfo \<Rightarrow> BuildInfo) \<Rightarrow> Job \<Rightarrow> Job" where
  "set_info f j = j\<lparr>jBuildInfo := f (jBuildInfo j)\<rparr>"

text \<open>What \<open>Work\<close> returns, and the state after it.\<close>

type_synonym work_ret = "BuildInfo option \<times> goerr option"
type_synonym 'd work_result = "(work_ret \<times> 'd Server \<times> Job \<times> 'd world) outcome"

section \<open>Helpers\<close>

definition getJobURL :: "Job \<Rightarrow> string" where
  "getJobURL j = join_with ''/'' [''job'', jProject j, jID j]"

definition persistBuildInfo :: "Job \<Rightarrow> 'd world \<Rightarrow> goerr option \<times> 'd world" where
  "persistBuildInfo j w =
     (let bi = (jBuildInfo j)\<lparr>bContainerStdouterr := [], bContainerStderr := []\<rparr>
      in os_WriteFile (jBuildInfoFilePath j) (Doc (marshal_BuildInfo bi)) w)"

definition ExitCode :: "Job \<Rightarrow> 'd world \<Rightarrow> ((goerr + int) \<times> 'd world) outcome" where
  "ExitCode j w =
     (case ReadJobBuildInfo (jReadyBuildPath j) False w of
        Blocked \<Rightarrow> Blocked
      | Panic m \<Rightarrow> Panic m
      | Ret (Inl err, w) \<Rightarrow> Ret (Inl err, w)
      | Ret (Inr None, w) \<Rightarrow> Panic ''nil pointer dereference''
      | Ret (Inr (Some bi), w) \<Rightarrow> Ret (Inr (bExitCode bi), w))"

fun ensure_all :: "path list \<Rightarrow> 'd world \<Rightarrow> goerr option \<times> 'd world" where
  "ensure_all [] w = (None, w)"
| "ensure_all (p # ps) w =
     (case EnsureDirExists p w of
        (Some err, w) \<Rightarrow> (Some err, w)
      | (None, w) \<Rightarrow> ensure_all ps w)"

definition project_dirs :: "Job \<Rightarrow> path list" where
  "project_dirs j =
     [jRootBuildPath j, Join (jRootBuildPath j) ''pending'', Join (jRootBuildPath j) ''ready'']
     @ (if jGroup j \<noteq> [] then [Join (jRootBuildPath j) ''groups''] else [])"

definition BootstrapProject ::
  "'d Server \<Rightarrow> Job \<Rightarrow> 'd world \<Rightarrow> (goerr option \<times> 'd Server \<times> 'd world) outcome" where
  "BootstrapProject s j w =
     (case Lock (sPq s) (jProject j) of
        Blocked \<Rightarrow> Blocked
      | Panic m \<Rightarrow> Panic m
      | Ret q \<Rightarrow>
          (let (err, w) = ensure_all (project_dirs j) w
           in case Unlock q (jProject j) of
                Blocked \<Rightarrow> Blocked
              | Panic m \<Rightarrow> Panic m
              | Ret q \<Rightarrow> Ret (err, s\<lparr>sPq := q\<rparr>, w)))"

section \<open>The start of \<open>Work\<close>\<close>

definition work_begin :: "'d Server \<Rightarrow> Job \<Rightarrow> 'd world \<Rightarrow> int \<times> 'd Server \<times> Job \<times> 'd world" where
  "work_begin s j w =
     (let (start, w) = time_Now w;
          (bi, w) = NewBuildInfo w;
          j = j\<lparr>jBuildInfo := bi\<lparr>
                bPath := path_string (Join (Join (jReadyBuildPath j) DataDir) ArtifactsDir),
                bTransportMethod := Rsync_method,
                bParams := jParams j,
                bStartedAt := jStartedAt j,
                bURL := getJobURL j,
                bGroup := jGroup j\<rparr>\<rparr>
      in (start, record_metrics (RecordBuildStarted (jProject j)) s, j, w))"

section \<open>Build coalescing\<close>

datatype select_event = CtxDone | Tick node

text \<open>The build that was waited for is there: its exit code is read and returned.\<close>

definition join_result :: "'d Server \<Rightarrow> Job \<Rightarrow> 'd world \<Rightarrow> 'd work_result" where
  "join_result s j w =
     (case ExitCode j w of
        Blocked \<Rightarrow> Blocked
      | Panic m \<Rightarrow> Panic m
      | Ret (Inl err, w) \<Rightarrow> Ret ((Some (jBuildInfo j), Some err), s, j, w)
      | Ret (Inr i, w) \<Rightarrow>
          let j = set_info (\<lambda>bi. bi\<lparr>bExitCode := i, bCoalesced := True\<rparr>) j;
              s = record_metrics (RecordBuildCoalesced (jProject j)) s
          in Ret ((Some (jBuildInfo j), None), s, j, w))"

fun coalesce :: "'d Server \<Rightarrow> Job \<Rightarrow> select_event list \<Rightarrow> 'd world \<Rightarrow> 'd work_result" where
  "coalesce s j [] w = Blocked"
| "coalesce s j (CtxDone # evs) w =
     Ret ((Some (jBuildInfo j), Some (workErr ''context cancelled while coalescing'' None)), s, j, w)"
| "coalesce s j (Tick r # evs) w =
     (case os_Stat (jReadyBuildPath j) (w\<lparr>root := r\<rparr>) of
        (Inr _, w) \<Rightarrow> join_result s j w
      | (Inl err, w) \<Rightarrow>
          if IsNotExist err then coalesce s j evs w
          else Ret ((Some (jBuildInfo j), Some (workErr ''could not coalesce'' (Some err))), s, j, w))"

section \<open>The build itself\<close>

fun write_params :: "path \<Rightarrow> Params \<Rightarrow> 'd world \<Rightarrow> goerr option \<times> 'd world" where
  "write_params dir [] w = (None, w)"
| "write_params dir ((k, v) # ps) w =
     (case os_WriteFile (Join dir k) (Text v) w of
        (Some err, w) \<Rightarrow> (Some (workErr ''could not write param file'' (Some err)), w)
      | (None, w) \<Rightarrow> write_params dir ps w)"

text \<open>\<open>Truncate(time.Millisecond)\<close> of a duration rounds towards zero.\<close>

definition trunc_ms :: "int \<Rightarrow> int" where
  "trunc_ms d = d - sgn d * (\<bar>d\<bar> mod 1000000)"

text \<open>From the image to the finished container, with the log file and the client open.\<close>

definition build_and_run ::
  "'d env \<Rightarrow> 'd Server \<Rightarrow> Job \<Rightarrow> int \<Rightarrow> 'd world \<Rightarrow> goerr option \<times> 'd Server \<times> Job \<times> 'd world" where
  "build_and_run env s j start w =
     (let out = ToFile (jBuildLogPath j)
      in case BuildImage env j (cUID (sCfg s)) out (jRebuild j) (jRebuild j) w of
           (Some err, w) \<Rightarrow> (Some (workErr ''could not build docker image'' (Some err)), s, j, w)
         | (None, w) \<Rightarrow>
             let ((outErr, code, err), w) = StartContainer env (sCfg s) j out w;
                 j = set_info (\<lambda>bi. bi\<lparr>bExitCode := code\<rparr>) j
             in case err of
                  Some err \<Rightarrow> (Some (workErr ''could not start docker container'' (Some err)), s, j, w)
                | None \<Rightarrow>
                    (case os_Sync (jBuildLogPath j) w of
                       (Some err, w) \<Rightarrow> (Some (workErr ''could not flush the output log'' (Some err)), s, j, w)
                     | (None, w) \<Rightarrow>
                         (case ReadJobLogs (jPendingBuildPath j) w of
                            (Inl err, w) \<Rightarrow> (Some (workErr ''could not read the job logs'' (Some err)), s, j, w)
                          | (Inr stdouterr, w) \<Rightarrow>
                              let (now, w) = time_Now w;
                                  j = set_info (\<lambda>bi. bi\<lparr>bContainerStdouterr := stdouterr,
                                        bContainerStderr := outErr, bDuration := trunc_ms (now - start)\<rparr>) j;
                                  bi = jBuildInfo j;
                                  s = record_metrics (RecordBuildFinished (jProject j)
                                        (bExitCode bi = ContainerSuccessExitCode) (bIncremental bi)
                                        (bDuration bi)) s
                              in (None, s, j, w))))"

text \<open>The error of a deferred close joins the error of the function.\<close>

definition close_err :: "string \<Rightarrow> goerr option \<Rightarrow> goerr option \<Rightarrow> goerr option" where
  "close_err errstr ferr err =
     (case ferr of
        None \<Rightarrow> err
      | Some f \<Rightarrow>
          Some (ErrorString (errstr @ ''; '' @ Error f @
            (case err of None \<Rightarrow> [] | Some e \<Rightarrow> '' | '' @ Error e))))"

definition with_client ::
  "'d env \<Rightarrow> 'd Server \<Rightarrow> Job \<Rightarrow> int \<Rightarrow> 'd world \<Rightarrow> goerr option \<times> 'd Server \<times> Job \<times> 'd world" where
  "with_client env s j start w =
     (case docker (dk_NewEnvClient env) w of
        (Some err, w) \<Rightarrow> (Some (workErr ''could not create docker client'' (Some err)), s, j, w)
      | (None, w) \<Rightarrow>
          let (err, s, j, w) = build_and_run env s j start w;
              (derr, w) = docker (dk_Close env) w
          in (close_err ''could not close docker client'' derr err, s, j, w))"

definition with_log ::
  "'d env \<Rightarrow> 'd Server \<Rightarrow> Job \<Rightarrow> int \<Rightarrow> 'd world \<Rightarrow> goerr option \<times> 'd Server \<times> Job \<times> 'd world" where
  "with_log env s j start w =
     (case os_Create (jBuildLogPath j) w of
        (Some err, w) \<Rightarrow> (Some (workErr ''could not create build log file'' (Some err)), s, j, w)
      | (None, w) \<Rightarrow>
          let (err, s, j, w) = with_client env s j start w;
              (ferr, w) = os_Close (jBuildLogPath j) w
          in (close_err ''could not close build log file'' ferr err, s, j, w))"

definition build_body ::
  "'d env \<Rightarrow> 'd Server \<Rightarrow> Job \<Rightarrow> int \<Rightarrow> 'd world \<Rightarrow> goerr option \<times> 'd Server \<times> Job \<times> 'd world" where
  "build_body env s j start w =
     (case write_params (Join (Join (jPendingBuildPath j) DataDir) ParamsDir) (jParams j) w of
        (Some err, w) \<Rightarrow> (Some err, s, j, w)
      | (None, w) \<Rightarrow> with_log env s j start w)"

section \<open>The deferred functions\<close>

text \<open>Record the error and persist the build information one last time.\<close>

definition finish_info :: "goerr option \<Rightarrow> Job \<Rightarrow> 'd world \<Rightarrow> goerr option \<times> Job \<times> 'd world" where
  "finish_info err j w =
     (let j = (case err of None \<Rightarrow> j | Some e \<Rightarrow> set_info (\<lambda>bi. bi\<lparr>bErrBuild := Error e\<rparr>) j)
      in case persistBuildInfo j w of
           (Some biErr, w) \<Rightarrow> (Some (workErr ''could not persist build info'' (Some biErr)), j, w)
         | (None, w) \<Rightarrow> (err, j, w))"

text \<open>
  Point the latest link at the ready build. The old link is removed before the new one is made,
  and a call of another job may look at the link in between.
\<close>

definition remove_latest :: "Job \<Rightarrow> 'd world \<Rightarrow> goerr option \<times> 'd world" where
  "remove_latest j w =
     (case os_Lstat (jLatestBuildPath j) w of
        (Inr _, w) \<Rightarrow>
          (case os_Remove (jLatestBuildPath j) w of
             (Some err, w) \<Rightarrow> (Some (workErr ''could not remove latest build link'' (Some err)), w)
           | (None, w) \<Rightarrow> (None, w))
      | (Inl err, w) \<Rightarrow>
          if IsNotExist err then (None, w)
          else (Some (workErr ''could not stat the latest build link'' (Some err)), w))"

definition create_latest :: "Job \<Rightarrow> 'd world \<Rightarrow> goerr option \<times> 'd world" where
  "create_latest j w =
     (case os_Symlink (jReadyBuildPath j) (jLatestBuildPath j) w of
        (Some err, w) \<Rightarrow> (Some (workErr ''could not create latest build link'' (Some err)), w)
      | (None, w) \<Rightarrow> (None, w))"

definition link_latest :: "Job \<Rightarrow> 'd world \<Rightarrow> goerr option \<times> 'd world" where
  "link_latest j w =
     (case remove_latest j w of
        (Some err, w) \<Rightarrow> (Some err, w)
      | (None, w) \<Rightarrow> create_latest j w)"

text \<open>Move the build from pending to ready and, if it was successful, link it.\<close>

definition finish_move ::
  "goerr option \<Rightarrow> 'd Server \<Rightarrow> Job \<Rightarrow> 'd world \<Rightarrow> (goerr option \<times> 'd Server \<times> 'd world) outcome" where
  "finish_move err s j w =
     (let (rerr, w) = os_Rename (jPendingBuildPath j) (jReadyBuildPath j) w;
          err = close_err ''could not move pending path'' rerr err
      in if err = None \<and> bExitCode (jBuildInfo j) = ContainerSuccessExitCode then
           (case Lock (sPq s) (jProject j) of
              Blocked \<Rightarrow> Blocked
            | Panic m \<Rightarrow> Panic m
            | Ret q \<Rightarrow>
                let (err, w) = link_latest j w
                in case Unlock q (jProject j) of
                     Blocked \<Rightarrow> Blocked
                   | Panic m \<Rightarrow> Panic m
                   | Ret q \<Rightarrow> Ret (err, s\<lparr>sPq := q\<rparr>, w))
         else Ret (err, s, w))"

definition work_build :: "'d env \<Rightarrow> 'd Server \<Rightarrow> Job \<Rightarrow> int \<Rightarrow> 'd world \<Rightarrow> 'd work_result" where
  "work_build env s j start w =
     (let (err, s, j, w) = build_body env s j start w;
          (err, j, w) = finish_info err j w
      in case finish_move err s j w of
           Blocked \<Rightarrow> Blocked
         | Panic m \<Rightarrow> Panic m
         | Ret (err, s, w) \<Rightarrow> Ret ((Some (jBuildInfo j), err), s, j, w))"

section \<open>A fresh build and the result cache\<close>

definition work_fresh :: "'d env \<Rightarrow> 'd Server \<Rightarrow> Job \<Rightarrow> int \<Rightarrow> 'd world \<Rightarrow> 'd work_result" where
  "work_fresh env s j start w =
     (let fail = (\<lambda>err s j w. Ret ((Some (jBuildInfo j), Some err), s, j, w))
      in case os_Stat (Join (projects_dir (sCfg s)) (jProject j)) w of
           (Inl err, w) \<Rightarrow>
             if IsNotExist err then fail (workErr ''Unknown project'' None) s j w
             else fail (workErr ''could not check for project'' (Some err)) s j w
         | (Inr _, w) \<Rightarrow>
             (case BootstrapProject s j w of
                Blocked \<Rightarrow> Blocked
              | Panic m \<Rightarrow> Panic m
              | Ret (Some err, s, w) \<Rightarrow> fail (workErr ''could not bootstrap project'' (Some err)) s j w
              | Ret (None, s, w) \<Rightarrow>
                  (case BootstrapBuildDir (cFileSystem (sCfg s)) j w of
                     (Some err, j, w) \<Rightarrow> fail (workErr ''could not bootstrap build dir'' (Some err)) s j w
                   | (None, j, w) \<Rightarrow>
                       (case persistBuildInfo j w of
                          (Some err, w) \<Rightarrow> fail (workErr ''could not persist build info'' (Some err)) s j w
                        | (None, w) \<Rightarrow> work_build env s j start w))))"

definition work_cache :: "'d env \<Rightarrow> 'd Server \<Rightarrow> Job \<Rightarrow> int \<Rightarrow> 'd world \<Rightarrow> 'd work_result" where
  "work_cache env s j start w =
     (case os_Stat (jReadyBuildPath j) w of
        (Inr _, w) \<Rightarrow>
          (case ReadJobBuildInfo (jReadyBuildPath j) True w of
             Blocked \<Rightarrow> Blocked
           | Panic m \<Rightarrow> Panic m
           | Ret (Inl err, w) \<Rightarrow> Ret ((None, Some err), s, j, w)
           | Ret (Inr None, w) \<Rightarrow> Panic ''nil pointer dereference''
           | Ret (Inr (Some bi), w) \<Rightarrow>
               if bExitCode bi \<noteq> 0 then
                 (case fsRemove (cFileSystem (sCfg s)) (jReadyBuildPath j) w of
                    (Some err, w) \<Rightarrow>
                      Ret ((Some bi, Some (workErr ''could not remove existing failed build'' (Some err))), s, j, w)
                  | (None, w) \<Rightarrow> work_fresh env s j start w)
               else
                 Ret ((Some (bi\<lparr>bCached := True\<rparr>), None),
                      record_metrics (RecordCacheUtilization (jProject j)) s, j, w))
      | (Inl err, w) \<Rightarrow>
          if IsNotExist err then work_fresh env s j start w
          else Ret ((Some (jBuildInfo j), Some (workErr ''could not check for ready path'' (Some err))), s, j, w))"

definition Work :: "'d env \<Rightarrow> select_event list \<Rightarrow> 'd Server \<Rightarrow> Job \<Rightarrow> 'd world \<Rightarrow> 'd work_result" where
  "Work env evs s j w =
     (let (start, s, j, w) = work_begin s j w;
          (added, q) = Add (sJq s) j
      in if added then
           (case work_cache env (s\<lparr>sJq := q\<rparr>) j start w of
              Ret (r, s, j', w) \<Rightarrow> Ret (r, s\<lparr>sJq := Delete (sJq s) j\<rparr>, j', w)
            | Blocked \<Rightarrow> Blocked
            | Panic m \<Rightarrow> Panic m)
         else coalesce (s\<lparr>sJq := q\<rparr>) j evs w)"

end
