(* ===== verification/Work_Locks.thy ===== *)
theory Work_Locks
  imports Worker
begin

text \<open>
  What \<open>Work\<close> does with the state it shares with the other workers, in every world and under
  every fault: it gives back the job's entry in the job queue and the project's mutex, it cannot
  get stuck or panic when both are free, and the metrics stay balanced.
\<close>

section \<open>The build phases leave the queues alone\<close>

lemma record_metrics_sel [simp]:
  "sJq (record_metrics f s) = sJq s" "sPq (record_metrics f s) = sPq s"
  "sCfg (record_metrics f s) = sCfg s" "sMetrics (record_metrics f s) = map_option f (sMetrics s)"
  by (simp_all add: record_metrics_def)

definition same_queues :: "'d Server \<Rightarrow> 'd Server \<Rightarrow> bool" where
  "same_queues s s' \<longleftrightarrow> sJq s' = sJq s \<and> sPq s' = sPq s \<and> sCfg s' = sCfg s"

lemma build_and_run_queues:
  "build_and_run env s j start w = (err, s', j', w') \<Longrightarrow> same_queues s s'"
  by (auto simp: build_and_run_def same_queues_def Let_def split: prod.splits option.splits sum.splits)

lemma with_client_queues: "with_client env s j start w = (err, s', j', w') \<Longrightarrow> same_queues s s'"
  by (auto simp: with_client_def Let_def same_queues_def split: prod.splits option.splits
      dest!: build_and_run_queues)

lemma with_log_queues: "with_log env s j start w = (err, s', j', w') \<Longrightarrow> same_queues s s'"
  by (auto simp: with_log_def Let_def same_queues_def split: prod.splits option.splits
      dest!: with_client_queues)

lemma build_body_queues: "build_body env s j start w = (err, s', j', w') \<Longrightarrow> same_queues s s'"
  by (auto simp: build_body_def same_queues_def split: prod.splits option.splits dest!: with_log_queues)

section \<open>Locks are given back\<close>

definition same_locks :: "'d Server \<Rightarrow> 'd Server \<Rightarrow> bool" where
  "same_locks s s' \<longleftrightarrow> sJq s' = sJq s \<and> sCfg s' = sCfg s \<and> (\<forall>l. held (sPq s') l \<longleftrightarrow> held (sPq s) l)"

lemma same_locks_refl [simp]: "same_locks s s"
  by (simp add: same_locks_def)

lemma same_locks_trans: "same_locks s t \<Longrightarrow> same_locks t u \<Longrightarrow> same_locks s u"
  by (auto simp: same_locks_def)

lemma same_queues_locks: "same_queues s s' \<Longrightarrow> same_locks s s'"
  by (simp add: same_queues_def same_locks_def)

lemma same_locks_record [simp]: "same_locks s (record_metrics f t) = same_locks s t"
  by (simp add: same_locks_def)

text \<open>A critical section on the project's mutex that returns gives the mutex back.\<close>

lemma critical_locks:
  assumes "Lock (sPq s) p = Ret q" and "Unlock q p = Ret q'"
  shows "same_locks s (s\<lparr>sPq := q'\<rparr>)"
  using pq.lock_Ret [OF assms(1)] pq.unlock_held [of q p] assms(2) by (auto simp: same_locks_def)

lemma critical_runs:
  assumes "\<not> held q p"
  obtains q' q'' where "Lock q p = Ret q'" and "Unlock q' p = Ret q''"
  using pq.lock_unlock [OF assms] by blast

lemma BootstrapProject_locks:
  "BootstrapProject s j w = Ret (err, s', w') \<Longrightarrow> same_locks s s'"
  by (auto simp: BootstrapProject_def Let_def split: outcome.splits prod.splits intro: critical_locks)

lemma BootstrapProject_runs:
  assumes "\<not> held (sPq s) (jProject j)"
  shows "\<exists>r. BootstrapProject s j w = Ret r"
  by (rule critical_runs [OF assms]) (simp add: BootstrapProject_def Let_def split: prod.splits)

lemma finish_move_locks: "finish_move err s j w = Ret (err', s', w') \<Longrightarrow> same_locks s s'"
  by (auto simp: finish_move_def Let_def split: outcome.splits prod.splits if_splits
      intro: critical_locks)

lemma finish_move_runs:
  assumes "\<not> held (sPq s) (jProject j)"
  shows "\<exists>r. finish_move err s j w = Ret r"
  by (rule critical_runs [OF assms]) (auto simp: finish_move_def Let_def split: prod.splits)

text \<open>The project of a job never changes.\<close>

lemma set_info_sel [simp]:
  "jID (set_info f j) = jID j" "jProject (set_info f j) = jProject j"
  "jParams (set_info f j) = jParams j" "jGroup (set_info f j) = jGroup j"
  "jRootBuildPath (set_info f j) = jRootBuildPath j"
  "jPendingBuildPath (set_info f j) = jPendingBuildPath j"
  "jReadyBuildPath (set_info f j) = jReadyBuildPath j"
  "jLatestBuildPath (set_info f j) = jLatestBuildPath j"
  "jBuildLogPath (set_info f j) = jBuildLogPath j"
  "jBuildInfoFilePath (set_info f j) = jBuildInfoFilePath j"
  "jBuildInfo (set_info f j) = f (jBuildInfo j)"
  by (simp_all add: set_info_def)

definition same_job :: "Job \<Rightarrow> Job \<Rightarrow> bool" where
  "same_job j j' \<longleftrightarrow> j' = j\<lparr>jBuildInfo := jBuildInfo j'\<rparr>"

lemma same_job_refl [simp]: "same_job j j"
  by (simp add: same_job_def)

lemma same_job_trans: "same_job i j \<Longrightarrow> same_job j k \<Longrightarrow> same_job i k"
  unfolding same_job_def by (cases i, cases j, cases k) auto

lemma same_job_set_info [simp]: "same_job i (set_info f j) = same_job i j"
  unfolding same_job_def set_info_def by (cases i; cases j) auto

lemma same_job_upd [simp]: "same_job i (j\<lparr>jBuildInfo := b\<rparr>) = same_job i j"
  using same_job_set_info [of i "\<lambda>_. b" j] by (simp add: set_info_def)

lemma same_job_sel:
  assumes "same_job j j'"
  shows "jID j' = jID j" "jProject j' = jProject j" "jParams j' = jParams j" "jGroup j' = jGroup j"
    "jRootBuildPath j' = jRootBuildPath j" "jPendingBuildPath j' = jPendingBuildPath j"
    "jReadyBuildPath j' = jReadyBuildPath j" "jLatestBuildPath j' = jLatestBuildPath j"
    "jBuildLogPath j' = jBuildLogPath j" "jBuildInfoFilePath j' = jBuildInfoFilePath j"
  by (subst assms [unfolded same_job_def], simp)+

lemma build_and_run_job: "build_and_run env s j start w = (err, s', j', w') \<Longrightarrow> same_job j j'"
  by (auto simp: build_and_run_def Let_def split: prod.splits option.splits sum.splits)

lemma build_body_job: "build_body env s j start w = (err, s', j', w') \<Longrightarrow> same_job j j'"
  by (auto simp: build_body_def with_log_def with_client_def Let_def split: prod.splits option.splits
      dest!: build_and_run_job)

lemma finish_info_job: "finish_info err j w = (err', j', w') \<Longrightarrow> same_job j j'"
  by (auto simp: finish_info_def Let_def split: prod.splits option.splits)

lemma BootstrapBuildDir_job: "BootstrapBuildDir fs j w = (err, j', w') \<Longrightarrow> same_job j j'"
  by (auto simp: BootstrapBuildDir_def Let_def split: prod.splits option.splits)

section \<open>The phases of \<open>Work\<close>\<close>

lemma work_build_locks:
  assumes "work_build env s j start w = Ret (r, s', j', w')"
  shows "same_locks s s'"
proof -
  obtain err1 s1 j1 w1 where b: "build_body env s j start w = (err1, s1, j1, w1)"
    by (metis prod_cases4)
  from assms b show ?thesis
    using same_queues_locks [OF build_body_queues [OF b]]
    by (auto simp: work_build_def Let_def split: prod.splits outcome.splits
        dest!: finish_move_locks intro: same_locks_trans)
qed

lemma work_build_runs:
  assumes "\<not> held (sPq s) (jProject j)"
  shows "\<exists>r. work_build env s j start w = Ret r"
proof -
  obtain err1 s1 j1 w1 where b: "build_body env s j start w = (err1, s1, j1, w1)"
    by (metis prod_cases4)
  obtain err2 j2 w2 where f: "finish_info err1 j1 w1 = (err2, j2, w2)"
    by (metis prod_cases3)
  have "jProject j2 = jProject j"
    using build_body_job [OF b] finish_info_job [OF f] by (metis same_job_sel(2))
  moreover have "sPq s1 = sPq s"
    using build_body_queues [OF b] by (simp add: same_queues_def)
  ultimately have "\<exists>r. finish_move err2 s1 j2 w2 = Ret r"
    using assms by (intro finish_move_runs) simp
  with b f show ?thesis by (auto simp: work_build_def)
qed

lemma work_fresh_locks:
  "work_fresh env s j start w = Ret (r, s', j', w') \<Longrightarrow> same_locks s s'"
  by (auto simp: work_fresh_def Let_def split: prod.splits outcome.splits option.splits sum.splits if_splits
      dest!: BootstrapProject_locks work_build_locks intro: same_locks_trans)

lemma work_fresh_runs:
  assumes "\<not> held (sPq s) (jProject j)"
  shows "\<exists>r. work_fresh env s j start w = Ret r"
proof (cases "os_Stat (Join (projects_dir (sCfg s)) (jProject j)) w")
  case (Pair st w1)
  obtain err s1 w2 where b: "BootstrapProject s j w1 = Ret (err, s1, w2)"
    using BootstrapProject_runs [OF assms] by (metis prod_cases3)
  obtain err2 j1 w3 where bb: "BootstrapBuildDir (cFileSystem (sCfg s1)) j w2 = (err2, j1, w3)"
    by (metis prod_cases3)
  have "jProject j1 = jProject j" "\<not> held (sPq s1) (jProject j)"
    using same_job_sel(2) [OF BootstrapBuildDir_job [OF bb]] BootstrapProject_locks [OF b] assms
    by (auto simp: same_locks_def)
  then have "\<exists>r. work_build env s1 j1 start w4 = Ret r" for w4
    using work_build_runs by metis
  then show ?thesis
    using Pair b bb by (auto simp: work_fresh_def Let_def split: sum.splits option.splits prod.splits)
qed

lemma work_cache_locks:
  "work_cache env s j start w = Ret (r, s', j', w') \<Longrightarrow> same_locks s s'"
  by (auto simp: work_cache_def split: prod.splits outcome.splits sum.splits option.splits if_splits
      dest!: work_fresh_locks)

text \<open>The stored build information is not the JSON document \<open>null\<close>, on which the reader panics.\<close>

definition info_not_null :: "path \<Rightarrow> node \<Rightarrow> bool" where
  "info_not_null p r \<longleftrightarrow>
     (case fs_stat max_links True (Join p BuildInfoFname) r of
        Inr (_, File c) \<Rightarrow> c \<noteq> Doc JNull
      | _ \<Rightarrow> True)"

lemma NewBuildInfo_frame [world_simps]:
  assumes "NewBuildInfo w = (bi, w')"
  shows "root w' = root w" "faults w' = faults w" "dockerd w' = dockerd w"
  using assms by (auto simp: NewBuildInfo_def time_Now_def Let_def split: prod.splits list.splits)

lemma ReadJobBuildInfo_runs:
  assumes "info_not_null p (root w)"
  shows "\<exists>x w'. ReadJobBuildInfo p logs w = Ret (x, w') \<and> x \<noteq> Inr None"
proof -
  obtain bi w1 where n: "NewBuildInfo w = (bi, w1)" by force
  obtain c w2 where r: "os_ReadFile (Join p BuildInfoFname) w1 = (c, w2)" by force
  have "c \<noteq> Inr (Doc JNull)"
  proof
    assume "c = Inr (Doc JNull)"
    with path_get_Inr [of "''open''" "Join p BuildInfoFname" _ w1] r
    have "(case fs_stat max_links True (Join p BuildInfoFname) (root w1) of
            Inl e \<Rightarrow> Inl e | Inr (_, File c) \<Rightarrow> Inr c | Inr _ \<Rightarrow> Inl EISDIR) = Inr (Doc JNull)"
      by (simp add: os_ReadFile_def)
    then show False
      using assms NewBuildInfo_frame(1) [OF n]
      by (auto simp: info_not_null_def split: sum.splits node.splits)
  qed
  then show ?thesis
    using n r by (auto simp: ReadJobBuildInfo_def map_sum_def split: sum.splits prod.splits)
qed

lemma work_cache_runs:
  assumes "\<not> held (sPq s) (jProject j)" and "info_not_null (jReadyBuildPath j) (root w)"
  shows "\<exists>r. work_cache env s j start w = Ret r"
proof -
  obtain st w1 where st: "os_Stat (jReadyBuildPath j) w = (st, w1)" by force
  have "info_not_null (jReadyBuildPath j) (root w1)"
    using assms(2) os_read_root(1) [OF st] by simp
  then obtain x w2 where "ReadJobBuildInfo (jReadyBuildPath j) True w1 = Ret (x, w2)" "x \<noteq> Inr None"
    using ReadJobBuildInfo_runs by blast
  with st work_fresh_runs [OF assms(1)] show ?thesis
    by (cases st; cases x) (auto simp: work_cache_def split: prod.splits option.splits)
qed

lemma coalesce_server:
  "coalesce s j evs w = Ret (r, s', j', w') \<Longrightarrow> same_queues s s'"
proof (induction s j evs w rule: coalesce.induct)
  case (3 s j r evs w)
  then show ?case
    by (auto simp: join_result_def same_queues_def Let_def split: prod.splits outcome.splits sum.splits if_splits)
qed (auto simp: same_queues_def)

lemma work_begin_sel:
  "work_begin s j w = (start, s', j', w') \<Longrightarrow>
     same_queues s s' \<and> same_job j j' \<and> root w' = root w \<and> faults w' = faults w \<and> dockerd w' = dockerd w"
  by (auto simp: work_begin_def Let_def same_queues_def NewBuildInfo_def time_Now_def
      split: prod.splits list.splits)

end
