(* ===== verification/Work_Build.thy ===== *)
theory Work_Build
  imports Work_Locks
begin

text \<open>
  The effect of a build on the file tree, in a world without injected faults and on a build
  directory made of real directories: the lemmas follow the phases of \<open>Work\<close> and describe, for
  each, which part of the tree it can change.
\<close>

section \<open>Jobs and build directories of the expected shape\<close>

text \<open>The paths of a job whose project, group and parameters have plain names.\<close>

definition wf_job :: "Job \<Rightarrow> bool" where
  "wf_job j \<longleftrightarrow>
     jRootBuildPath j \<noteq> [] \<and> clean_name (jID j) \<and> (jGroup j = [] \<or> clean_name (jGroup j)) \<and>
     jPendingBuildPath j = jRootBuildPath j @ [''pending'', jID j] \<and>
     jReadyBuildPath j = jRootBuildPath j @ [''ready'', jID j] \<and>
     jLatestBuildPath j =
       (if jGroup j = [] then jRootBuildPath j @ [''latest''] else jRootBuildPath j @ [''groups'', jGroup j]) \<and>
     jBuildLogPath j = jPendingBuildPath j @ [''out.log''] \<and>
     jBuildInfoFilePath j = jPendingBuildPath j @ [''build_info.json''] \<and>
     distinct (map fst (jParams j))"

definition plain_params :: "Job \<Rightarrow> bool" where
  "plain_params j \<longleftrightarrow> (\<forall>k \<in> set (map fst (jParams j)). clean_name k)"

text \<open>
  The build directory of the server exists, and what it holds of the job's project are real
  directories and a link.
\<close>

definition dir_or_new :: "node \<Rightarrow> path \<Rightarrow> bool" where
  "dir_or_new r p \<longleftrightarrow> lookup r p = None \<or> is_dir r p"

definition layout :: "Job \<Rightarrow> node \<Rightarrow> bool" where
  "layout j r \<longleftrightarrow>
     is_dir r (butlast (jRootBuildPath j)) \<and> dir_or_new r (jRootBuildPath j) \<and>
     dir_or_new r (jRootBuildPath j @ [''pending'']) \<and> dir_or_new r (jRootBuildPath j @ [''ready'']) \<and>
     dir_or_new r (jRootBuildPath j @ [''groups'']) \<and>
     (case lookup r (jLatestBuildPath j) of None \<Rightarrow> True | Some nd \<Rightarrow> is_link nd)"

text \<open>What one call of \<open>EnsureDirExists\<close> may change.\<close>

definition ensured :: "path \<Rightarrow> node \<Rightarrow> node \<Rightarrow> bool" where
  "ensured d r r' \<longleftrightarrow> is_dir r' d \<and> (\<forall>q. is_dir r q \<longrightarrow> is_dir r' q) \<and>
     (\<forall>q. \<not> prefix q d \<longrightarrow> lookup r' q = lookup r q)"

text \<open>A change that stays below the directory \<open>p\<close>.\<close>

definition below :: "path \<Rightarrow> node \<Rightarrow> node \<Rightarrow> bool" where
  "below p r r' \<longleftrightarrow> is_dir r' p \<and> (\<forall>q. \<not> prefix p q \<longrightarrow> \<not> prefix q p \<longrightarrow> lookup r' q = lookup r q)"

text \<open>
  A container leaves a directory where one is mounted, and it does not put something else in the
  place of the directories for the cache and the artifacts.
\<close>

definition keeps_mounts :: "'d env \<Rightarrow> bool" where
  "keeps_mounts env \<longleftrightarrow> (\<forall>d cid t nd. IsDir nd \<longrightarrow> IsDir (dk_effect env d cid t nd))"

definition keeps_dirs :: "'d env \<Rightarrow> bool" where
  "keeps_dirs env \<longleftrightarrow>
     (\<forall>d cid t nd. IsDir nd \<and> dir_or_new nd [''cache''] \<and> dir_or_new nd [''artifacts''] \<longrightarrow>
        dir_or_new (dk_effect env d cid t nd) [''cache''] \<and> dir_or_new (dk_effect env d cid t nd) [''artifacts''])"

text \<open>The pending directory while the container may run: data directories, log and build info.\<close>

definition furnished :: "'d env \<Rightarrow> path \<Rightarrow> node \<Rightarrow> bool" where
  "furnished env p r \<longleftrightarrow> is_dir r (p @ [''data'']) \<and>
     (\<exists>c. lookup r (p @ [''out.log'']) = Some (File c)) \<and>
     (\<exists>c. lookup r (p @ [''build_info.json'']) = Some (File c)) \<and>
     (keeps_dirs env \<longrightarrow> dir_or_new r (p @ [''data'', ''cache'']) \<and> dir_or_new r (p @ [''data'', ''artifacts'']))"

text \<open>The same without the directories of the container.\<close>

definition building :: "path \<Rightarrow> node \<Rightarrow> bool" where
  "building p r \<longleftrightarrow> is_dir r (p @ [''data'']) \<and>
     (\<exists>c. lookup r (p @ [''out.log'']) = Some (File c)) \<and>
     (\<exists>c. lookup r (p @ [''build_info.json'']) = Some (File c))"

lemma furnished_building: "furnished env p r \<Longrightarrow> building p r"
  by (simp add: furnished_def building_def)

section \<open>Directories\<close>

lemma const_names [simp]:
  "clean_name ''pending''" "clean_name ''ready''" "clean_name ''groups''" "clean_name ''latest''"
  "clean_name ''data''" "clean_name ''cache''" "clean_name ''artifacts''" "clean_name ''params''"
  "clean_name ''out.log''" "clean_name ''build_info.json''"
  by (simp_all add: clean_name_def)

lemma const_joins [simp]:
  "Join p DataDir = p @ [''data'']" "Join p CacheDir = p @ [''cache'']"
  "Join p ArtifactsDir = p @ [''artifacts'']" "Join p ParamsDir = p @ [''params'']"
  "Join p BuildLogFname = p @ [''out.log'']" "Join p BuildInfoFname = p @ [''build_info.json'']"
  by (simp_all add: DataDir_def CacheDir_def ArtifactsDir_def ParamsDir_def BuildLogFname_def
      BuildInfoFname_def)

lemma prefix_snoc_self [simp]: "\<not> prefix (p @ [c]) p" "\<not> prefix (p @ [c, d]) p"
  by (auto dest: prefix_length_le)

lemma ensured_same: "is_dir r d \<Longrightarrow> ensured d r r"
  by (simp add: ensured_def)

lemma ensured_new:
  assumes "is_dir r p" and "lookup r (p @ [c]) = None"
  shows "ensured (p @ [c]) r (put (p @ [c]) (Dir []) r)"
proof -
  let ?r = "put (p @ [c]) (Dir []) r"
  have same: "lookup ?r q = lookup r q" if "\<not> prefix q (p @ [c])" for q
  proof (cases "prefix (p @ [c]) q")
    case True
    then obtain q' where q: "q = (p @ [c]) @ q'" by (auto elim: prefixE)
    with that obtain a q'' where q': "q' = a # q''" by (cases q') auto
    have "lookup ?r q = lookup (Dir []) q'"
      unfolding q using assms(1) by (intro lookup_put_below) simp
    moreover have "lookup r q = None"
      using assms(2) by (simp only: q lookup_append) simp
    ultimately show ?thesis by (simp add: q')
  next
    case False
    with that show ?thesis by (simp add: lookup_put_other)
  qed
  moreover have "is_dir ?r (p @ [c])"
    using assms(1) by (simp add: is_dir_def)
  moreover have "is_dir ?r q" if "is_dir r q" for q
    using is_dir_put_Dir [OF that, of "p @ [c]"] assms by simp
  ultimately show ?thesis by (simp add: ensured_def)
qed

lemma EnsureDirExists_ensured:
  assumes "quiet w" and "is_dir (root w) p" and "dir_or_new (root w) (p @ [c])"
  shows "\<exists>r. EnsureDirExists (p @ [c]) w = (None, w\<lparr>root := r\<rparr>) \<and> ensured (p @ [c]) (root w) r"
proof (cases "is_dir (root w) (p @ [c])")
  case True
  then show ?thesis
    using assms(1) by (intro exI [of _ "root w"]) (simp add: os_simps ensured_same)
next
  case False
  then have "lookup (root w) (p @ [c]) = None" using assms(3) by (simp add: dir_or_new_def)
  then show ?thesis
    using assms(1,2) ensured_new by (auto simp: os_simps)
qed

lemma ensured_dir: "ensured d r r' \<Longrightarrow> is_dir r q \<Longrightarrow> is_dir r' q"
  by (simp add: ensured_def)

lemma ensured_self: "ensured d r r' \<Longrightarrow> is_dir r' d"
  by (simp add: ensured_def)

lemma ensured_lookup: "ensured d r r' \<Longrightarrow> \<not> prefix q d \<Longrightarrow> lookup r' q = lookup r q"
  by (simp add: ensured_def)

lemma ensured_dir_or_new: "ensured d r r' \<Longrightarrow> dir_or_new r q \<Longrightarrow> \<not> prefix q d \<or> is_dir r q \<Longrightarrow> dir_or_new r' q"
  by (auto simp: ensured_def dir_or_new_def)

lemma below_trans: "below p r r' \<Longrightarrow> below p r' r'' \<Longrightarrow> below p r r''"
  by (simp add: below_def)

lemma below_refl: "is_dir r p \<Longrightarrow> below p r r"
  by (simp add: below_def)

lemma below_put:
  assumes "is_dir r p" and "put_ok r (p @ q)" and "q \<noteq> []"
  shows "below p r (put (p @ q) x r)"
proof -
  have "is_dir (put (p @ q) x r) p"
    by (rule is_dir_put) (use assms in \<open>auto dest: prefix_length_le\<close>)
  moreover have "lookup (put (p @ q) x r) q' = lookup r q'"
    if "\<not> prefix p q'" "\<not> prefix q' p" for q'
  proof (rule lookup_put_other)
    show "\<not> prefix (p @ q) q'" using that(1) by (meson append_prefixD)
    show "\<not> prefix q' (p @ q)" using that by (auto simp: prefix_append)
  qed
  ultimately show ?thesis by (simp add: below_def)
qed

lemma below_ensured:
  assumes "ensured (p @ q) r r'" and "is_dir r p"
  shows "below p r r'"
  using assms by (auto simp: below_def ensured_def prefix_append)

text \<open>Every ancestor of a directory is one, so a directory that can be made stays so.\<close>

lemma is_dir_prefix: "is_dir r p \<Longrightarrow> prefix q p \<Longrightarrow> is_dir r q"
proof -
  assume "is_dir r p" and "prefix q p"
  then obtain s where p: "p = q @ s" by (auto elim: prefixE)
  show ?thesis
  proof (cases s)
    case Nil
    with p \<open>is_dir r p\<close> show ?thesis by simp
  next
    case (Cons c cs)
    with p \<open>is_dir r p\<close> show ?thesis
      using lookup_prefix_dir [of r q c cs] by (auto simp: is_dir_iff)
  qed
qed

lemma ensured_keeps_dir_or_new: "ensured d r r' \<Longrightarrow> dir_or_new r q \<Longrightarrow> dir_or_new r' q"
  by (cases "prefix q d") (auto simp: ensured_def dir_or_new_def intro: is_dir_prefix)

text \<open>
  A list of directories that can be ensured one after the other: the parent of each exists or
  comes before it.
\<close>

fun makeable :: "path set \<Rightarrow> node \<Rightarrow> path list \<Rightarrow> bool" where
  "makeable D r [] \<longleftrightarrow> True"
| "makeable D r (d # ds) \<longleftrightarrow>
     d \<noteq> [] \<and> dir_or_new r d \<and> (is_dir r (butlast d) \<or> butlast d \<in> D) \<and> makeable (insert d D) r ds"

definition ensured_all :: "path list \<Rightarrow> node \<Rightarrow> node \<Rightarrow> bool" where
  "ensured_all ds r r' \<longleftrightarrow> (\<forall>d \<in> set ds. is_dir r' d) \<and> (\<forall>q. is_dir r q \<longrightarrow> is_dir r' q) \<and>
     (\<forall>q. (\<forall>d \<in> set ds. \<not> prefix q d) \<longrightarrow> lookup r' q = lookup r q)"

lemma makeable_ensured: "makeable D r ds \<Longrightarrow> ensured d r r' \<Longrightarrow> makeable D r' ds"
  by (induction D r ds rule: makeable.induct) (auto intro: ensured_keeps_dir_or_new ensured_dir)

lemma ensured_all_Cons:
  "ensured d r r' \<Longrightarrow> ensured_all ds r' r'' \<Longrightarrow> ensured_all (d # ds) r r''"
  by (simp add: ensured_def ensured_all_def)

lemma ensure_all_ok:
  assumes "quiet w" and "\<forall>d \<in> D. is_dir (root w) d" and "makeable D (root w) ds"
  shows "\<exists>r. ensure_all ds w = (None, w\<lparr>root := r\<rparr>) \<and> ensured_all ds (root w) r"
  using assms
proof (induction ds arbitrary: w D)
  case Nil
  then show ?case by (intro exI [of _ "root w"]) (simp add: ensured_all_def)
next
  case (Cons d ds)
  then have d: "d = butlast d @ [last d]" "is_dir (root w) (butlast d)" "dir_or_new (root w) d"
    by auto
  then obtain r where r: "EnsureDirExists d w = (None, w\<lparr>root := r\<rparr>)" "ensured d (root w) r"
    using EnsureDirExists_ensured [OF Cons.prems(1), of "butlast d" "last d"] by auto
  have "\<exists>r'. ensure_all ds (w\<lparr>root := r\<rparr>) = (None, w\<lparr>root := r\<rparr>\<lparr>root := r'\<rparr>) \<and>
      ensured_all ds (root (w\<lparr>root := r\<rparr>)) r'"
  proof (rule Cons.IH)
    show "\<forall>d' \<in> insert d D. is_dir (root (w\<lparr>root := r\<rparr>)) d'"
      using Cons.prems(2) r(2) by (auto intro: ensured_dir ensured_self)
    show "makeable (insert d D) (root (w\<lparr>root := r\<rparr>)) ds"
      using Cons.prems(3) makeable_ensured [OF _ r(2)] by simp
  qed (use Cons.prems in simp)
  with r show ?case by (auto intro: ensured_all_Cons)
qed

lemma ensure_dirs_ok: "ensure_all ds w = (None, w') \<Longrightarrow> ensure_dirs ds w = (None, w')"
  by (induction ds arbitrary: w) (auto split: prod.splits option.splits)

section \<open>The directories of the project\<close>

text \<open>What \<open>BootstrapProject\<close> leaves: the directories exist, and what lies deeper is as before.\<close>

definition bootstrapped :: "Job \<Rightarrow> node \<Rightarrow> node \<Rightarrow> bool" where
  "bootstrapped j r r' \<longleftrightarrow>
     is_dir r' (jRootBuildPath j @ [''pending'']) \<and> is_dir r' (jRootBuildPath j @ [''ready'']) \<and>
     (jGroup j \<noteq> [] \<longrightarrow> is_dir r' (jRootBuildPath j @ [''groups''])) \<and>
     (\<forall>q. is_dir r q \<longrightarrow> is_dir r' q) \<and>
     (\<forall>q. (\<forall>d \<in> set (project_dirs j). \<not> prefix q d) \<longrightarrow> lookup r' q = lookup r q)"

lemma layout_makeable:
  "layout j r \<Longrightarrow> jRootBuildPath j \<noteq> [] \<Longrightarrow> makeable {} r (project_dirs j)"
  by (auto simp: layout_def project_dirs_def butlast_append)

lemma BootstrapProject_ok:
  assumes "quiet w" and "layout j (root w)" and "jRootBuildPath j \<noteq> []"
    and "\<not> held (sPq s) (jProject j)"
  shows "\<exists>s' r. BootstrapProject s j w = Ret (None, s', w\<lparr>root := r\<rparr>) \<and> bootstrapped j (root w) r"
proof -
  obtain r where r: "ensure_all (project_dirs j) w = (None, w\<lparr>root := r\<rparr>)"
      "ensured_all (project_dirs j) (root w) r"
    using ensure_all_ok [OF assms(1) _ layout_makeable [OF assms(2,3)]] by auto
  have "bootstrapped j (root w) r"
    using r(2) by (auto simp: ensured_all_def bootstrapped_def project_dirs_def)
  with r(1) show ?thesis
    by (rule_tac critical_runs [OF assms(4)]) (auto simp: BootstrapProject_def)
qed

text \<open>Where the job's own paths lie.\<close>

lemma wf_job_project_dirs:
  assumes "wf_job j" and "d \<in> set (project_dirs j)"
  shows "\<not> prefix (jPendingBuildPath j @ q) d" "\<not> prefix (jReadyBuildPath j @ q) d"
    "\<not> prefix (jLatestBuildPath j) d"
  using assms by (auto simp: wf_job_def project_dirs_def split: if_splits dest: prefix_length_le)

section \<open>The pending directory\<close>

definition file_or_new :: "node \<Rightarrow> path \<Rightarrow> bool" where
  "file_or_new r p \<longleftrightarrow> (case lookup r p of None \<Rightarrow> True | Some (File _) \<Rightarrow> True | _ \<Rightarrow> False)"

text \<open>
  A tree that can serve as the base of a build: an empty directory, or the tree of a finished
  build, without its parameters.
\<close>

definition base_tree :: "node \<Rightarrow> bool" where
  "base_tree nd \<longleftrightarrow> IsDir nd \<and> dir_or_new nd [''data''] \<and> dir_or_new nd [''data'', ''cache''] \<and>
     dir_or_new nd [''data'', ''artifacts''] \<and>
     file_or_new nd [''out.log''] \<and> file_or_new nd [''build_info.json'']"

text \<open>A pending directory as \<open>BootstrapBuildDir\<close> leaves it.\<close>

definition staged :: "path \<Rightarrow> node \<Rightarrow> bool" where
  "staged p r \<longleftrightarrow> is_dir r (p @ [''data'']) \<and> is_dir r (p @ [''data'', ''cache'']) \<and>
     is_dir r (p @ [''data'', ''artifacts'']) \<and> is_dir r (p @ [''data'', ''params'']) \<and>
     (\<forall>k. lookup r (p @ [''data'', ''params'', k]) = None) \<and>
     file_or_new r (p @ [''out.log'']) \<and> file_or_new r (p @ [''build_info.json''])"

lemma is_dir_below: "put_ok r p \<Longrightarrow> is_dir (put p nd r) (p @ q) = is_dir nd q"
  by (simp add: is_dir_def lookup_put_below)

lemma dir_or_new_below: "put_ok r p \<Longrightarrow> dir_or_new (put p nd r) (p @ q) = dir_or_new nd q"
  by (simp add: dir_or_new_def lookup_put_below is_dir_below)

lemma file_or_new_below: "put_ok r p \<Longrightarrow> file_or_new (put p nd r) (p @ q) = file_or_new nd q"
  by (simp add: file_or_new_def lookup_put_below)

lemma below_put_self:
  assumes "put_ok r p" and "IsDir nd"
  shows "below p r (put p nd r)"
  using assms lookup_put_other is_dir_below [of r p nd "[]"]
  by (auto simp: below_def is_dir_def)

text \<open>From a base tree without a parameter directory to a staged one.\<close>

lemma ensure_build_dirs:
  assumes "quiet w" and "is_dir (root w) (jPendingBuildPath j)"
    and "base_tree nd" and "lookup (root w) (jPendingBuildPath j) = Some nd"
    and "lookup nd [''data'', ''params''] = None"
  shows "\<exists>r. ensure_dirs (build_dirs j) w = (None, w\<lparr>root := r\<rparr>) \<and>
           staged (jPendingBuildPath j) r \<and> below (jPendingBuildPath j) (root w) r \<and>
           (\<forall>q c. lookup nd q = Some (File c) \<longrightarrow> lookup r (jPendingBuildPath j @ q) = Some (File c))"
proof -
  let ?p = "jPendingBuildPath j"
  have low: "lookup (root w) (?p @ q) = lookup nd q" for q
    using assms(4) by (simp add: lookup_append)
  have "makeable {} (root w) (build_dirs j)"
    using assms(2,3,5) by (simp add: build_dirs_def Let_def base_tree_def dir_or_new_def is_dir_def low
        butlast_append)
  then obtain r where r: "ensure_all (build_dirs j) w = (None, w\<lparr>root := r\<rparr>)"
      "ensured_all (build_dirs j) (root w) r"
    using ensure_all_ok [OF assms(1)] by blast
  have same: "lookup r (?p @ q) = lookup nd q" if "\<forall>d \<in> set (build_dirs j). \<not> prefix (?p @ q) d" for q
    using r(2) that low by (simp add: ensured_all_def)
  have files: "lookup r (?p @ q) = Some (File c)" if "lookup nd q = Some (File c)" for q c
  proof -
    have "q \<notin> {[], [''data''], [''data'', ''cache''], [''data'', ''artifacts''], [''data'', ''params'']}"
      using that assms(3,5) by (auto simp: base_tree_def dir_or_new_def is_dir_def)
    then have "\<forall>d \<in> set (build_dirs j). \<not> prefix (?p @ q) d"
      by (auto simp: build_dirs_def Let_def prefix_Cons prefix_append)
    then show ?thesis using same that by simp
  qed
  have "lookup nd [''data'', ''params'', k] = None" for k
    using assms(5) lookup_append [of nd "[''data'', ''params'']" "[k]"] by simp
  then have "staged ?p r"
    using r(2) same assms(3)
    by (simp add: staged_def ensured_all_def build_dirs_def Let_def file_or_new_def base_tree_def)
  moreover have "is_dir r ?p"
    using r(2) assms(2) by (simp add: ensured_all_def)
  moreover have "lookup r q = lookup (root w) q" if "\<not> prefix ?p q" "\<not> prefix q ?p" for q
    using r(2) that by (auto simp: ensured_all_def build_dirs_def Let_def prefix_append)
  ultimately show ?thesis
    using ensure_dirs_ok [OF r(1)] files by (auto simp: below_def)
qed

section \<open>\<open>BootstrapBuildDir\<close> with the plain adapter\<close>

lemma below_del:
  assumes "is_dir r p" and "q \<noteq> []"
  shows "below p r (del (p @ q) r)"
proof -
  have "is_dir (del (p @ q) r) p"
    by (rule is_dir_del [OF assms(1)]) (use assms(2) in \<open>auto dest: prefix_length_le\<close>)
  moreover have "lookup (del (p @ q) r) q' = lookup r q'"
    if "\<not> prefix p q'" "\<not> prefix q' p" for q'
  proof (rule lookup_del_other)
    show "\<not> prefix (p @ q) q'" using that(1) by (meson append_prefixD)
    show "\<not> prefix q' (p @ q)" using that by (auto simp: prefix_append)
  qed
  ultimately show ?thesis by (simp add: below_def)
qed

text \<open>Without a base, the build starts from an empty directory.\<close>

definition no_base :: "Job \<Rightarrow> node \<Rightarrow> bool" where
  "no_base j r \<longleftrightarrow> jGroup j = [] \<or> lookup r (jLatestBuildPath j) = None"

lemma CloneSrcPath_no_base:
  assumes "quiet w" and "wf_job j" and "no_base j (root w)"
    and "jGroup j \<noteq> [] \<longrightarrow> is_dir (root w) (jRootBuildPath j @ [''groups''])"
  shows "CloneSrcPath j w = (None, w)"
  using assms EvalSymlinks_missing [of w "jRootBuildPath j @ [''groups'']" "jGroup j"]
  by (auto simp: CloneSrcPath_def no_base_def wf_job_def)

lemma Create_pending:
  assumes "quiet w" and "wf_job j" and "is_dir (root w) (jRootBuildPath j @ [''pending''])"
    and "lookup (root w) (jPendingBuildPath j) = None"
  shows "PlainFS_Create (jPendingBuildPath j) w =
           (None, w\<lparr>root := put (jPendingBuildPath j) (Dir []) (root w)\<rparr>)"
    and "put_ok (root w) (jPendingBuildPath j)"
  using assms plainfs.create_new [of w "jRootBuildPath j @ [''pending'']" "jID j"]
    put_ok_snoc [of "root w" "jRootBuildPath j @ [''pending'']" "jID j"]
  by (simp_all add: wf_job_def)

lemma base_tree_empty [simp]: "base_tree (Dir [])"
  by (simp add: base_tree_def dir_or_new_def file_or_new_def)

lemma BootstrapBuildDir_fresh:
  assumes "quiet w" and "wf_job j" and "is_dir (root w) (jRootBuildPath j @ [''pending''])"
    and "jGroup j \<noteq> [] \<longrightarrow> is_dir (root w) (jRootBuildPath j @ [''groups''])"
    and "no_base j (root w)" and "lookup (root w) (jPendingBuildPath j) = None"
  shows "\<exists>r. BootstrapBuildDir (PlainFS env) j w = (None, j, w\<lparr>root := r\<rparr>) \<and>
           staged (jPendingBuildPath j) r \<and> below (jPendingBuildPath j) (root w) r"
proof -
  let ?p = "jPendingBuildPath j" and ?w = "w\<lparr>root := put (jPendingBuildPath j) (Dir []) (root w)\<rparr>"
  note c = Create_pending [OF assms(1-3,6)]
  have b: "below ?p (root w) (root ?w)"
    using c(2) below_put_self [of "root w" ?p "Dir []"] by simp
  have "\<exists>r. ensure_dirs (build_dirs j) ?w = (None, ?w\<lparr>root := r\<rparr>) \<and> staged ?p r \<and> below ?p (root ?w) r"
    using ensure_build_dirs [of ?w j "Dir []"] assms(1) c(2) b by (auto simp: below_def)
  then show ?thesis
    using c(1) b CloneSrcPath_no_base [OF assms(1,2,5,4)]
    by (auto simp: BootstrapBuildDir_def intro: below_trans)
qed

text \<open>
  What \<open>cp -r\<close> does, as far as the plain adapter relies on it: a directory tree is copied to a
  path that does not exist yet.
\<close>

definition cp_copies :: "'d env \<Rightarrow> bool" where
  "cp_copies env \<longleftrightarrow>
     (\<forall>w src p c nd. quiet w \<and> lookup (root w) src = Some nd \<and> IsDir nd \<and> is_dir (root w) p \<and>
        lookup (root w) (p @ [c]) = None \<and> (\<forall>x \<in> set (src @ p @ [c]). clean_name x) \<longrightarrow>
        exec_cmd env [''cp'', ''-r'', path_string src, path_string (p @ [c])] w =
          (([], None), w\<lparr>root := put (p @ [c]) nd (root w)\<rparr>))"

text \<open>The latest link of the group points at the tree of a finished build.\<close>

definition based_on :: "Job \<Rightarrow> string \<Rightarrow> node \<Rightarrow> bool" where
  "based_on j i r \<longleftrightarrow> jGroup j \<noteq> [] \<and>
     lookup r (jLatestBuildPath j) = Some (Symlink (jRootBuildPath j @ [''ready'', i])) \<and>
     clean_name i \<and> (\<forall>x \<in> set (jRootBuildPath j). clean_name x) \<and>
     (case lookup r (jRootBuildPath j @ [''ready'', i]) of
        None \<Rightarrow> False | Some nd \<Rightarrow> base_tree nd \<and> is_dir nd [''data''])"

lemma base_tree_del_params:
  assumes "base_tree nd"
  shows "base_tree (del [''data'', ''params''] nd)" "lookup (del [''data'', ''params''] nd) [''data'', ''params''] = None"
proof -
  have other: "lookup (del [''data'', ''params''] nd) q = lookup nd q"
    if "\<not> prefix [''data'', ''params''] q" "\<not> prefix q [''data'', ''params'']" for q
    using that by (rule lookup_del_other)
  have "dir_or_new (del [''data'', ''params''] nd) [''data'']"
    using assms is_dir_del [of nd "[''data'']" "[''data'', ''params'']"]
      lookup_del_above [of "[''data'']" "''params''" "[]" nd]
    by (auto simp: base_tree_def dir_or_new_def)
  then show "base_tree (del [''data'', ''params''] nd)"
    using assms by (simp add: base_tree_def dir_or_new_def file_or_new_def is_dir_def other IsDir_del)
qed simp

lemma base_tree_below:
  assumes "put_ok r p" and "base_tree nd" and "is_dir nd [''data'']" and "quiet w" and "root w = put p nd r"
  shows "\<exists>r'. os_RemoveAll (p @ [''data'', ''params'']) w = (None, w\<lparr>root := r'\<rparr>) \<and>
     below p (put p nd r) r' \<and>
     (\<exists>nd'. lookup r' p = Some nd' \<and> base_tree nd' \<and> lookup nd' [''data'', ''params''] = None \<and>
        (\<forall>q. \<not> prefix [''data'', ''params''] q \<longrightarrow> \<not> prefix q [''data'', ''params''] \<longrightarrow> lookup nd' q = lookup nd q))"
proof (cases "lookup nd [''data'', ''params'']")
  case None
  have "os_RemoveAll ((p @ [''data'']) @ [''params'']) w = (None, w)"
    by (rule os_RemoveAll_missing)
      (use assms None in \<open>simp_all add: is_dir_below lookup_put_below\<close>)
  moreover have "is_dir (put p nd r) p"
    using assms(1,2) is_dir_below [of r p nd "[]"] by (simp add: base_tree_def is_dir_def)
  ultimately show ?thesis
    using assms None by (intro exI [of _ "put p nd r"]) (auto simp: below_refl)
next
  case (Some x)
  have "os_RemoveAll (p @ [''data'', ''params'']) w =
      (None, w\<lparr>root := del (p @ [''data'', ''params'']) (put p nd r)\<rparr>)"
    using assms Some os_RemoveAll_found [of w "p @ [''data'', ''params'']" x]
    by (simp add: lookup_put_below)
  moreover have "is_dir (put p nd r) p"
    using assms(1,2) is_dir_below [of r p nd "[]"] by (simp add: base_tree_def is_dir_def)
  then have "below p (put p nd r) (del (p @ [''data'', ''params'']) (put p nd r))"
    by (intro below_del) simp_all
  moreover have "lookup (del (p @ [''data'', ''params'']) (put p nd r)) p = Some (del [''data'', ''params''] nd)"
    using assms(1) by (simp add: lookup_del_above)
  ultimately show ?thesis
    using base_tree_del_params [OF assms(2)] lookup_del_other by blast
qed

text \<open>With a base, the build starts from a copy of it without its parameters.\<close>

lemma BootstrapBuildDir_clone:
  assumes "quiet w" and "wf_job j" and "is_dir (root w) (jRootBuildPath j @ [''pending''])"
    and "based_on j i (root w)" and "lookup (root w) (jPendingBuildPath j) = None" and "cp_copies env"
  shows "\<exists>r. BootstrapBuildDir (PlainFS env) j w =
             (None, set_info (\<lambda>bi. bi\<lparr>bIncremental := True\<rparr>) j, w\<lparr>root := r\<rparr>) \<and>
           staged (jPendingBuildPath j) r \<and> below (jPendingBuildPath j) (root w) r \<and>
           (\<forall>q c. lookup (root w) (jRootBuildPath j @ ''ready'' # i # q) = Some (File c) \<and> \<not> prefix [''data'', ''params''] q \<longrightarrow>
              lookup r (jPendingBuildPath j @ q) = Some (File c))"
proof -
  let ?p = "jPendingBuildPath j" and ?j = "set_info (\<lambda>bi. bi\<lparr>bIncremental := True\<rparr>) j"
  let ?t = "jRootBuildPath j @ [''ready'', i]"
  obtain nd where nd: "lookup (root w) ?t = Some nd" "base_tree nd" "is_dir nd [''data'']"
    using assms(4) by (auto simp: based_on_def split: option.splits)
  let ?w = "w\<lparr>root := put ?p nd (root w)\<rparr>"
  have ok: "put_ok (root w) ?p" by (rule Create_pending(2) [OF assms(1-3,5)])
  have "\<not> is_link nd" "IsDir nd" using nd(2) by (auto simp: base_tree_def IsDir_iff)
  moreover have "jLatestBuildPath j \<noteq> []" using assms(2) by (auto simp: wf_job_def)
  ultimately have src: "CloneSrcPath j w = (Some ?t, w)"
    using assms(1,4) nd EvalSymlinks_link [of w "jLatestBuildPath j" ?t nd]
    by (auto simp: CloneSrcPath_def based_on_def)
  have "exec_cmd env [''cp'', ''-r'', path_string ?t, path_string ((jRootBuildPath j @ [''pending'']) @ [jID j])] w =
      (([], None), w\<lparr>root := put ((jRootBuildPath j @ [''pending'']) @ [jID j]) nd (root w)\<rparr>)"
    using assms(6) [unfolded cp_copies_def, rule_format, of w ?t nd "jRootBuildPath j @ [''pending'']" "jID j"]
      assms(1-5) nd(1) \<open>IsDir nd\<close> by (simp add: wf_job_def based_on_def)
  then have cl: "PlainFS_Clone env ?t ?p w = (None, ?w)"
    using assms(2) by (simp add: PlainFS_Clone_def RunCmd_def cmd_error_def wf_job_def)
  have b1: "below ?p (root w) (put ?p nd (root w))"
    using below_put_self [OF ok] \<open>IsDir nd\<close> by simp
  obtain r nd' where r: "os_RemoveAll (?p @ [''data'', ''params'']) ?w = (None, ?w\<lparr>root := r\<rparr>)"
      "below ?p (put ?p nd (root w)) r" "lookup r ?p = Some nd'" "base_tree nd'"
      "lookup nd' [''data'', ''params''] = None"
      "\<forall>q. \<not> prefix [''data'', ''params''] q \<longrightarrow> \<not> prefix q [''data'', ''params''] \<longrightarrow> lookup nd' q = lookup nd q"
    using base_tree_below [OF ok nd(2,3), of ?w] assms(1) by auto
  have "lookup nd' q = Some (File c)"
    if q: "lookup (root w) (jRootBuildPath j @ ''ready'' # i # q) = Some (File c)" "\<not> prefix [''data'', ''params''] q" for q c
  proof -
    have l: "lookup nd q = Some (File c)" using q(1) nd(1) lookup_append [of "root w" ?t q] by simp
    then have "q \<notin> {[], [''data'']}" using nd(2,3) by (auto simp: base_tree_def is_dir_def)
    then have "\<not> prefix q [''data'', ''params'']" using q(2) by (auto simp: prefix_Cons)
    then show ?thesis using r(6) q(2) l by simp
  qed
  moreover have "\<exists>r'. ensure_dirs (build_dirs ?j) (w\<lparr>root := r\<rparr>) = (None, w\<lparr>root := r\<rparr>\<lparr>root := r'\<rparr>) \<and>
      staged (jPendingBuildPath ?j) r' \<and> below (jPendingBuildPath ?j) (root (w\<lparr>root := r\<rparr>)) r' \<and>
      (\<forall>q c. lookup nd' q = Some (File c) \<longrightarrow> lookup r' (jPendingBuildPath ?j @ q) = Some (File c))"
    by (rule ensure_build_dirs [where nd = nd']) (use assms(1) r in \<open>simp_all add: below_def\<close>)
  ultimately show ?thesis
    using src cl r(1) below_trans [OF below_trans [OF b1 r(2)]]
    by (auto simp: BootstrapBuildDir_def set_info_def)
qed

section \<open>Parameters\<close>

lemma write_params_ok:
  assumes "quiet w" and "is_dir (root w) dir" and "distinct (map fst ps)"
    and "\<forall>k \<in> set (map fst ps). clean_name k \<and> lookup (root w) (dir @ [k]) = None"
  shows "\<exists>r. write_params dir ps w = (None, w\<lparr>root := r\<rparr>) \<and> below dir (root w) r \<and>
           (\<forall>k v. (k, v) \<in> set ps \<longrightarrow> lookup r (dir @ [k]) = Some (File (Text v))) \<and>
           (\<forall>k. k \<notin> fst ` set ps \<longrightarrow> lookup r (dir @ [k]) = lookup (root w) (dir @ [k]))"
  using assms
proof (induction dir ps w rule: write_params.induct)
  case (1 dir w)
  then show ?case by (intro exI [of _ "root w"]) (simp add: below_refl)
next
  case (2 dir k v ps w)
  let ?r = "put (dir @ [k]) (File (Text v)) (root w)" and ?w = "w\<lparr>root := put (dir @ [k]) (File (Text v)) (root w)\<rparr>"
  have k: "clean_name k" "lookup (root w) (dir @ [k]) = None" using "2.prems" by auto
  then have wr: "os_WriteFile (Join dir k) (Text v) w = (None, ?w)"
    using "2.prems" by (simp add: os_WriteFile_new)
  have other: "lookup ?r (dir @ [l]) = lookup (root w) (dir @ [l])" if "l \<noteq> k" for l
    using that by (simp add: lookup_put_other)
  have b: "below dir (root w) ?r"
    using "2.prems" by (intro below_put) simp_all
  have "\<exists>r. write_params dir ps ?w = (None, ?w\<lparr>root := r\<rparr>) \<and> below dir (root ?w) r \<and>
           (\<forall>k v. (k, v) \<in> set ps \<longrightarrow> lookup r (dir @ [k]) = Some (File (Text v))) \<and>
           (\<forall>k. k \<notin> fst ` set ps \<longrightarrow> lookup r (dir @ [k]) = lookup (root ?w) (dir @ [k]))"
  proof (rule "2.IH" [OF wr [symmetric] refl])
    show "\<forall>l \<in> set (map fst ps). clean_name l \<and> lookup (root ?w) (dir @ [l]) = None"
    proof
      fix l assume "l \<in> set (map fst ps)"
      then show "clean_name l \<and> lookup (root ?w) (dir @ [l]) = None"
        using "2.prems" other [of l] by (cases "l = k") auto
    qed
    show "is_dir (root ?w) dir" using b by (simp add: below_def)
  qed (use "2.prems" in simp_all)
  then obtain r where r: "write_params dir ps ?w = (None, w\<lparr>root := r\<rparr>)" "below dir ?r r"
      "\<And>k v. (k, v) \<in> set ps \<Longrightarrow> lookup r (dir @ [k]) = Some (File (Text v))"
      "\<And>k. k \<notin> fst ` set ps \<Longrightarrow> lookup r (dir @ [k]) = lookup ?r (dir @ [k])"
    by auto
  have "lookup r (dir @ [k]) = Some (File (Text v))"
    using r(4) [of k] "2.prems" by simp
  then show ?case
    using wr r(1,3) below_trans [OF b r(2)] r(4) other
    by (intro exI [of _ r]) (auto simp: image_iff)
qed

section \<open>Work confined to the pending directory\<close>

text \<open>
  While the image is built and the container runs, nothing outside the pending directory
  changes, and inside it the data directory, the log and the build information stay.
\<close>

definition confined :: "'d env \<Rightarrow> path \<Rightarrow> 'd world \<Rightarrow> 'd world \<Rightarrow> bool" where
  "confined env p w w' \<longleftrightarrow> (quiet w \<longrightarrow> furnished env p (root w) \<longrightarrow>
     quiet w' \<and> furnished env p (root w') \<and> below p (root w) (root w'))"

lemma furnished_dir: "furnished env p r \<Longrightarrow> is_dir r p"
  by (auto simp: furnished_def intro: is_dir_prefix)

lemma building_dir: "building p r \<Longrightarrow> is_dir r p"
  by (auto simp: building_def intro: is_dir_prefix)

lemma confined_same: "root w' = root w \<Longrightarrow> faults w' = faults w \<Longrightarrow> confined env p w w'"
  by (simp add: confined_def below_refl furnished_dir)

lemma confined_refl [simp]: "confined env p w w"
  by (simp add: confined_same)

lemma confined_trans: "confined env p w w' \<Longrightarrow> confined env p w' w'' \<Longrightarrow> confined env p w w''"
  by (auto simp: confined_def intro: below_trans)

lemma confined_quiet: "(quiet w \<Longrightarrow> w' = w) \<Longrightarrow> confined env p w w'"
  by (auto simp: confined_def below_refl furnished_dir)

lemma dir_or_new_put_other:
  "\<not> prefix p q \<Longrightarrow> \<not> prefix q p \<Longrightarrow> dir_or_new (put p x r) q = dir_or_new r q"
  by (simp add: dir_or_new_def is_dir_def lookup_put_other)

lemma furnished_put_log:
  assumes "furnished env p r"
  shows "furnished env p (put (p @ [''out.log'']) (File c) r)"
  using assms furnished_dir [OF assms] is_dir_put [of r "p @ [''data'']" "p @ [''out.log'']" "File c"]
  by (auto simp: furnished_def lookup_put_other dir_or_new_put_other)

lemma append_log_confined: "confined env p w (append_file (p @ [''out.log'']) s w)"
proof -
  have "confined env p w (w\<lparr>root := put (p @ [''out.log'']) (File c) (root w)\<rparr>)" for c
    by (simp add: confined_def furnished_put_log below_put furnished_dir)
  moreover have "fs_stat max_links True (p @ [''out.log'']) (root w) = Inr (p @ [''out.log''], File c)"
    if "lookup (root w) (p @ [''out.log'']) = Some (File c)" for c
    using that by (simp add: fs_stat_found)
  ultimately show ?thesis
    by (auto simp: confined_def append_file_def furnished_def)
qed

lemma write_out_confined: "confined env p w (write_out (ToFile (p @ [''out.log''])) s w)"
  by (simp add: append_log_confined)

lemma docker_confined: "docker f w = (x, w') \<Longrightarrow> confined env p w w'"
  by (rule confined_same) (simp_all add: world_simps)

lemma furnished_put_data:
  assumes "furnished env p r" and "IsDir nd"
    and "keeps_dirs env \<longrightarrow> dir_or_new nd [''cache''] \<and> dir_or_new nd [''artifacts'']"
  shows "furnished env p (put (p @ [''data'']) nd r)"
proof -
  have "put_ok r (p @ [''data''])" using furnished_dir [OF assms(1)] by simp
  note low = is_dir_below [OF this, of nd "[]"] dir_or_new_below [OF this, of nd "[''cache'']"]
    dir_or_new_below [OF this, of nd "[''artifacts'']"]
  show ?thesis
    using assms low by (auto simp: furnished_def lookup_put_other is_dir_def)
qed

lemma run_mounts_confined:
  assumes "keeps_mounts env"
  shows "confined env p w (run_mounts env cid [\<lparr>mSource = p @ [''data''], mTarget = t\<rparr>] w)"
  unfolding confined_def
proof (intro impI)
  assume q: "quiet w" and b: "furnished env p (root w)"
  obtain nd where nd: "lookup (root w) (p @ [''data'']) = Some nd" "IsDir nd"
    using b by (auto simp: furnished_def is_dir_def split: option.splits)
  have low: "lookup (root w) (p @ ''data'' # q) = lookup nd q" for q
    using lookup_append [of "root w" "p @ [''data'']" q] nd(1) by simp
  let ?nd = "dk_effect env (dockerd w) cid t nd"
  have "keeps_dirs env \<longrightarrow> dir_or_new ?nd [''cache''] \<and> dir_or_new ?nd [''artifacts'']"
    using b nd(2) by (simp add: furnished_def keeps_dirs_def dir_or_new_def is_dir_def low)
  moreover have "IsDir ?nd" using assms nd(2) by (simp add: keeps_mounts_def)
  ultimately have "furnished env p (put (p @ [''data'']) ?nd (root w))"
    using b by (intro furnished_put_data)
  moreover have "below p (root w) (put (p @ [''data'']) ?nd (root w))"
    using furnished_dir [OF b] by (intro below_put) simp_all
  moreover have "fs_stat max_links True (p @ [''data'']) (root w) = Inr (p @ [''data''], nd)"
    using nd by (auto simp: fs_stat_found IsDir_iff)
  ultimately show "quiet (run_mounts env cid [\<lparr>mSource = p @ [''data''], mTarget = t\<rparr>] w) \<and>
      furnished env p (root (run_mounts env cid [\<lparr>mSource = p @ [''data''], mTarget = t\<rparr>] w)) \<and>
      below p (root w) (root (run_mounts env cid [\<lparr>mSource = p @ [''data''], mTarget = t\<rparr>] w))"
    using q by simp
qed

lemma BuildImage_confined:
  assumes "BuildImage env j uid (ToFile (p @ [''out.log''])) pull noc w = (err, w')"
  shows "confined env p w w'"
  using assms
  by (auto simp: BuildImage_def Let_def split: prod.splits sum.splits option.splits
      dest!: docker_confined [where env = env and p = p]
      intro: confined_trans append_log_confined confined_trans [OF confined_trans [OF _ append_log_confined]])

lemma rename_all_confined: "rename_all env name cs w = (err, w') \<Longrightarrow> confined env p w w'"
proof (induction cs arbitrary: w)
  case (Cons c cs)
  obtain sfx w1 where h: "randomHexString w = (sfx, w1)" by force
  have "confined env p w w1"
    using h by (auto simp: randomHexString_def rand_Read_def intro: confined_same)
  with Cons h show ?case
    by (auto simp: Let_def split: prod.splits option.splits dest!: docker_confined [where env = env and p = p]
        intro: confined_trans)
qed simp

lemma renameIfExists_confined: "renameIfExists env name w = (err, w') \<Longrightarrow> confined env p w w'"
  by (auto simp: renameIfExists_def split: prod.splits sum.splits
      dest!: docker_confined [where env = env and p = p] rename_all_confined [where env = env and p = p] intro: confined_trans)

lemma await_container_confined:
  assumes "keeps_mounts env" and "mnts = [\<lparr>mSource = p @ [''data''], mTarget = t\<rparr>]"
    and "await_container env mnts cid (ToFile (p @ [''out.log''])) w = (res, w')"
  shows "confined env p w w'"
proof (cases "docker (dk_ContainerLogs env cid) w")
  case (Pair lg w1)
  have c1: "confined env p w w1" by (rule docker_confined [OF Pair])
  show ?thesis
  proof (cases lg)
    case (Inl e)
    with assms(3) Pair c1 show ?thesis by (auto simp: await_container_def)
  next
    case (Inr fe)
    let ?w2 = "run_mounts env cid mnts w1"
    let ?w3 = "append_file (p @ [''out.log'']) (concat (map frame_text (fst fe))) ?w2"
    have "confined env p w1 ?w2"
      unfolding assms(2) by (rule run_mounts_confined [OF assms(1)])
    then have "confined env p w ?w3"
      using c1 append_log_confined by (blast intro: confined_trans)
    then show ?thesis
      using assms(3) Pair Inr
      by (auto simp: await_container_def Let_def split: prod.splits sum.splits option.splits
          dest!: docker_confined [where env = env and p = p] intro: confined_trans)
  qed
qed

lemma StartContainer_confined:
  assumes "keeps_mounts env" and "cMounts cfg = []" and "jPendingBuildPath j = p"
    and "StartContainer env cfg j (ToFile (p @ [''out.log''])) w = (res, w')"
  shows "confined env p w w'"
proof -
  have m: "container_mounts cfg j = [\<lparr>mSource = p @ [''data''], mTarget = DataDir\<rparr>]"
    using assms(2,3) by (simp add: container_mounts_def)
  obtain x w1 where r: "renameIfExists env (jContainer j) w = (x, w1)" by force
  obtain y w2 where c: "docker (dk_ContainerCreate env (cUID cfg) (jImage j)
      (container_mounts cfg j) (jContainer j)) w1 = (y, w2)" by force
  have "confined env p w w2"
    using renameIfExists_confined [OF r] docker_confined [OF c] by (rule confined_trans)
  then show ?thesis
    using assms(4) r c await_container_confined [OF assms(1) m]
    by (auto simp: StartContainer_def Let_def split: prod.splits sum.splits option.splits
        dest!: docker_confined [where env = env and p = p]) (blast intro: confined_trans)+
qed

lemma read_confined:
  "os_Sync q w = (a, w') \<Longrightarrow> confined env p w w'" "ReadJobLogs q w = (b, w') \<Longrightarrow> confined env p w w'"
  "os_Close q w = (a, w') \<Longrightarrow> confined env p w w'" "time_Now w = (t, w') \<Longrightarrow> confined env p w w'"
proof -
  show "os_Sync q w = (a, w') \<Longrightarrow> confined env p w w'" "os_Close q w = (a, w') \<Longrightarrow> confined env p w w'"
    by (auto intro!: confined_quiet simp: os_simps)
  show "ReadJobLogs q w = (b, w') \<Longrightarrow> confined env p w w'"
    by (auto intro!: confined_quiet simp: ReadJobLogs_def os_ReadFile_def os_simps
        split: prod.splits sum.splits)
  show "time_Now w = (t, w') \<Longrightarrow> confined env p w w'"
    by (rule confined_same) (auto simp: time_Now_def split: list.splits)
qed

lemma build_and_run_confined:
  assumes "keeps_mounts env" and "cMounts (sCfg s) = []" and "jPendingBuildPath j = p"
    and "jBuildLogPath j = p @ [''out.log'']"
    and "build_and_run env s j start w = (err, s', j', w')"
  shows "confined env p w w'"
proof -
  obtain e1 w1 where b: "BuildImage env j (cUID (sCfg s)) (ToFile (p @ [''out.log''])) (jRebuild j) (jRebuild j) w = (e1, w1)"
    by force
  obtain outErr code e2 w2 where c: "StartContainer env (sCfg s) j (ToFile (p @ [''out.log''])) w1 = ((outErr, code, e2), w2)"
    by (metis prod_cases4 surj_pair)
  obtain e3 w3 where y: "os_Sync (p @ [''out.log'']) w2 = (e3, w3)" by force
  obtain lg w4 where l: "ReadJobLogs p w3 = (lg, w4)" by force
  obtain now w5 where t: "time_Now w4 = (now, w5)" by force
  note c1 = BuildImage_confined [OF b]
  note c2 = confined_trans [OF c1 StartContainer_confined [OF assms(1,2,3) c]]
  note c3 = confined_trans [OF c2 read_confined(1) [OF y]]
  note c4 = confined_trans [OF c3 read_confined(2) [OF l]]
  note c5 = confined_trans [OF c4 read_confined(4) [OF t]]
  show ?thesis
    using assms(3,4,5) b c y l t c1 c2 c3 c4 c5
    by (auto simp: build_and_run_def Let_def split: option.splits sum.splits)
qed

lemma with_client_confined:
  assumes "keeps_mounts env" and "cMounts (sCfg s) = []" and "jPendingBuildPath j = p"
    and "jBuildLogPath j = p @ [''out.log'']"
    and "with_client env s j start w = (err, s', j', w')"
  shows "confined env p w w'"
proof -
  obtain e1 w1 where n: "docker (dk_NewEnvClient env) w = (e1, w1)" by force
  obtain e2 s2 j2 w2 where b: "build_and_run env s j start w1 = (e2, s2, j2, w2)"
    by (metis prod_cases4)
  obtain e3 w3 where k: "docker (dk_Close env) w2 = (e3, w3)" by force
  note c1 = docker_confined [OF n, of env p]
  note c2 = confined_trans [OF c1 build_and_run_confined [OF assms(1-4) b]]
  note c3 = confined_trans [OF c2 docker_confined [OF k]]
  show ?thesis
    using assms(5) n b k c1 c3 by (auto simp: with_client_def split: option.splits)
qed

section \<open>A cooperative Docker daemon\<close>

text \<open>
  The Docker daemon builds the image and then either refuses to create the container
  (\<open>failed\<close>), or answers every further call and the container exits with the given code.
\<close>

definition docker_ends :: "'d env \<Rightarrow> bool \<Rightarrow> int \<Rightarrow> bool" where
  "docker_ends env failed code \<longleftrightarrow>
     (\<forall>d. fst (dk_NewEnvClient env d) = None) \<and> (\<forall>d. fst (dk_Close env d) = None) \<and>
     (\<forall>opts ctx d. \<exists>b. fst (dk_ImageBuild env opts ctx d) = Inr b) \<and>
     (\<forall>b. snd (dk_DisplayJSONMessagesStream env b) = None) \<and>
     (\<forall>i d. fst (dk_ImageInspectWithRaw env i d) = None) \<and>
     (if failed then code = 0 \<and> (\<forall>u i m n d. \<exists>e. fst (dk_ContainerCreate env u i m n d) = Inl e)
      else (\<forall>u i m n d. \<exists>c. fst (dk_ContainerCreate env u i m n d) = Inr c) \<and>
        (\<forall>c d. fst (dk_ContainerStart env c d) = None) \<and>
        (\<forall>c d. \<exists>fs. fst (dk_ContainerLogs env c d) = Inr (fs, None)) \<and>
        (\<forall>c d. \<exists>doc. fst (dk_ContainerInspectWithRaw env c d) = Inr doc \<and>
           unmarshal_struct set_result_field doc 0 = Inr code))"

lemma docker_fst: "docker f w = (x, w') \<Longrightarrow> x = fst (f (dockerd w))"
  by (auto simp: docker_def split: prod.splits)

lemma BuildImage_runs: "docker_ends env failed code \<Longrightarrow> BuildImage env j uid out pull noc w = (err, w') \<Longrightarrow> err = None"
  by (auto simp: BuildImage_def docker_ends_def Let_def split: prod.splits sum.splits option.splits
      dest!: docker_fst) (metis Inl_Inr_False snd_conv option.distinct(1))+

lemma await_container_runs:
  assumes "docker_ends env False code" and "await_container env mnts cid out w = ((outErr, res), w')"
  shows "res = Inr code"
proof -
  obtain lg w1 where l: "docker (dk_ContainerLogs env cid) w = (lg, w1)" by force
  obtain fs where "lg = Inr (fs, None)"
    using docker_fst [OF l] assms(1) by (auto simp: docker_ends_def) metis?
  moreover obtain w2 where "w2 = write_out out (concat (map frame_text fs)) (run_mounts env cid mnts w1)" by simp
  moreover obtain ins w3 where i: "docker (dk_ContainerInspectWithRaw env cid) w2 = (ins, w3)" by force
  moreover obtain doc where "ins = Inr doc" "unmarshal_struct set_result_field doc 0 = Inr code"
    using docker_fst [OF i] assms(1) by (auto simp: docker_ends_def) metis?
  ultimately show ?thesis
    using assms(2) l by (auto simp: await_container_def Let_def)
qed

lemma StartContainer_ends:
  assumes "docker_ends env failed code" and "StartContainer env cfg j out w = ((outErr, c, err), w')"
  shows "(err \<noteq> None \<longleftrightarrow> failed) \<and> c = code"
proof -
  let ?m = "container_mounts cfg j"
  obtain x w1 where r: "renameIfExists env (jContainer j) w = (x, w1)" by force
  obtain y w2 where c: "docker (dk_ContainerCreate env (cUID cfg) (jImage j) ?m (jContainer j)) w1 = (y, w2)" by force
  show ?thesis
  proof (cases failed)
    case True
    then obtain e where "y = Inl e" "code = 0"
      using docker_fst [OF c] assms(1) unfolding docker_ends_def by metis
    with assms(2) r c True show ?thesis by (auto simp: StartContainer_def)
  next
    case False
    then have ends: "docker_ends env False code" using assms(1) by simp
    then obtain cid where y: "y = Inr cid" using docker_fst [OF c] by (metis docker_ends_def)
    obtain z w3 where s: "docker (dk_ContainerStart env cid) w2 = (z, w3)" by force
    have z: "z = None" using docker_fst [OF s] ends by (simp add: docker_ends_def)
    obtain oe res w4 where a: "await_container env ?m cid out w3 = ((oe, res), w4)" by (metis surj_pair)
    show ?thesis
      using assms(2) False r c y s z a await_container_runs [OF ends a]
      by (auto simp: StartContainer_def Let_def split: prod.splits)
  qed
qed

lemma build_and_run_ends:
  assumes "docker_ends env failed code" and "keeps_mounts env" and "cMounts (sCfg s) = []"
    and "jPendingBuildPath j = p" and "jBuildLogPath j = p @ [''out.log'']"
    and "quiet w" and "furnished env p (root w)"
    and "build_and_run env s j start w = (err, s', j', w')"
  shows "(err \<noteq> None \<longleftrightarrow> failed) \<and> bExitCode (jBuildInfo j') = code"
proof -
  obtain e1 w1 where b: "BuildImage env j (cUID (sCfg s)) (ToFile (p @ [''out.log''])) (jRebuild j) (jRebuild j) w = (e1, w1)"
    by force
  obtain outErr c e2 w2 where st: "StartContainer env (sCfg s) j (ToFile (p @ [''out.log''])) w1 = ((outErr, c, e2), w2)"
    by (metis prod_cases4 surj_pair)
  have "confined env p w w2"
    using BuildImage_confined [OF b] StartContainer_confined [OF assms(2,3,4) st] by (rule confined_trans)
  then have w2: "quiet w2" "furnished env p (root w2)" using assms(6,7) by (simp_all add: confined_def)
  then obtain k where "ReadJobLogs p w2 = (Inr k, w2)"
    by (auto simp: furnished_def ReadJobLogs_def BuildLogPath_def os_simps)
  moreover have "os_Sync (p @ [''out.log'']) w2 = (None, w2)" using w2(1) by (simp add: os_simps)
  ultimately show ?thesis
    using assms(4,5,8) b st BuildImage_runs [OF assms(1) b] StartContainer_ends [OF assms(1) st]
    by (auto simp: build_and_run_def Let_def split: prod.splits)
qed

lemma with_client_ends:
  assumes "docker_ends env failed code" and "keeps_mounts env" and "cMounts (sCfg s) = []"
    and "jPendingBuildPath j = p" and "jBuildLogPath j = p @ [''out.log'']"
    and "quiet w" and "furnished env p (root w)"
    and "with_client env s j start w = (err, s', j', w')"
  shows "(err \<noteq> None \<longleftrightarrow> failed) \<and> bExitCode (jBuildInfo j') = code"
proof -
  obtain e1 w1 where n: "docker (dk_NewEnvClient env) w = (e1, w1)" by force
  obtain e2 s2 j2 w2 where b: "build_and_run env s j start w1 = (e2, s2, j2, w2)" by (metis prod_cases4)
  obtain e3 w3 where k: "docker (dk_Close env) w2 = (e3, w3)" by force
  have "e1 = None" "e3 = None"
    using docker_fst [OF n] docker_fst [OF k] assms(1) by (simp_all add: docker_ends_def)
  moreover have "(e2 \<noteq> None \<longleftrightarrow> failed) \<and> bExitCode (jBuildInfo j2) = code"
    by (rule build_and_run_ends [OF assms(1-5) _ _ b])
      (use assms(6,7) docker_frame [OF n] in simp_all)
  ultimately show ?thesis
    using assms(8) n b k by (auto simp: with_client_def close_err_def)
qed

section \<open>The build\<close>

text \<open>The build information has been persisted before the build starts.\<close>

definition persisted :: "path \<Rightarrow> node \<Rightarrow> bool" where
  "persisted p r \<longleftrightarrow> staged p r \<and> (\<exists>c. lookup r (p @ [''build_info.json'']) = Some (File c))"

lemma staged_put_info:
  assumes "staged p r"
  shows "persisted p (put (p @ [''build_info.json'']) (File c) r)"
proof -
  have d: "is_dir r p" using assms by (auto simp: staged_def intro: is_dir_prefix)
  have "is_dir (put (p @ [''build_info.json'']) (File c) r) q" if "is_dir r q" "\<not> prefix (p @ [''build_info.json'']) q" for q
    using that by (rule is_dir_put)
  then show ?thesis
    using assms d by (auto simp: persisted_def staged_def file_or_new_def lookup_put_other)
qed

text \<open>Writing a file that is new or there.\<close>

lemma os_WriteFile_file_or_new:
  assumes "quiet w" and "is_dir (root w) p" and "file_or_new (root w) (p @ [f])"
  shows "os_WriteFile (p @ [f]) c w = (None, w\<lparr>root := put (p @ [f]) (File c) (root w)\<rparr>)"
  using assms by (auto simp: file_or_new_def os_simps split: option.splits node.splits)

lemma os_Create_file_or_new:
  assumes "quiet w" and "is_dir (root w) p" and "file_or_new (root w) (p @ [f])"
  shows "os_Create (p @ [f]) w = (None, w\<lparr>root := put (p @ [f]) (File (Text [])) (root w)\<rparr>)"
  using os_WriteFile_file_or_new [OF assms, of "Text []"] by (simp add: os_Create_def os_WriteFile_def)

lemma with_log_ok:
  assumes "keeps_mounts env" and "cMounts (sCfg s) = []" and "jPendingBuildPath j = p"
    and "jBuildLogPath j = p @ [''out.log'']" and "quiet w" and "is_dir (root w) p"
    and "is_dir (root w) (p @ [''data''])" and "file_or_new (root w) (p @ [''out.log''])"
    and "lookup (root w) (p @ [''build_info.json'']) = Some (File c)"
    and "dir_or_new (root w) (p @ [''data'', ''cache''])" and "dir_or_new (root w) (p @ [''data'', ''artifacts''])"
    and "with_log env s j start w = (err, s', j', w')"
  shows "quiet w' \<and> furnished env p (root w') \<and> below p (root w) (root w') \<and>
    (docker_ends env failed code \<longrightarrow> (err \<noteq> None \<longleftrightarrow> failed) \<and> bExitCode (jBuildInfo j') = code)"
proof -
  let ?w = "w\<lparr>root := put (p @ [''out.log'']) (File (Text [])) (root w)\<rparr>"
  have cr: "os_Create (p @ [''out.log'']) w = (None, ?w)"
    using assms by (intro os_Create_file_or_new)
  obtain e1 s1 j1 w1 where b: "with_client env s j start ?w = (e1, s1, j1, w1)"
    by (metis prod_cases4)
  obtain e2 w2 where k: "os_Close (jBuildLogPath j1) w1 = (e2, w2)" by force
  have bp: "furnished env p (root ?w)"
    using assms(6,7,9,10,11) is_dir_put [of "root w" "p @ [''data'']" "p @ [''out.log'']" "File (Text [])"]
    by (auto simp: furnished_def lookup_put_other dir_or_new_put_other)
  have "confined env p ?w w1" by (rule with_client_confined [OF assms(1-4) b])
  with bp assms(5) have "quiet w1" by (simp add: confined_def)
  then have "e2 = None" using k by (simp add: os_simps)
  have r: "w' = w2" "err = e1" "j' = j1"
    using assms(4,12) cr b k \<open>e2 = None\<close> by (auto simp: with_log_def close_err_def)
  have "docker_ends env failed code \<longrightarrow> (err \<noteq> None \<longleftrightarrow> failed) \<and> bExitCode (jBuildInfo j') = code"
    using with_client_ends [OF _ assms(1-4) _ bp b] assms(5) r by auto
  moreover have "confined env p ?w w2"
    using \<open>confined env p ?w w1\<close> read_confined(3) [OF k] by (rule confined_trans)
  moreover have "below p (root w) (root ?w)"
    using assms(6) by (simp add: below_put)
  ultimately show ?thesis
    using assms(5) bp r(1) by (auto simp: confined_def intro: below_trans)
qed

lemma below_mono:
  assumes "below (p @ q) r r'"
  shows "below p r r'"
proof -
  have "lookup r' q' = lookup r q'" if "\<not> prefix p q'" "\<not> prefix q' p" for q'
  proof -
    have "\<not> prefix (p @ q) q'" using that(1) by (meson append_prefixD)
    moreover have "\<not> prefix q' (p @ q)" using that by (auto simp: prefix_append)
    ultimately show ?thesis using assms by (simp add: below_def)
  qed
  moreover have "is_dir r' p"
    using assms by (auto simp: below_def intro: is_dir_prefix)
  ultimately show ?thesis by (simp add: below_def)
qed

lemma persisted_dir: "persisted p r \<Longrightarrow> is_dir r p"
  by (auto simp: persisted_def staged_def intro: is_dir_prefix)

lemma build_body_ok:
  assumes "keeps_mounts env" and "cMounts (sCfg s) = []" and "jPendingBuildPath j = p"
    and "jBuildLogPath j = p @ [''out.log'']" and "quiet w" and "persisted p (root w)"
    and "plain_params j" and "distinct (map fst (jParams j))"
    and "build_body env s j start w = (err, s', j', w')"
  shows "quiet w' \<and> furnished env p (root w') \<and> below p (root w) (root w') \<and>
    (docker_ends env failed code \<longrightarrow> (err \<noteq> None \<longleftrightarrow> failed) \<and> bExitCode (jBuildInfo j') = code)"
proof -
  let ?d = "p @ [''data'', ''params'']"
  have "\<exists>r. write_params ?d (jParams j) w = (None, w\<lparr>root := r\<rparr>) \<and> below ?d (root w) r \<and>
           (\<forall>k v. (k, v) \<in> set (jParams j) \<longrightarrow> lookup r (?d @ [k]) = Some (File (Text v))) \<and>
           (\<forall>k. k \<notin> fst ` set (jParams j) \<longrightarrow> lookup r (?d @ [k]) = lookup (root w) (?d @ [k]))"
    by (rule write_params_ok)
      (use assms(5-8) in \<open>auto simp: persisted_def staged_def plain_params_def\<close>)
  then obtain r where r: "write_params ?d (jParams j) w = (None, w\<lparr>root := r\<rparr>)" "below ?d (root w) r"
    by blast
  have same: "lookup r q = lookup (root w) q" if "\<not> prefix ?d q" "\<not> prefix q ?d" for q
    using r(2) that by (simp add: below_def)
  have dirs: "is_dir r p" "is_dir r (p @ [''data''])"
    using r(2) by (auto simp: below_def intro: is_dir_prefix)
  have "file_or_new r (p @ [''out.log''])"
    using assms(6) by (simp add: persisted_def staged_def file_or_new_def same)
  moreover obtain c where "lookup r (p @ [''build_info.json'']) = Some (File c)"
    using assms(6) by (auto simp: persisted_def same)
  moreover have "dir_or_new r (p @ [''data'', ''cache''])" "dir_or_new r (p @ [''data'', ''artifacts''])"
    using assms(6) by (simp_all add: persisted_def staged_def dir_or_new_def is_dir_def same)
  moreover have "with_log env s j start (w\<lparr>root := r\<rparr>) = (err, s', j', w')"
    using assms(3,9) r(1) by (simp add: build_body_def)
  ultimately have "quiet w' \<and> furnished env p (root w') \<and> below p r (root w') \<and>
      (docker_ends env failed code \<longrightarrow> (err \<noteq> None \<longleftrightarrow> failed) \<and> bExitCode (jBuildInfo j') = code)"
    using with_log_ok [OF assms(1-4), of "w\<lparr>root := r\<rparr>"] dirs assms(5) by simp
  moreover have "below p (root w) r"
    by (rule below_mono [OF r(2)])
  ultimately show ?thesis by (auto intro: below_trans)
qed

text \<open>What is persisted of the build information.\<close>

definition without_logs :: "BuildInfo \<Rightarrow> BuildInfo" where
  "without_logs bi = bi\<lparr>bContainerStdouterr := [], bContainerStderr := []\<rparr>"

definition note_error :: "goerr option \<Rightarrow> BuildInfo \<Rightarrow> BuildInfo" where
  "note_error err bi = (case err of None \<Rightarrow> bi | Some e \<Rightarrow> bi\<lparr>bErrBuild := Error e\<rparr>)"

lemma persistBuildInfo_ok:
  assumes "quiet w" and "is_dir (root w) p" and "file_or_new (root w) (p @ [''build_info.json''])"
    and "jBuildInfoFilePath j = p @ [''build_info.json'']"
  shows "persistBuildInfo j w = (None, w\<lparr>root :=
           put (p @ [''build_info.json'']) (File (Doc (marshal_BuildInfo (without_logs (jBuildInfo j))))) (root w)\<rparr>)"
  using os_WriteFile_file_or_new [OF assms(1-3)] assms(4)
  by (simp add: persistBuildInfo_def without_logs_def)

lemma finish_info_ok:
  assumes "quiet w" and "building p (root w)" and "jBuildInfoFilePath j = p @ [''build_info.json'']"
  shows "finish_info err j w = (err, set_info (note_error err) j, w\<lparr>root :=
           put (p @ [''build_info.json''])
             (File (Doc (marshal_BuildInfo (without_logs (note_error err (jBuildInfo j)))))) (root w)\<rparr>)"
proof -
  have "(case err of None \<Rightarrow> j | Some e \<Rightarrow> set_info (\<lambda>bi. bi\<lparr>bErrBuild := Error e\<rparr>) j) = set_info (note_error err) j"
    by (cases err) (simp_all add: set_info_def note_error_def)
  moreover have "file_or_new (root w) (p @ [''build_info.json''])"
    using assms(2) by (auto simp: building_def file_or_new_def)
  ultimately show ?thesis
    using persistBuildInfo_ok [OF assms(1) building_dir [OF assms(2)], of "set_info (note_error err) j"] assms(3)
    by (simp add: finish_info_def)
qed

lemma furnished_put_info:
  assumes "furnished env p r"
  shows "furnished env p (put (p @ [''build_info.json'']) (File c) r)"
  using assms furnished_dir [OF assms] is_dir_put [of r "p @ [''data'']" "p @ [''build_info.json'']" "File c"]
  by (auto simp: furnished_def lookup_put_other dir_or_new_put_other)

lemma building_put_info:
  assumes "building p r"
  shows "building p (put (p @ [''build_info.json'']) (File c) r)"
  using assms building_dir [OF assms] is_dir_put [of r "p @ [''data'']" "p @ [''build_info.json'']" "File c"]
  by (auto simp: building_def lookup_put_other)

lemma remove_latest_ok:
  assumes "quiet w" and "is_dir (root w) d" and "jLatestBuildPath j = d @ [c]"
    and "case lookup (root w) (d @ [c]) of None \<Rightarrow> True | Some nd \<Rightarrow> is_link nd"
  shows "\<exists>r. remove_latest j w = (None, w\<lparr>root := r\<rparr>) \<and> lookup r (d @ [c]) = None \<and>
           (lookup (root w) (d @ [c]) = None \<longrightarrow> r = root w) \<and> (\<forall>q. is_dir (root w) q \<longrightarrow> is_dir r q) \<and>
           (\<forall>q. \<not> prefix (d @ [c]) q \<longrightarrow> \<not> prefix q (d @ [c]) \<longrightarrow> lookup r q = lookup (root w) q)"
proof (cases "lookup (root w) (d @ [c])")
  case None
  then show ?thesis
    using assms(1-3) by (intro exI [of _ "root w"]) (simp add: remove_latest_def os_simps)
next
  case (Some nd)
  then obtain t where t: "nd = Symlink t" using assms(4) by (cases nd) auto
  have "is_dir (del (d @ [c]) (root w)) q" if "is_dir (root w) q" for q
  proof (rule is_dir_del [OF that])
    show "\<not> prefix (d @ [c]) q" using is_dir_prefix [OF that, of "d @ [c]"] Some t by (auto simp: is_dir_def)
  qed
  with Some t show ?thesis
    using assms(1-3)
    by (intro exI [of _ "del (d @ [c]) (root w)"]) (simp add: remove_latest_def os_simps lookup_del_other)
qed

lemma create_latest_ok:
  assumes "quiet w" and "is_dir (root w) d" and "jLatestBuildPath j = d @ [c]" and "lookup (root w) (d @ [c]) = None"
  shows "\<exists>r. create_latest j w = (None, w\<lparr>root := r\<rparr>) \<and> lookup r (d @ [c]) = Some (Symlink (jReadyBuildPath j)) \<and>
           (\<forall>q. is_dir (root w) q \<longrightarrow> is_dir r q) \<and>
           (\<forall>q. \<not> prefix (d @ [c]) q \<longrightarrow> \<not> prefix q (d @ [c]) \<longrightarrow> lookup r q = lookup (root w) q)"
proof -
  have "put_ok (root w) (d @ [c])" using assms(2) by simp
  then show ?thesis
    using assms is_dir_put_Dir [of "root w" _ "d @ [c]" "Symlink (jReadyBuildPath j)"]
    by (intro exI [of _ "put (d @ [c]) (Symlink (jReadyBuildPath j)) (root w)"])
      (simp add: create_latest_def os_simps lookup_put_other)
qed

lemma link_latest_ok:
  assumes "quiet w" and "is_dir (root w) d" and "jLatestBuildPath j = d @ [c]"
    and "case lookup (root w) (d @ [c]) of None \<Rightarrow> True | Some nd \<Rightarrow> is_link nd"
  shows "\<exists>r. link_latest j w = (None, w\<lparr>root := r\<rparr>) \<and>
           lookup r (d @ [c]) = Some (Symlink (jReadyBuildPath j)) \<and>
           (\<forall>q. \<not> prefix (d @ [c]) q \<longrightarrow> \<not> prefix q (d @ [c]) \<longrightarrow> lookup r q = lookup (root w) q)"
proof -
  obtain r where r: "remove_latest j w = (None, w\<lparr>root := r\<rparr>)" "lookup r (d @ [c]) = None" "\<forall>q. is_dir (root w) q \<longrightarrow> is_dir r q"
      "\<forall>q. \<not> prefix (d @ [c]) q \<longrightarrow> \<not> prefix q (d @ [c]) \<longrightarrow> lookup r q = lookup (root w) q"
    using remove_latest_ok [OF assms] by blast
  obtain r' where "create_latest j (w\<lparr>root := r\<rparr>) = (None, w\<lparr>root := r'\<rparr>)" "lookup r' (d @ [c]) = Some (Symlink (jReadyBuildPath j))"
      "\<forall>q. \<not> prefix (d @ [c]) q \<longrightarrow> \<not> prefix q (d @ [c]) \<longrightarrow> lookup r' q = lookup r q"
    using create_latest_ok [of "w\<lparr>root := r\<rparr>" d j c] assms(1-3) r(2,3) by auto
  with r show ?thesis by (auto simp: link_latest_def)
qed

section \<open>From pending to ready\<close>

text \<open>The directory in which the latest link lives.\<close>

definition link_dir :: "Job \<Rightarrow> path" where
  "link_dir j = (if jGroup j = [] then jRootBuildPath j else jRootBuildPath j @ [''groups''])"

text \<open>
  The tree after a build: the pending path is gone, the ready path holds what was pending, the
  latest link points there if the build was linked, and nothing else changed.
\<close>

definition published :: "Job \<Rightarrow> bool \<Rightarrow> node \<Rightarrow> node \<Rightarrow> node \<Rightarrow> bool" where
  "published j linked nd r r' \<longleftrightarrow>
     is_dir r' (jRootBuildPath j @ [''pending'']) \<and> (is_dir r (link_dir j) \<longrightarrow> is_dir r' (link_dir j)) \<and>
     lookup r' (jPendingBuildPath j) = None \<and> lookup r' (jReadyBuildPath j) = Some nd \<and>
     lookup r' (jLatestBuildPath j) =
       (if linked then Some (Symlink (jReadyBuildPath j)) else lookup r (jLatestBuildPath j)) \<and>
     (\<forall>q. (\<forall>d \<in> {jPendingBuildPath j, jReadyBuildPath j, jLatestBuildPath j}. \<not> prefix d q \<and> \<not> prefix q d) \<longrightarrow>
        lookup r' q = lookup r q)"

text \<open>The three paths of a job lie side by side.\<close>

lemma wf_job_apart:
  assumes "wf_job j" and "p \<noteq> q"
    and "p \<in> {jPendingBuildPath j, jReadyBuildPath j, jLatestBuildPath j}"
    and "q \<in> {jPendingBuildPath j, jReadyBuildPath j, jLatestBuildPath j}"
  shows "\<not> prefix p q"
  using assms by (auto simp: wf_job_def split: if_splits)

lemma wf_job_parent:
  assumes "wf_job j"
  obtains c where "jLatestBuildPath j = link_dir j @ [c]"
  using assms by (cases "jGroup j = []") (auto simp: wf_job_def link_dir_def)

lemma rename_ready:
  assumes "quiet w" and "wf_job j" and "lookup (root w) (jPendingBuildPath j) = Some nd"
    and "lookup (root w) (jReadyBuildPath j) = None" and "is_dir (root w) (jRootBuildPath j @ [''ready''])"
  shows "\<exists>r. os_Rename (jPendingBuildPath j) (jReadyBuildPath j) w = (None, w\<lparr>root := r\<rparr>) \<and>
           published j False nd (root w) r \<and> (\<forall>q. is_dir (root w) q \<longrightarrow> \<not> prefix (jPendingBuildPath j) q \<longrightarrow> is_dir r q)"
proof -
  let ?p = "jPendingBuildPath j" and ?y = "jReadyBuildPath j"
  let ?r = "put ?y nd (del ?p (root w))"
  have py: "\<not> prefix ?p ?y" "\<not> prefix ?y ?p"
    by (rule wf_job_apart [OF assms(2)]; use assms(2) in \<open>simp add: wf_job_def\<close>)+
  have y: "?y = (jRootBuildPath j @ [''ready'']) @ [jID j]" using assms(2) by (simp add: wf_job_def)
  have mv: "os_Rename ?p ?y w = (None, w\<lparr>root := ?r\<rparr>)"
    using os_Rename_new [OF assms(1,3,5), of "jID j"] assms(4) py(1) unfolding y by simp
  have "is_dir (del ?p (root w)) (jRootBuildPath j @ [''ready''])"
    by (rule is_dir_del [OF assms(5)]) (use assms(2) in \<open>auto simp: wf_job_def dest: prefix_length_le\<close>)
  then have ok: "put_ok (del ?p (root w)) ?y" unfolding y by (subst put_ok_snoc)
  have ne: "?p \<noteq> []" using assms(2) by (simp add: wf_job_def)
  have other: "lookup ?r q = lookup (root w) q"
    if "\<not> prefix ?p q" "\<not> prefix q ?p" "\<not> prefix ?y q" "\<not> prefix q ?y" for q
    using that by (simp add: lookup_put_other lookup_del_other)
  have "lookup ?r (jLatestBuildPath j) = lookup (root w) (jLatestBuildPath j)"
    by (rule other; rule wf_job_apart [OF assms(2)]; use assms(2) in \<open>auto simp: wf_job_def\<close>)
  moreover have "lookup ?r ?p = None" "lookup ?r ?y = Some nd"
    using py ne ok by (simp_all add: lookup_put_other)
  moreover have dirs: "is_dir ?r q" if "is_dir (root w) q" "\<not> prefix ?p q" for q
  proof (rule is_dir_put)
    show "is_dir (del ?p (root w)) q" using that by (rule is_dir_del)
    show "\<not> prefix ?y q"
      using that(1) assms(4) is_dir_prefix [OF that(1), of ?y] by (auto simp: is_dir_def)
  qed
  moreover have "?p = (jRootBuildPath j @ [''pending'']) @ [jID j]" using assms(2) by (simp add: wf_job_def)
  then have "is_dir ?r (jRootBuildPath j @ [''pending''])"
    using assms(3) by (intro dirs lookup_snoc_dir [of _ _ "jID j"]) (auto dest: prefix_length_le)
  moreover have "\<not> prefix ?p (link_dir j)"
    using assms(2) by (auto simp: wf_job_def link_dir_def dest: prefix_length_le split: if_splits)
  ultimately have "published j False nd (root w) ?r"
    using other by (simp add: published_def)
  then show ?thesis using mv dirs by blast
qed

lemma finish_move_ok:
  assumes "quiet w" and "wf_job j" and "lookup (root w) (jPendingBuildPath j) = Some nd"
    and "lookup (root w) (jReadyBuildPath j) = None" and "is_dir (root w) (jRootBuildPath j @ [''ready''])"
    and "is_dir (root w) (link_dir j)"
    and "case lookup (root w) (jLatestBuildPath j) of None \<Rightarrow> True | Some x \<Rightarrow> is_link x"
    and "\<not> held (sPq s) (jProject j)"
  shows "\<exists>s' r. finish_move err s j w = Ret (err, s', w\<lparr>root := r\<rparr>) \<and>
           published j (err = None \<and> bExitCode (jBuildInfo j) = 0) nd (root w) r"
proof -
  obtain r where r: "os_Rename (jPendingBuildPath j) (jReadyBuildPath j) w = (None, w\<lparr>root := r\<rparr>)"
      "published j False nd (root w) r"
      "\<And>q. is_dir (root w) q \<Longrightarrow> \<not> prefix (jPendingBuildPath j) q \<Longrightarrow> is_dir r q"
    using rename_ready [OF assms(1-5)] by blast
  show ?thesis
  proof (cases "err = None \<and> bExitCode (jBuildInfo j) = 0")
    case False
    have "finish_move err s j w = Ret (err, s, w\<lparr>root := r\<rparr>)"
      unfolding finish_move_def r(1) using False
      by (simp only: Let_def prod.case close_err_def option.case ContainerSuccessExitCode_def if_False)
    with False r(2) show ?thesis by (simp only: if_False) blast
  next
    case True
    obtain c where c: "jLatestBuildPath j = link_dir j @ [c]"
      by (rule wf_job_parent [OF assms(2)])
    have ld: "is_dir r (link_dir j)"
      by (rule r(3) [OF assms(6)])
        (use assms(2) in \<open>auto simp: wf_job_def link_dir_def dest: prefix_length_le split: if_splits\<close>)
    have lk: "case lookup r (link_dir j @ [c]) of None \<Rightarrow> True | Some x \<Rightarrow> is_link x"
      using assms(7) r(2) by (simp add: published_def c)
    obtain r' where r': "link_latest j (w\<lparr>root := r\<rparr>) = (None, w\<lparr>root := r'\<rparr>)"
        "lookup r' (link_dir j @ [c]) = Some (Symlink (jReadyBuildPath j))"
        "\<forall>q. \<not> prefix (link_dir j @ [c]) q \<longrightarrow> \<not> prefix q (link_dir j @ [c]) \<longrightarrow> lookup r' q = lookup r q"
      using link_latest_ok [of "w\<lparr>root := r\<rparr>" "link_dir j" j c] assms(1) ld lk c by auto
    have apart: "\<not> prefix (link_dir j @ [c]) q \<and> \<not> prefix q (link_dir j @ [c])"
      if "q \<in> {jPendingBuildPath j, jReadyBuildPath j}" for q
      using that wf_job_apart [OF assms(2)] assms(2) unfolding c [symmetric]
      by (auto simp: wf_job_def split: if_splits)
    have "is_dir r' (jRootBuildPath j @ [''pending''])"
      using r(2) r'(3) assms(2) unfolding c [symmetric] by (auto simp: published_def is_dir_def wf_job_def split: if_splits)
    moreover have "is_dir r' (link_dir j)" using r'(2) lookup_snoc_dir by blast
    ultimately have "published j True nd (root w) r'"
      using r(2) r'(2,3) apart by (simp add: published_def c)
    moreover obtain q1 q2 where "Lock (sPq s) (jProject j) = Ret q1" "Unlock q1 (jProject j) = Ret q2"
      by (rule critical_runs [OF assms(8)])
    then have "finish_move err s j w = Ret (None, s\<lparr>sPq := q2\<rparr>, w\<lparr>root := r'\<rparr>)"
      unfolding finish_move_def r(1) using True r'(1)
      by (simp add: close_err_def ContainerSuccessExitCode_def)
    ultimately show ?thesis using True by auto
  qed
qed

end
