(* ===== verification/Work_Total.thy ===== *)
theory Work_Total
  imports Work_Build
begin

text \<open>
  Total correctness of a build: in a world without injected faults, whatever the Docker daemon
  answers, \<open>Work\<close> returns, the build ends in the ready directory with the build information
  that is returned, and the latest link is moved exactly for a successful build.
\<close>

section \<open>The outcome of a build\<close>

definition finished :: "Job \<Rightarrow> bool \<Rightarrow> BuildInfo \<Rightarrow> node \<Rightarrow> node \<Rightarrow> bool" where
  "finished j linked bi r r' \<longleftrightarrow>
     is_dir r' (jRootBuildPath j @ [''pending'']) \<and> is_dir r' (link_dir j) \<and> lookup r' (jPendingBuildPath j) = None \<and>
     is_dir r' (jReadyBuildPath j @ [''data'']) \<and>
     (\<exists>c. lookup r' (jReadyBuildPath j @ [''out.log'']) = Some (File c)) \<and>
     lookup r' (jReadyBuildPath j @ [''build_info.json'']) = Some (File (Doc (marshal_BuildInfo (without_logs bi)))) \<and>
     lookup r' (jLatestBuildPath j) =
       (if linked then Some (Symlink (jReadyBuildPath j)) else lookup r (jLatestBuildPath j)) \<and>
     (\<forall>q. (\<forall>d \<in> {jPendingBuildPath j, jReadyBuildPath j, jLatestBuildPath j}. \<not> prefix d q \<and> \<not> prefix q d) \<and>
          (\<forall>d \<in> set (project_dirs j). \<not> prefix q d) \<longrightarrow>
        lookup r' q = lookup r q)"

lemma building_nodes:
  assumes "building p r"
  obtains nd where "lookup r p = Some nd" and "IsDir nd" and "is_dir nd [''data'']"
    and "\<exists>c. lookup nd [''out.log''] = Some (File c)"
    and "\<And>q. lookup nd q = lookup r (p @ q)"
proof -
  obtain nd where nd: "lookup r p = Some nd" "IsDir nd"
    using building_dir [OF assms] by (auto simp: is_dir_def split: option.splits)
  have low: "lookup nd q = lookup r (p @ q)" for q
    using nd(1) by (simp add: lookup_append)
  have "is_dir nd [''data'']" "\<exists>c. lookup nd [''out.log''] = Some (File c)"
    using assms by (simp_all add: building_def is_dir_def low)
  with nd low show ?thesis by (rule_tac that)
qed

lemma below_lookup: "below p r r' \<Longrightarrow> \<not> prefix p q \<Longrightarrow> \<not> prefix q p \<Longrightarrow> lookup r' q = lookup r q"
  by (simp add: below_def)

lemma below_is_dir:
  assumes "below p r r'" and "is_dir r q" and "\<not> prefix p q"
  shows "is_dir r' q"
proof (cases "prefix q p")
  case True
  with assms(1) show ?thesis by (auto simp: below_def intro: is_dir_prefix)
next
  case False
  with assms show ?thesis by (simp add: is_dir_def below_lookup)
qed

lemma same_job_wf: "same_job j j' \<Longrightarrow> wf_job j' = wf_job j"
  by (simp add: wf_job_def same_job_sel)

lemma same_job_link_dir: "same_job j j' \<Longrightarrow> link_dir j' = link_dir j"
  by (simp add: link_dir_def same_job_sel)

lemma same_job_published: "same_job j j' \<Longrightarrow> published j' l nd r r' = published j l nd r r'"
  by (simp add: published_def same_job_sel same_job_link_dir cong: if_cong)

text \<open>The part of the build information that describes the request.\<close>

definition request_of ::
  "BuildInfo \<Rightarrow> Params \<times> string \<times> string \<times> string \<times> int \<times> TransportMethod \<times> bool \<times> bool" where
  "request_of bi = (bParams bi, bGroup bi, bPath bi, bURL bi, bStartedAt bi, bTransportMethod bi,
     bCached bi, bCoalesced bi)"

lemma build_body_err: "build_body env s j start w = (err, s', j', w') \<Longrightarrow>
    bErrBuild (jBuildInfo j') = bErrBuild (jBuildInfo j) \<and>
    request_of (jBuildInfo j') = request_of (jBuildInfo j) \<and> bIncremental (jBuildInfo j') = bIncremental (jBuildInfo j)"
  by (auto simp: build_body_def with_log_def with_client_def build_and_run_def set_info_def Let_def
      request_of_def split: prod.splits option.splits sum.splits)

text \<open>A directory from which an incremental build can start.\<close>

definition base_at :: "path \<Rightarrow> node \<Rightarrow> bool" where
  "base_at p r \<longleftrightarrow> (case lookup r p of None \<Rightarrow> False | Some nd \<Rightarrow> base_tree nd \<and> is_dir nd [''data''])"

lemma furnished_base:
  assumes "furnished env p r" and "keeps_dirs env" and "lookup r p = Some nd"
  shows "base_tree nd \<and> is_dir nd [''data'']"
proof -
  have low: "lookup nd q = lookup r (p @ q)" for q
    using assms(3) by (simp add: lookup_append)
  have "is_dir r p" by (rule furnished_dir [OF assms(1)])
  then have "IsDir nd" using assms(3) by (simp add: is_dir_def)
  then show ?thesis
    using assms(1,2) by (auto simp: furnished_def base_tree_def dir_or_new_def is_dir_def file_or_new_def low)
qed

text \<open>What has to hold when the build proper starts.\<close>

definition startable :: "Job \<Rightarrow> node \<Rightarrow> bool" where
  "startable j r \<longleftrightarrow> persisted (jPendingBuildPath j) r \<and>
     lookup r (jReadyBuildPath j) = None \<and> is_dir r (jRootBuildPath j @ [''ready'']) \<and>
     is_dir r (link_dir j) \<and> (case lookup r (jLatestBuildPath j) of None \<Rightarrow> True | Some x \<Rightarrow> is_link x)"

lemma startable_below:
  assumes "wf_job j" and "startable j r" and "below (jPendingBuildPath j) r r'"
  shows "lookup r' (jReadyBuildPath j) = None" "is_dir r' (jRootBuildPath j @ [''ready''])"
    "is_dir r' (link_dir j)" "lookup r' (jLatestBuildPath j) = lookup r (jLatestBuildPath j)"
proof -
  have apart: "\<not> prefix (jPendingBuildPath j) q \<and> \<not> prefix q (jPendingBuildPath j)"
    if "q \<in> {jReadyBuildPath j, jLatestBuildPath j}" for q
    using that wf_job_apart [OF assms(1)] assms(1) by (auto simp: wf_job_def split: if_splits)
  show "lookup r' (jReadyBuildPath j) = None" "lookup r' (jLatestBuildPath j) = lookup r (jLatestBuildPath j)"
    using assms(2) apart below_lookup [OF assms(3)] by (simp_all add: startable_def)
  have "\<not> prefix (jPendingBuildPath j) (jRootBuildPath j @ [''ready''])" "\<not> prefix (jPendingBuildPath j) (link_dir j)"
    using assms(1) by (auto simp: wf_job_def link_dir_def dest: prefix_length_le)
  then show "is_dir r' (jRootBuildPath j @ [''ready''])" "is_dir r' (link_dir j)"
    using assms(2) below_is_dir [OF assms(3)] by (simp_all add: startable_def)
qed

lemma published_finished:
  assumes "wf_job j" and "building (jPendingBuildPath j) r1" and "below (jPendingBuildPath j) r r1"
    and "lookup r1 (jPendingBuildPath j @ [''build_info.json'']) = Some (File (Doc (marshal_BuildInfo (without_logs bi))))"
    and "lookup r1 (jPendingBuildPath j) = Some nd" and "published j linked nd r1 r'" and "is_dir r1 (link_dir j)"
  shows "finished j linked bi r r'"
proof -
  obtain nd' where nd': "lookup r1 (jPendingBuildPath j) = Some nd'" "is_dir nd' [''data'']" "IsDir nd'"
      "\<exists>c. lookup nd' [''out.log''] = Some (File c)" "\<And>q. lookup nd' q = lookup r1 (jPendingBuildPath j @ q)"
    using building_nodes [OF assms(2)] by metis
  have "nd' = nd" using nd'(1) assms(5) by simp
  have low: "lookup r' (jReadyBuildPath j @ q) = lookup nd q" for q
    using assms(6) by (simp add: published_def lookup_append)
  have "lookup r1 (jLatestBuildPath j) = lookup r (jLatestBuildPath j)"
    by (rule below_lookup [OF assms(3)]; rule wf_job_apart [OF assms(1)];
        use assms(1) in \<open>auto simp: wf_job_def split: if_splits\<close>)
  moreover have "is_dir r' (jReadyBuildPath j @ [''data''])"
    using nd'(2) \<open>nd' = nd\<close> low by (simp add: is_dir_def)
  ultimately show ?thesis
    using assms(4,6,7) nd'(4,5) \<open>nd' = nd\<close> low below_lookup [OF assms(3)]
    by (simp add: finished_def published_def)
qed

lemma work_build_ok:
  assumes "keeps_mounts env" and "cMounts (sCfg s) = []" and "wf_job j" and "plain_params j"
    and "quiet w" and "startable j (root w)" and "\<not> held (sPq s) (jProject j)"
  shows "\<exists>bi err s' j' w'. work_build env s j start w = Ret ((Some bi, err), s', j', w') \<and> quiet w' \<and>
           finished j (err = None \<and> bExitCode bi = 0) bi (root w) (root w') \<and>
           bErrBuild bi = (case err of None \<Rightarrow> bErrBuild (jBuildInfo j) | Some e \<Rightarrow> Error e) \<and>
           request_of bi = request_of (jBuildInfo j) \<and>
           (docker_ends env failed code \<longrightarrow> (err \<noteq> None \<longleftrightarrow> failed) \<and> bExitCode bi = code) \<and>
           (keeps_dirs env \<longrightarrow> base_at (jReadyBuildPath j) (root w')) \<and> bIncremental bi = bIncremental (jBuildInfo j)"
proof -
  let ?p = "jPendingBuildPath j"
  obtain err s1 j1 w1 where b: "build_body env s j start w = (err, s1, j1, w1)"
    by (metis prod_cases4)
  have paths: "jBuildLogPath j = ?p @ [''out.log'']" "jBuildInfoFilePath j = ?p @ [''build_info.json'']"
      "distinct (map fst (jParams j))"
    using assms(3) by (simp_all add: wf_job_def)
  have w1: "quiet w1" "furnished env ?p (root w1)" "below ?p (root w) (root w1)"
      "docker_ends env failed code \<longrightarrow> (err \<noteq> None \<longleftrightarrow> failed) \<and> bExitCode (jBuildInfo j1) = code"
    using build_body_ok [OF assms(1,2) refl paths(1) assms(5) _ assms(4) paths(3) b] assms(6)
    by (simp_all add: startable_def)
  let ?bi = "note_error err (jBuildInfo j1)" and ?j = "set_info (note_error err) j1"
  let ?r = "put (?p @ [''build_info.json'']) (File (Doc (marshal_BuildInfo (without_logs ?bi)))) (root w1)"
  note sel1 = same_job_sel [OF build_body_job [OF b]]
  have sj: "same_job j ?j" using build_body_job [OF b] by simp
  note sel = same_job_sel [OF sj]
  have f: "finish_info err j1 w1 = (err, ?j, w1\<lparr>root := ?r\<rparr>)"
    using finish_info_ok [OF w1(1) furnished_building [OF w1(2)]] paths(2) sel1 by simp
  have r: "furnished env ?p ?r" "below ?p (root w) ?r"
    using furnished_put_info [OF w1(2)] below_trans [OF w1(3) below_put]
      furnished_dir [OF w1(2)] by simp_all
  obtain nd where nd: "lookup ?r ?p = Some nd" using building_nodes [OF furnished_building [OF r(1)]] by metis
  note st = startable_below [OF assms(3,6) r(2)]
  have sq: "sPq s1 = sPq s" using build_body_queues [OF b] by (simp add: same_queues_def)
  have "\<exists>s' r'. finish_move err s1 ?j (w1\<lparr>root := ?r\<rparr>) = Ret (err, s', w1\<lparr>root := ?r\<rparr>\<lparr>root := r'\<rparr>) \<and>
      published ?j (err = None \<and> bExitCode (jBuildInfo ?j) = 0) nd (root (w1\<lparr>root := ?r\<rparr>)) r'"
    by (rule finish_move_ok)
      (use assms(3,6,7) w1(1) nd st sq sel same_job_wf [OF sj] same_job_link_dir [OF sj]
        in \<open>simp_all add: startable_def\<close>)
  then obtain s' r' where m: "finish_move err s1 ?j (w1\<lparr>root := ?r\<rparr>) = Ret (err, s', w1\<lparr>root := r'\<rparr>)"
      "published ?j (err = None \<and> bExitCode ?bi = 0) nd ?r r'"
    by auto
  have pb: "published j (err = None \<and> bExitCode ?bi = 0) nd ?r r'"
    using m(2) same_job_published [OF sj] by simp
  have "lookup ?r (?p @ [''build_info.json'']) = Some (File (Doc (marshal_BuildInfo (without_logs ?bi))))"
    using furnished_dir [OF w1(2)] by simp
  with pb have "finished j (err = None \<and> bExitCode ?bi = 0) ?bi (root w) r'"
    using published_finished [OF assms(3) furnished_building [OF r(1)] r(2)] nd st(3) by blast
  moreover have "bErrBuild ?bi = (case err of None \<Rightarrow> bErrBuild (jBuildInfo j) | Some e \<Rightarrow> Error e)"
    using build_body_err [OF b] by (simp add: note_error_def split: option.splits)
  moreover have "request_of ?bi = request_of (jBuildInfo j)"
    using build_body_err [OF b] by (simp add: note_error_def request_of_def split: option.splits)
  moreover have "docker_ends env failed code \<longrightarrow> (err \<noteq> None \<longleftrightarrow> failed) \<and> bExitCode ?bi = code"
    using w1(4) by (simp add: note_error_def split: option.splits)
  moreover have "keeps_dirs env \<longrightarrow> base_at (jReadyBuildPath j) r'"
    using furnished_base [OF r(1) _ nd] pb by (simp add: base_at_def published_def)
  moreover have "bIncremental ?bi = bIncremental (jBuildInfo j)"
    using build_body_err [OF b] by (simp add: note_error_def split: option.splits)
  ultimately show ?thesis
    using b f m(1) w1(1) by (auto simp: work_build_def)
qed

section \<open>A fresh build\<close>

text \<open>The tree before a fresh build of \<open>j\<close>, and the base it starts from.\<close>

definition buildable :: "'d Server \<Rightarrow> Job \<Rightarrow> node \<Rightarrow> bool" where
  "buildable s j r \<longleftrightarrow> layout j r \<and> is_dir r (Join (projects_dir (sCfg s)) (jProject j)) \<and>
     lookup r (jPendingBuildPath j) = None"

definition has_base :: "'d env \<Rightarrow> Job \<Rightarrow> node \<Rightarrow> bool" where
  "has_base env j r \<longleftrightarrow> no_base j r \<or> (\<exists>i. based_on j i r \<and> cp_copies env)"

lemma bootstrapped_lookup:
  assumes "wf_job j" and "bootstrapped j r r'"
  shows "lookup r' (jPendingBuildPath j) = lookup r (jPendingBuildPath j)"
    "lookup r' (jReadyBuildPath j) = lookup r (jReadyBuildPath j)"
    "lookup r' (jLatestBuildPath j) = lookup r (jLatestBuildPath j)"
    "lookup r' (jRootBuildPath j @ [''ready'', i]) = lookup r (jRootBuildPath j @ [''ready'', i])"
proof -
  have same: "lookup r' q = lookup r q" if "\<forall>d \<in> set (project_dirs j). \<not> prefix q d" for q
    using assms(2) that by (simp add: bootstrapped_def)
  show "lookup r' (jPendingBuildPath j) = lookup r (jPendingBuildPath j)"
    "lookup r' (jReadyBuildPath j) = lookup r (jReadyBuildPath j)"
    "lookup r' (jLatestBuildPath j) = lookup r (jLatestBuildPath j)"
    using same wf_job_project_dirs(1,2) [OF assms(1), of _ "[]"] wf_job_project_dirs(3) [OF assms(1)] by auto
  show "lookup r' (jRootBuildPath j @ [''ready'', i]) = lookup r (jRootBuildPath j @ [''ready'', i])"
    by (rule same) (auto simp: project_dirs_def)
qed

lemma bootstrapped_link_dir: "bootstrapped j r r' \<Longrightarrow> is_dir r' (link_dir j)"
  by (auto simp: bootstrapped_def link_dir_def intro: is_dir_prefix)

lemma bootstrapped_base:
  assumes "wf_job j" and "bootstrapped j r r'"
  shows "no_base j r' = no_base j r" "based_on j i r' = based_on j i r"
  by (simp_all add: no_base_def based_on_def bootstrapped_lookup [OF assms])

text \<open>Bootstrapping the build directory and persisting the build information make a build startable.\<close>

lemma BootstrapBuildDir_ok:
  assumes "quiet w" and "wf_job j" and "bootstrapped j r (root w)" and "has_base env j (root w)"
    and "lookup (root w) (jPendingBuildPath j) = None"
  shows "\<exists>j' r'. BootstrapBuildDir (PlainFS env) j w = (None, j', w\<lparr>root := r'\<rparr>) \<and>
           staged (jPendingBuildPath j) r' \<and> below (jPendingBuildPath j) (root w) r' \<and>
           bErrBuild (jBuildInfo j') = bErrBuild (jBuildInfo j) \<and>
           request_of (jBuildInfo j') = request_of (jBuildInfo j) \<and>
           bIncremental (jBuildInfo j') = (bIncremental (jBuildInfo j) \<or> \<not> no_base j (root w))"
proof -
  have b: "is_dir (root w) (jRootBuildPath j @ [''pending''])"
      "jGroup j \<noteq> [] \<longrightarrow> is_dir (root w) (jRootBuildPath j @ [''groups''])"
    using assms(3) by (simp_all add: bootstrapped_def)
  from assms(4) consider "no_base j (root w)" | i where "based_on j i (root w)" "cp_copies env"
    by (auto simp: has_base_def)
  then show ?thesis
  proof cases
    case 1
    then show ?thesis using BootstrapBuildDir_fresh [OF assms(1,2) b _ assms(5)] by blast
  next
    case 2
    then have "\<not> no_base j (root w)" by (simp add: based_on_def no_base_def)
    then show ?thesis using BootstrapBuildDir_clone [OF assms(1,2) b(1) 2(1) assms(5)] 2(2) by (fastforce simp: request_of_def)
  qed
qed

lemma startable_staged:
  assumes "wf_job j" and "bootstrapped j r r1" and "layout j r" and "lookup r (jReadyBuildPath j) = None"
    and "staged (jPendingBuildPath j) r2" and "below (jPendingBuildPath j) r1 r2"
  shows "startable j (put (jPendingBuildPath j @ [''build_info.json'']) (File c) r2)"
proof -
  let ?p = "jPendingBuildPath j" and ?r = "put (jPendingBuildPath j @ [''build_info.json'']) (File c) r2"
  have "is_dir r2 ?p" using assms(6) by (simp add: below_def)
  then have b: "below ?p r1 ?r" by (intro below_trans [OF assms(6) below_put]) simp_all
  have "lookup ?r (jReadyBuildPath j) = None" "lookup ?r (jLatestBuildPath j) = lookup r (jLatestBuildPath j)"
    using below_lookup [OF b] wf_job_apart [OF assms(1)] bootstrapped_lookup [OF assms(1,2)] assms(1,4)
    by (simp_all add: wf_job_def)
  moreover have "is_dir ?r (jRootBuildPath j @ [''ready''])" "is_dir ?r (link_dir j)"
    using below_is_dir [OF b] bootstrapped_link_dir [OF assms(2)] assms(1,2)
    by (auto simp: bootstrapped_def wf_job_def link_dir_def dest: prefix_length_le)
  ultimately show ?thesis
    using assms(3) staged_put_info [OF assms(5)] by (simp add: startable_def layout_def)
qed

lemma finished_bootstrapped:
  assumes "wf_job j" and "bootstrapped j r r1" and "below (jPendingBuildPath j) r1 r2" and "finished j l bi r2 r'"
  shows "finished j l bi r r'"
proof -
  have "lookup r2 (jLatestBuildPath j) = lookup r (jLatestBuildPath j)"
    using below_lookup [OF assms(3)] wf_job_apart [OF assms(1)] bootstrapped_lookup [OF assms(1,2)] assms(1)
    by (simp add: wf_job_def)
  moreover have "lookup r2 q = lookup r q"
    if "\<not> prefix (jPendingBuildPath j) q" "\<not> prefix q (jPendingBuildPath j)" "\<forall>d \<in> set (project_dirs j). \<not> prefix q d" for q
    using that below_lookup [OF assms(3)] assms(2) by (simp add: bootstrapped_def)
  ultimately show ?thesis
    using assms(4) by (simp add: finished_def cong: if_cong)
qed

lemma work_fresh_ok:
  assumes "keeps_mounts env" and "cMounts (sCfg s) = []" and "cFileSystem (sCfg s) = PlainFS env"
    and "wf_job j" and "plain_params j" and "quiet w" and "buildable s j (root w)"
    and "has_base env j (root w)" and "lookup (root w) (jReadyBuildPath j) = None"
    and "\<not> held (sPq s) (jProject j)"
  shows "\<exists>bi err s' j' w'. work_fresh env s j start w = Ret ((Some bi, err), s', j', w') \<and> quiet w' \<and>
           finished j (err = None \<and> bExitCode bi = 0) bi (root w) (root w') \<and>
           bErrBuild bi = (case err of None \<Rightarrow> bErrBuild (jBuildInfo j) | Some e \<Rightarrow> Error e) \<and>
           request_of bi = request_of (jBuildInfo j) \<and>
           (docker_ends env failed code \<longrightarrow> (err \<noteq> None \<longleftrightarrow> failed) \<and> bExitCode bi = code) \<and>
           (keeps_dirs env \<longrightarrow> base_at (jReadyBuildPath j) (root w')) \<and>
           bIncremental bi = (bIncremental (jBuildInfo j) \<or> \<not> no_base j (root w))"
proof -
  let ?p = "jPendingBuildPath j"
  have lay: "layout j (root w)" and root: "jRootBuildPath j \<noteq> []" and pend: "lookup (root w) ?p = None"
    and info: "jBuildInfoFilePath j = ?p @ [''build_info.json'']"
    using assms(4,7) by (simp_all add: buildable_def wf_job_def)
  obtain es where st: "os_Stat (Join (projects_dir (sCfg s)) (jProject j)) w = (Inr (Dir es), w)"
    using assms(6,7) by (auto simp: buildable_def is_dir_iff os_simps)
  obtain s1 r1 where bp: "BootstrapProject s j w = Ret (None, s1, w\<lparr>root := r1\<rparr>)" "bootstrapped j (root w) r1"
    using BootstrapProject_ok [OF assms(6) lay root assms(10)] by blast
  have s1: "sCfg s1 = sCfg s" "\<not> held (sPq s1) (jProject j)"
    using BootstrapProject_locks [OF bp(1)] assms(10) by (auto simp: same_locks_def)
  have "\<exists>j' r'. BootstrapBuildDir (PlainFS env) j (w\<lparr>root := r1\<rparr>) = (None, j', w\<lparr>root := r1\<rparr>\<lparr>root := r'\<rparr>) \<and>
      staged ?p r' \<and> below ?p (root (w\<lparr>root := r1\<rparr>)) r' \<and> bErrBuild (jBuildInfo j') = bErrBuild (jBuildInfo j) \<and>
      request_of (jBuildInfo j') = request_of (jBuildInfo j) \<and>
      bIncremental (jBuildInfo j') = (bIncremental (jBuildInfo j) \<or> \<not> no_base j (root (w\<lparr>root := r1\<rparr>)))"
    by (rule BootstrapBuildDir_ok [where r = "root w"])
      (use assms(4,6,8) bp(2) pend bootstrapped_lookup [OF assms(4) bp(2)]
        bootstrapped_base [OF assms(4) bp(2)] in \<open>auto simp: has_base_def\<close>)
  then obtain j1 r2 where bb: "BootstrapBuildDir (PlainFS env) j (w\<lparr>root := r1\<rparr>) = (None, j1, w\<lparr>root := r2\<rparr>)"
      "staged ?p r2" "below ?p r1 r2" "bErrBuild (jBuildInfo j1) = bErrBuild (jBuildInfo j)"
      "request_of (jBuildInfo j1) = request_of (jBuildInfo j)"
      "bIncremental (jBuildInfo j1) = (bIncremental (jBuildInfo j) \<or> \<not> no_base j (root w))"
    using bootstrapped_base(1) [OF assms(4) bp(2)] by auto
  note sj = BootstrapBuildDir_job [OF bb(1)]
  note sel = same_job_sel [OF sj]
  let ?r = "put (?p @ [''build_info.json'']) (File (Doc (marshal_BuildInfo (without_logs (jBuildInfo j1))))) r2"
  have pe: "persistBuildInfo j1 (w\<lparr>root := r2\<rparr>) = (None, w\<lparr>root := ?r\<rparr>)"
    using persistBuildInfo_ok [of "w\<lparr>root := r2\<rparr>" ?p j1] bb(2,3) assms(6) info sel
    by (simp add: below_def staged_def)
  have st1: "startable j1 (root (w\<lparr>root := ?r\<rparr>))"
    using startable_staged [OF assms(4) bp(2) lay assms(9) bb(2,3)] sel same_job_link_dir [OF sj]
    by (simp add: startable_def)
  have pre: "cMounts (sCfg s1) = []" "wf_job j1" "plain_params j1" "quiet (w\<lparr>root := ?r\<rparr>)"
      "\<not> held (sPq s1) (jProject j1)"
    using assms(2,4,5,6) s1 sel same_job_wf [OF sj] by (simp_all add: plain_params_def)
  obtain bi err s' j' w' where wb: "work_build env s1 j1 start (w\<lparr>root := ?r\<rparr>) = Ret ((Some bi, err), s', j', w')"
      "quiet w'" "finished j1 (err = None \<and> bExitCode bi = 0) bi (root (w\<lparr>root := ?r\<rparr>)) (root w')"
      "bErrBuild bi = (case err of None \<Rightarrow> bErrBuild (jBuildInfo j1) | Some e \<Rightarrow> Error e)"
      "request_of bi = request_of (jBuildInfo j1)" "docker_ends env failed code \<longrightarrow> (err \<noteq> None \<longleftrightarrow> failed) \<and> bExitCode bi = code"
      "keeps_dirs env \<longrightarrow> base_at (jReadyBuildPath j1) (root w')" "bIncremental bi = bIncremental (jBuildInfo j1)"
    using work_build_ok [OF assms(1) pre(1-4) st1 pre(5), of start failed code] by blast
  have "finished j (err = None \<and> bExitCode bi = 0) bi ?r (root w')"
    using wb(3) sel same_job_link_dir [OF sj] by (simp add: finished_def project_dirs_def cong: if_cong)
  moreover have "below ?p r1 ?r"
    by (rule below_trans [OF bb(3) below_put]) (use bb(3) in \<open>simp_all add: below_def\<close>)
  ultimately have "finished j (err = None \<and> bExitCode bi = 0) bi (root w) (root w')"
    by (rule_tac finished_bootstrapped [OF assms(4) bp(2)])
  moreover have "bErrBuild bi = (case err of None \<Rightarrow> bErrBuild (jBuildInfo j) | Some e \<Rightarrow> Error e)"
    "request_of bi = request_of (jBuildInfo j)"
    using wb(4,5) bb(4,5) by (simp_all split: option.splits)
  moreover have "work_fresh env s j start w = Ret ((Some bi, err), s', j', w')"
    using st bp(1) bb(1) pe wb(1) s1(1) assms(3) by (simp add: work_fresh_def)
  moreover have "keeps_dirs env \<longrightarrow> base_at (jReadyBuildPath j) (root w')"
    "bIncremental bi = (bIncremental (jBuildInfo j) \<or> \<not> no_base j (root w))"
    using wb(7,8) bb(6) sel by simp_all
  ultimately show ?thesis using wb(2,6) by blast
qed

section \<open>The result cache\<close>

text \<open>A ready path that does not exist is reported as such, also when its directory is missing.\<close>

lemma fs_stat_ready_missing:
  assumes "wf_job j" and "layout j r" and "lookup r (jReadyBuildPath j) = None"
  shows "fs_stat max_links True (jReadyBuildPath j @ q) r = Inl ENOENT"
proof -
  let ?p = "jRootBuildPath j"
  have p: "jReadyBuildPath j = ?p @ [''ready'', jID j]" "?p = butlast ?p @ [last ?p]"
    using assms(1) by (simp_all add: wf_job_def)
  have "fs_stat max_links True (?p @ ''ready'' # jID j # q) r = Inl ENOENT"
  proof (cases "is_dir r ?p")
    case True
    show ?thesis
    proof (cases "is_dir r (?p @ [''ready''])")
      case True
      have "lookup r ((?p @ [''ready'']) @ [jID j]) = None" using assms(3) p(1) by simp
      then show ?thesis
        using fs_stat_missing [OF True, of "jID j"] fs_stat_missing_above [OF True, of "jID j" q] by (cases "q = []") simp_all
    next
      case False
      then have "lookup r (?p @ [''ready'']) = None"
        using assms(2) by (simp add: layout_def dir_or_new_def)
      then show ?thesis
        using fs_stat_missing_above [OF True, of "''ready''" "jID j # q"] by simp
    qed
  next
    case False
    then have "is_dir r (butlast ?p)" "lookup r (butlast ?p @ [last ?p]) = None"
      using assms(2) p(2) by (auto simp: layout_def dir_or_new_def)
    then show ?thesis
      using fs_stat_missing_above [of r "butlast ?p" "last ?p" "''ready'' # jID j # q" max_links True]
        assms(1) by (simp add: wf_job_def butlast_last_append)
  qed
  then show ?thesis using p(1) by simp
qed

lemma os_Stat_ready_missing:
  assumes "quiet w" and "wf_job j" and "layout j (root w)" and "lookup (root w) (jReadyBuildPath j) = None"
  shows "os_Stat (jReadyBuildPath j) w = (Inl (PathError ''stat'' (jReadyBuildPath j) ENOENT), w)"
  using fs_stat_ready_missing [OF assms(2-4), of "[]"] assms(1) by (simp add: os_Stat_def os_simps)

end
