(* ===== verification/Demo.thy ===== *)
theory Demo
  imports Work_Total
begin

text \<open>
  Concrete instances on which the hypotheses of the theorems are met: a command runner that
  knows \<open>cp -r\<close>, a Docker daemon whose state counts the calls made to it, a small
  project, and a job for it.
\<close>

definition demo_exec :: "string list \<Rightarrow> nat world \<Rightarrow> (string \<times> goerr option) \<times> nat world" where
  "demo_exec args w =
     (case args of
        [c, f, src, dst] \<Rightarrow>
          (case lookup (root w) (fpath src) of
             Some nd \<Rightarrow>
               if c = ''cp'' \<and> f = ''-r'' then (([], None), w\<lparr>root := put (fpath dst) nd (root w)\<rparr>)
               else (([], Some (ErrorString ''unknown command'')), w)
           | None \<Rightarrow> ((''cp: no such file'', Some (ErrorString ''exit status 1'')), w))
      | _ \<Rightarrow> (([], Some (ErrorString ''unknown command'')), w))"

text \<open>The daemon answers every call; the container exits with the given code.\<close>

definition demo_env :: "int \<Rightarrow> nat env" where
  "demo_env code =
     \<lparr>exec_cmd = demo_exec,
      tar_bytes = (\<lambda>t. concat (map (\<lambda>(n, s). n @ s) t)),
      num_cpu = 4, getuid = 1000,
      dk_NewEnvClient = (\<lambda>d. (None, Suc d)),
      dk_Close = (\<lambda>d. (None, Suc d)),
      dk_ImageBuild = (\<lambda>opts ctx d. (Inr ''body'', Suc d)),
      dk_DisplayJSONMessagesStream = (\<lambda>s. (''built '', None)),
      dk_ImageInspectWithRaw = (\<lambda>img d. (None, Suc d)),
      dk_ContainerList = (\<lambda>name d. (Inr [], Suc d)),
      dk_ContainerRename = (\<lambda>c n d. (None, Suc d)),
      dk_ContainerCreate = (\<lambda>u i m n d. (Inr ''c1'', Suc d)),
      dk_ContainerStart = (\<lambda>c d. (None, Suc d)),
      dk_ContainerRemove = (\<lambda>c d. (None, Suc d)),
      dk_ContainerLogs = (\<lambda>c d. (Inr ([Stdout ''hi'', Stderr ''warn''], None), Suc d)),
      dk_effect = (\<lambda>d c t nd. put [''artifacts'', ''out.txt''] (File (Text ''result'')) nd),
      dk_ContainerInspectWithRaw =
        (\<lambda>c d. (Inr (Doc (JObj [(''State'', JObj [(''ExitCode'', JInt code)])])), Suc d)),
      dk_ContainersPrune = (\<lambda>d. (Inr (1, 10), Suc d)),
      dk_ImagesPrune = (\<lambda>d. (Inr (2, 20), Suc d))\<rparr>"

definition demo_config :: "nat Config" where
  "demo_config = \<lparr>cAddr = ''0.0.0.0:8462'', cFileSystem = PlainFS (demo_env 0), cUID = ''1000'',
     cProjectsPath = ''/projects'', cBuildPath = ''/build'', cMounts = [], cConcurrency = 1, cBacklog = 2\<rparr>"

definition demo_server :: "nat Server" where
  "demo_server = \<lparr>sCfg = demo_config, sJq = NewJobQueue, sPq = NewProjectQueue,
     sMetrics = Some NewRecorder\<rparr>"

definition demo_project :: node where
  "demo_project = Dir [(''Dockerfile'', File (Text ''FROM debian'')), (''docker-entrypoint.sh'', File (Text ''#!''))]"

definition demo_tree :: node where
  "demo_tree = Dir [(''projects'', Dir [(''app'', demo_project)]), (''build'', Dir [])]"

definition demo_world :: "node \<Rightarrow> nat world" where
  "demo_world r = \<lparr>root = r, faults = [], clock = [5, 6, 7, 1000000008, 9], random = [], dockerd = 0\<rparr>"

definition demo_job :: "string \<Rightarrow> Job" where
  "demo_job grp =
     \<lparr>jID = ''abcdef01'', jProject = ''app'', jParams = [(''b'', ''2''), (''a'', ''1'')], jGroup = grp,
      jRebuild = False, jRootBuildPath = [''build'', ''app''],
      jPendingBuildPath = [''build'', ''app'', ''pending'', ''abcdef01''],
      jReadyBuildPath = [''build'', ''app'', ''ready'', ''abcdef01''],
      jLatestBuildPath = latest_path [''build'', ''app''] grp,
      jReadyDataPath = [''build'', ''app'', ''ready'', ''abcdef01'', ''data''],
      jProjectPath = [''projects'', ''app''],
      jBuildLogPath = [''build'', ''app'', ''pending'', ''abcdef01'', ''out.log''],
      jBuildInfoFilePath = [''build'', ''app'', ''pending'', ''abcdef01'', ''build_info.json''],
      jImage = ''mistry-app'', jImageTar = ''tar'', jContainer = ''mistry-abcdef01'',
      jStartedAt = 3, jBuildInfo = zero_BuildInfo, jState = ''pending''\<rparr>"

section \<open>The instances meet the hypotheses\<close>

lemma demo_server_sel [simp]:
  "sCfg demo_server = demo_config" "\<not> held (sPq demo_server) p" "\<not> enqueued (sJq demo_server) i"
  "sMetrics demo_server = Some NewRecorder"
  by (simp_all add: demo_server_def held_def enqueued_def NewProjectQueue_def NewJobQueue_def)

lemma demo_config_sel [simp]:
  "cMounts demo_config = []" "cFileSystem demo_config = PlainFS (demo_env 0)" "cUID demo_config = ''1000''"
  "cProjectsPath demo_config = ''/projects''" "cBuildPath demo_config = ''/build''"
  by (simp_all add: demo_config_def)

lemma demo_world_sel [simp]:
  "quiet (demo_world r)" "root (demo_world r) = r" "dockerd (demo_world r) = 0"
  by (simp_all add: demo_world_def)

lemma demo_job_sel [simp]:
  "jID (demo_job g) = ''abcdef01''" "jProject (demo_job g) = ''app''" "jGroup (demo_job g) = g"
  "jRootBuildPath (demo_job g) = [''build'', ''app'']"
  "jPendingBuildPath (demo_job g) = [''build'', ''app'', ''pending'', ''abcdef01'']"
  "jReadyBuildPath (demo_job g) = [''build'', ''app'', ''ready'', ''abcdef01'']"
  "jParams (demo_job g) = [(''b'', ''2''), (''a'', ''1'')]"
  by (simp_all add: demo_job_def)

lemma demo_keeps_mounts: "keeps_mounts (demo_env code)"
  by (simp add: keeps_mounts_def demo_env_def IsDir_put)

lemma demo_docker_ends: "docker_ends (demo_env code) False code"
proof -
  have "lower ''State'' = ''state''" by code_simp
  then show ?thesis
    by (simp add: docker_ends_def demo_env_def unmarshal_struct_def set_result_field_def set_State_field_def)
qed

lemma demo_cp_copies: "cp_copies (demo_env code)"
  by (simp add: cp_copies_def demo_env_def demo_exec_def fpath_path_string)

lemma demo_wf_job: "wf_job (demo_job [])" "wf_job (demo_job ''g'')"
  by (simp_all add: demo_job_def wf_job_def latest_path_def clean_name_def)

lemma demo_plain_params: "plain_params (demo_job g)"
  by (simp add: plain_params_def clean_name_def)

lemma demo_fpath [simp]: "fpath ''/projects'' = [''projects'']" "fpath ''/build'' = [''build'']"
  by (simp_all add: fpath_def clean_name_def)

lemma demo_buildable:
  "buildable demo_server (demo_job []) demo_tree" "buildable demo_server (demo_job ''g'') demo_tree"
  by (simp_all add: buildable_def layout_def dir_or_new_def is_dir_def demo_tree_def demo_project_def
      demo_job_def latest_path_def clean_name_def)

lemma demo_has_base: "has_base env (demo_job []) r"
  by (simp add: has_base_def no_base_def)

lemma demo_not_ready: "lookup demo_tree (jReadyBuildPath (demo_job g)) = None"
  by (simp add: demo_tree_def)

lemmas demo_facts = demo_keeps_mounts demo_cp_copies demo_wf_job demo_plain_params demo_buildable
  demo_has_base demo_not_ready

end
