(* ===== verification/Work_Props.thy ===== *)
theory Work_Props
  imports Demo
begin

text \<open>
  The properties of \<open>Work\<close> (\<open>cmd/mistryd/worker.go\<close>): it gives back what it takes, returns,
  builds what is missing and serves what is there.
\<close>

section \<open>Entering \<open>Work\<close>\<close>

text \<open>The deferred deletion from the job queue.\<close>

definition unqueue :: "Job \<Rightarrow> 'd work_result \<Rightarrow> 'd work_result" where
  "unqueue j res =
     (case res of
        Ret (r, s, j', w) \<Rightarrow> Ret (r, s\<lparr>sJq := Delete (sJq s) j\<rparr>, j', w)
      | Blocked \<Rightarrow> Blocked
      | Panic m \<Rightarrow> Panic m)"

lemma unqueue_Ret:
  "unqueue j res = Ret (r, s', j', w') \<longleftrightarrow>
     (\<exists>s. res = Ret (r, s, j', w') \<and> s' = s\<lparr>sJq := Delete (sJq s) j\<rparr>)"
  by (auto simp: unqueue_def split: outcome.splits)

lemma Work_builder:
  assumes "\<not> enqueued (sJq s) (jID j)"
  obtains start s1 j1 w1 where
    "Work env evs s j w = unqueue j1 (work_cache env s1 j1 start w1)"
    and "work_begin s j w = (start, s1\<lparr>sJq := sJq s\<rparr>, j1, w1)"
    and "sCfg s1 = sCfg s" and "sPq s1 = sPq s" and "sJq s1 = snd (Add (sJq s) j)"
    and "same_job j j1" and "root w1 = root w" and "faults w1 = faults w" and "dockerd w1 = dockerd w"
proof -
  obtain start s0 j1 w1 where b: "work_begin s j w = (start, s0, j1, w1)" by (metis prod_cases4)
  note f = work_begin_sel [OF b]
  have "jID j1 = jID j" using f same_job_sel(1) by blast
  then have add: "Add (sJq s0) j1 = (True, snd (Add (sJq s) j))"
    using assms f by (auto simp: same_queues_def Add_def enqueued_def)
  let ?s = "s0\<lparr>sJq := snd (Add (sJq s) j)\<rparr>"
  have "Work env evs s j w = unqueue j1 (work_cache env ?s j1 start w1)"
    using b add by (simp add: Work_def unqueue_def)
  moreover have "work_begin s j w = (start, ?s\<lparr>sJq := sJq s\<rparr>, j1, w1)"
    using b f by (simp add: same_queues_def)
  ultimately show ?thesis
    using f by (elim that) (simp_all add: same_queues_def)
qed

lemma Work_waiter:
  assumes "enqueued (sJq s) (jID j)"
  obtains s1 j1 w1 where "Work env evs s j w = coalesce s1 j1 evs w1"
    and "same_queues s s1" and "same_job j j1" and "root w1 = root w" and "faults w1 = faults w"
    and "dockerd w1 = dockerd w"
proof -
  obtain start s0 j1 w1 where b: "work_begin s j w = (start, s0, j1, w1)" by (metis prod_cases4)
  note f = work_begin_sel [OF b]
  have "jID j1 = jID j" using f same_job_sel(1) by blast
  then have add: "Add (sJq s0) j1 = (False, sJq s0)"
    using assms f by (auto simp: same_queues_def Add_def enqueued_def)
  show ?thesis
    by (rule that [of s0 j1 w1]) (use b f add in \<open>auto simp: Work_def\<close>)
qed

section \<open>Locks and queues\<close>

lemma Work_gives_back:
  assumes "Work env evs s j w = Ret (r, s', j', w')"
  shows "(enqueued (sJq s') i \<longleftrightarrow> enqueued (sJq s) i) \<and> (held (sPq s') p \<longleftrightarrow> held (sPq s) p) \<and> sCfg s' = sCfg s"
proof (cases "enqueued (sJq s) (jID j)")
  case True
  then obtain s1 j1 w1 where "Work env evs s j w = coalesce s1 j1 evs w1" "same_queues s s1"
    by (rule Work_waiter)
  with assms show ?thesis
    using coalesce_server [of s1 j1 evs w1 r s' j' w'] by (simp add: same_queues_def)
next
  case False
  then obtain start s1 j1 w1 where W:
      "Work env evs s j w = unqueue j1 (work_cache env s1 j1 start w1)"
    and f: "sCfg s1 = sCfg s" "sPq s1 = sPq s" "sJq s1 = snd (Add (sJq s) j)" "same_job j j1"
    by (rule Work_builder)
  obtain s2 where s2: "work_cache env s1 j1 start w1 = Ret (r, s2, j', w')"
      "s' = s2\<lparr>sJq := Delete (sJq s2) j1\<rparr>"
    using assms W by (auto simp: unqueue_Ret)
  have "jID j1 = jID j" using f(4) same_job_sel(1) by blast
  then have "enqueued (Delete (snd (Add (sJq s) j)) j1) i \<longleftrightarrow> enqueued (sJq s) i"
    using False by (auto simp: jq.taken_release jq.taken_claim)
  with work_cache_locks [OF s2(1)] f s2(2) show ?thesis by (auto simp: same_locks_def)
qed

lemma Work_completes:
  assumes "\<not> enqueued (sJq s) (jID j)" and "\<not> held (sPq s) (jProject j)"
    and "info_not_null (jReadyBuildPath j) (root w)"
  shows "\<exists>r s' j' w'. Work env evs s j w = Ret (r, s', j', w')"
proof -
  obtain start s1 j1 w1 where W:
      "Work env evs s j w = unqueue j1 (work_cache env s1 j1 start w1)"
    and f: "sPq s1 = sPq s" "same_job j j1" "root w1 = root w"
    using assms(1) by (rule Work_builder)
  have "\<not> held (sPq s1) (jProject j1)" "info_not_null (jReadyBuildPath j1) (root w1)"
    using assms(2,3) f same_job_sel(2,7) [OF f(2)] by simp_all
  then obtain x where "work_cache env s1 j1 start w1 = Ret x" using work_cache_runs by blast
  then show ?thesis using W by (cases x) (auto simp: unqueue_def)
qed

section \<open>A fresh build\<close>

text \<open>What the build information says of the request, for a build that was neither cached nor coalesced.\<close>

definition job_request ::
  "Job \<Rightarrow> Params \<times> string \<times> string \<times> string \<times> int \<times> TransportMethod \<times> bool \<times> bool" where
  "job_request j = (jParams j, jGroup j, path_string (jReadyBuildPath j @ [''data'', ''artifacts'']),
     getJobURL j, jStartedAt j, Rsync_method, False, False)"

lemma work_begin_info:
  assumes "work_begin s j w = (start, s', j', w')"
  shows "bErrBuild (jBuildInfo j') = []" "request_of (jBuildInfo j') = job_request j"
    "sMetrics s' = map_option (RecordBuildStarted (jProject j)) (sMetrics s)" "\<not> bIncremental (jBuildInfo j')"
    "bExitCode (jBuildInfo j') = ContainerPendingExitCode"
  using assms by (auto simp: work_begin_def Let_def NewBuildInfo_def zero_BuildInfo_def request_of_def
      job_request_def split: prod.splits)

lemma finished_same_job: "same_job j j' \<Longrightarrow> finished j' l bi r r' = finished j l bi r r'"
  by (simp add: finished_def same_job_sel same_job_link_dir project_dirs_def cong: if_cong)

lemma same_job_pre:
  assumes "same_job j j'" and "sCfg s' = sCfg s"
  shows "plain_params j' = plain_params j" "buildable s' j' r = buildable s j r"
    "has_base env j' r = has_base env j r" "layout j' r = layout j r"
  using assms(2)
  by (simp_all add: plain_params_def buildable_def has_base_def no_base_def based_on_def layout_def
      same_job_sel [OF assms(1)])

text \<open>The hypotheses under which a build is followed through.\<close>

definition can_build :: "'d env \<Rightarrow> 'd Server \<Rightarrow> Job \<Rightarrow> node \<Rightarrow> bool" where
  "can_build env s j r \<longleftrightarrow>
     keeps_mounts env \<and> cMounts (sCfg s) = [] \<and> cFileSystem (sCfg s) = PlainFS env \<and>
     wf_job j \<and> plain_params j \<and> buildable s j r \<and> has_base env j r \<and> \<not> held (sPq s) (jProject j)"

lemma same_job_can_build:
  assumes "same_job j j'" and "sCfg s' = sCfg s" and "sPq s' = sPq s"
  shows "can_build env s' j' r = can_build env s j r"
  using assms(2,3)
  by (simp add: can_build_def same_job_pre [OF assms(1,2)] same_job_wf [OF assms(1)] same_job_sel(2) [OF assms(1)])

lemma work_fresh_builds:
  assumes "can_build env s j (root w)" and "quiet w" and "lookup (root w) (jReadyBuildPath j) = None"
  shows "\<exists>bi err s' j' w'. work_fresh env s j start w = Ret ((Some bi, err), s', j', w') \<and> quiet w' \<and>
           finished j (err = None \<and> bExitCode bi = 0) bi (root w) (root w') \<and>
           bErrBuild bi = (case err of None \<Rightarrow> bErrBuild (jBuildInfo j) | Some e \<Rightarrow> Error e) \<and>
           request_of bi = request_of (jBuildInfo j) \<and>
           (docker_ends env failed code \<longrightarrow> (err \<noteq> None \<longleftrightarrow> failed) \<and> bExitCode bi = code) \<and>
           (keeps_dirs env \<longrightarrow> base_at (jReadyBuildPath j) (root w')) \<and>
           bIncremental bi = (bIncremental (jBuildInfo j) \<or> \<not> no_base j (root w))"
  using assms by (intro work_fresh_ok) (simp_all add: can_build_def)

lemma Work_builds:
  assumes "can_build env s j (root w)" and "quiet w" and "\<not> enqueued (sJq s) (jID j)"
    and "lookup (root w) (jReadyBuildPath j) = None"
  shows "\<exists>bi err s' j' w'. Work env evs s j w = Ret ((Some bi, err), s', j', w') \<and> quiet w' \<and>
           finished j (err = None \<and> bExitCode bi = 0) bi (root w) (root w') \<and>
           bErrBuild bi = (case err of None \<Rightarrow> [] | Some e \<Rightarrow> Error e) \<and> request_of bi = job_request j \<and>
           (docker_ends env failed code \<longrightarrow> (err \<noteq> None \<longleftrightarrow> failed) \<and> bExitCode bi = code) \<and>
           (keeps_dirs env \<longrightarrow> base_at (jReadyBuildPath j) (root w')) \<and> (bIncremental bi \<longleftrightarrow> \<not> no_base j (root w))"
proof -
  obtain start s1 j1 w1 where W: "Work env evs s j w = unqueue j1 (work_cache env s1 j1 start w1)"
    and b: "work_begin s j w = (start, s1\<lparr>sJq := sJq s\<rparr>, j1, w1)"
    and f: "sCfg s1 = sCfg s" "sPq s1 = sPq s" "same_job j j1" "root w1 = root w" "faults w1 = faults w"
    using assms(3) by (rule Work_builder)
  note sel = same_job_sel [OF f(3)]
  have "os_Stat (jReadyBuildPath j1) w1 = (Inl (PathError ''stat'' (jReadyBuildPath j1) ENOENT), w1)"
    by (rule os_Stat_ready_missing)
      (use assms f same_job_wf [OF f(3)] same_job_pre [OF f(3,1)] sel in \<open>simp_all add: can_build_def buildable_def\<close>)
  then have c: "work_cache env s1 j1 start w1 = work_fresh env s1 j1 start w1"
    by (simp add: work_cache_def)
  have "\<exists>bi err s' j' w'. work_fresh env s1 j1 start w1 = Ret ((Some bi, err), s', j', w') \<and> quiet w' \<and>
           finished j1 (err = None \<and> bExitCode bi = 0) bi (root w1) (root w') \<and>
           bErrBuild bi = (case err of None \<Rightarrow> bErrBuild (jBuildInfo j1) | Some e \<Rightarrow> Error e) \<and>
           request_of bi = request_of (jBuildInfo j1) \<and>
           (docker_ends env failed code \<longrightarrow> (err \<noteq> None \<longleftrightarrow> failed) \<and> bExitCode bi = code) \<and>
           (keeps_dirs env \<longrightarrow> base_at (jReadyBuildPath j1) (root w')) \<and>
           bIncremental bi = (bIncremental (jBuildInfo j1) \<or> \<not> no_base j1 (root w1))"
    by (rule work_fresh_builds) (use assms f sel same_job_can_build [OF f(3,1,2)] in simp_all)
  then obtain bi err s' j' w' where r: "work_fresh env s1 j1 start w1 = Ret ((Some bi, err), s', j', w')"
      "quiet w'" "finished j (err = None \<and> bExitCode bi = 0) bi (root w) (root w')"
      "bErrBuild bi = (case err of None \<Rightarrow> [] | Some e \<Rightarrow> Error e)" "request_of bi = job_request j"
      "docker_ends env failed code \<longrightarrow> (err \<noteq> None \<longleftrightarrow> failed) \<and> bExitCode bi = code"
      "keeps_dirs env \<longrightarrow> base_at (jReadyBuildPath j1) (root w')"
      "bIncremental bi = (bIncremental (jBuildInfo j1) \<or> \<not> no_base j1 (root w))"
    unfolding finished_same_job [OF f(3)] f(4) work_begin_info(1,2) [OF b] by blast
  have "no_base j1 (root w) = no_base j (root w)" "\<not> bIncremental (jBuildInfo j1)"
    using sel work_begin_info(4) [OF b] by (simp_all add: no_base_def)
  then have base: "keeps_dirs env \<longrightarrow> base_at (jReadyBuildPath j) (root w')" "bIncremental bi \<longleftrightarrow> \<not> no_base j (root w)"
    using r(7,8) sel by simp_all
  have "Work env evs s j w = Ret ((Some bi, err), s'\<lparr>sJq := Delete (sJq s') j1\<rparr>, j', w')"
    using W c r(1) by (simp add: unqueue_def)
  with r(2-6) base show ?thesis by blast
qed

text \<open>
  C8. A job that is not being built, has no result yet and can be bootstrapped is built, and
  \<open>Work\<close> returns whatever the Docker daemon answers. Afterwards the pending directory is gone;
  the ready directory holds the data directory, the log and exactly the returned build
  information (without the logs), which describes the request and records the returned error, if
  any; the latest
  link of the project or group points at the new build if there was no error and the container
  exited with 0, and is as before otherwise; and no other path of the file system has changed.
  The build may start from an empty directory or from a copy of the group's latest build.
\<close>

theorem Work_fresh_build:
  assumes "can_build env s j (root w)" and "quiet w" and "\<not> enqueued (sJq s) (jID j)"
    and "lookup (root w) (jReadyBuildPath j) = None"
  shows "\<exists>bi err s' j' w'. Work env evs s j w = Ret ((Some bi, err), s', j', w') \<and>
           finished j (err = None \<and> bExitCode bi = 0) bi (root w) (root w') \<and>
           bErrBuild bi = (case err of None \<Rightarrow> [] | Some e \<Rightarrow> Error e) \<and> request_of bi = job_request j"
  using Work_builds [OF assms] by blast

lemma demo_can_build: "can_build (demo_env 0) demo_server (demo_job []) demo_tree"
  by (simp add: can_build_def demo_facts)

theorem Work_fresh_build_witness:
  "can_build (demo_env 0) demo_server (demo_job []) demo_tree \<and>
   (\<exists>bi err s' j' w'.
      Work (demo_env 0) [] demo_server (demo_job []) (demo_world demo_tree) = Ret ((Some bi, err), s', j', w') \<and>
      finished (demo_job []) (err = None \<and> bExitCode bi = 0) bi demo_tree (root w'))"
  using Work_fresh_build [of "demo_env 0" demo_server "demo_job []" "demo_world demo_tree" "[]"]
    demo_can_build demo_not_ready by fastforce

section \<open>The result cache\<close>

text \<open>A finished build on disk: its build information and its log.\<close>

definition stored :: "path \<Rightarrow> BuildInfo \<Rightarrow> content \<Rightarrow> node \<Rightarrow> bool" where
  "stored p bi c r \<longleftrightarrow>
     lookup r (p @ [''build_info.json'']) = Some (File (Doc (marshal_BuildInfo bi))) \<and>
     lookup r (p @ [''out.log'']) = Some (File c) \<and> distinct (map fst (bParams bi))"

text \<open>What reading it back yields: the parameters in key order and, on request, the log.\<close>

definition read_back :: "BuildInfo \<Rightarrow> content \<Rightarrow> BuildInfo" where
  "read_back bi c = bi\<lparr>bParams := sort_key fst (bParams bi), bContainerStdouterr := bytes_of c\<rparr>"

lemma marshal_not_null [simp]: "marshal_BuildInfo bi \<noteq> JNull"
  by (simp add: marshal_BuildInfo_def)

lemma decoded_new:
  assumes "NewBuildInfo w = (target, w')"
  shows "decoded target bi = bi\<lparr>bParams := sort_key fst (bParams bi)\<rparr>" "bParams target = []"
  using assms by (auto simp: NewBuildInfo_def zero_BuildInfo_def decoded_def Let_def split: prod.splits)

lemma ReadJobBuildInfo_stored:
  assumes "quiet w" and "stored p bi c (root w)"
  shows "\<exists>w'. ReadJobBuildInfo p True w = Ret (Inr (Some (read_back bi c)), w') \<and>
           root w' = root w \<and> quiet w' \<and> dockerd w' = dockerd w"
    and "\<exists>w'. ReadJobBuildInfo p False w = Ret (Inr (Some (bi\<lparr>bParams := sort_key fst (bParams bi)\<rparr>)), w') \<and>
           root w' = root w \<and> quiet w' \<and> dockerd w' = dockerd w"
proof -
  obtain t w1 where n: "NewBuildInfo w = (t, w1)" by force
  note f = NewBuildInfo_frame [OF n]
  have "os_ReadFile (p @ [''build_info.json'']) w1 = (Inr (Doc (marshal_BuildInfo bi)), w1)"
    "os_ReadFile (p @ [''out.log'']) w1 = (Inr c, w1)"
    using assms f by (simp_all add: stored_def os_simps)
  moreover have "unmarshal_BuildInfo (Doc (marshal_BuildInfo bi)) t = Inr (bi\<lparr>bParams := sort_key fst (bParams bi)\<rparr>)"
    using unmarshal_marshal_BuildInfo [of bi t] decoded_new [OF n] assms(2) by (simp add: stored_def)
  ultimately show "\<exists>w'. ReadJobBuildInfo p True w = Ret (Inr (Some (read_back bi c)), w') \<and>
           root w' = root w \<and> quiet w' \<and> dockerd w' = dockerd w"
    and "\<exists>w'. ReadJobBuildInfo p False w = Ret (Inr (Some (bi\<lparr>bParams := sort_key fst (bParams bi)\<rparr>)), w') \<and>
           root w' = root w \<and> quiet w' \<and> dockerd w' = dockerd w"
    using n f assms(1)
    by (simp_all add: ReadJobBuildInfo_def ReadJobLogs_def BuildLogPath_def read_back_def)
qed

lemma stored_dir: "stored p bi c r \<Longrightarrow> \<exists>es. lookup r p = Some (Dir es)"
  using lookup_snoc_dir [of r p "''out.log''"] by (auto simp: stored_def is_dir_iff)

lemma Work_hits:
  assumes "quiet w" and "\<not> enqueued (sJq s) (jID j)" and "stored (jReadyBuildPath j) bi c (root w)"
    and "bExitCode bi = 0"
  shows "\<exists>s' j' w'. Work env evs s j w = Ret ((Some ((read_back bi c)\<lparr>bCached := True\<rparr>), None), s', j', w') \<and>
           root w' = root w \<and> dockerd w' = dockerd w \<and> quiet w' \<and>
           sMetrics s' = map_option (RecordCacheUtilization (jProject j) \<circ> RecordBuildStarted (jProject j)) (sMetrics s)"
proof -
  obtain start s1 j1 w1 where W: "Work env evs s j w = unqueue j1 (work_cache env s1 j1 start w1)"
    and b: "work_begin s j w = (start, s1\<lparr>sJq := sJq s\<rparr>, j1, w1)"
    and f: "same_job j j1" "root w1 = root w" "faults w1 = faults w" "dockerd w1 = dockerd w"
    using assms(2) by (rule Work_builder)
  note sel = same_job_sel [OF f(1)]
  obtain es where "lookup (root w) (jReadyBuildPath j) = Some (Dir es)"
    using stored_dir [OF assms(3)] by blast
  then have st: "os_Stat (jReadyBuildPath j) w1 = (Inr (Dir es), w1)"
    using assms(1) f by (simp add: os_simps)
  obtain w2 where r: "ReadJobBuildInfo (jReadyBuildPath j) True w1 = Ret (Inr (Some (read_back bi c)), w2)"
      "root w2 = root w" "quiet w2" "dockerd w2 = dockerd w"
    using ReadJobBuildInfo_stored(1) [of w1 "jReadyBuildPath j" bi c] assms(1,3) f by auto
  have "work_cache env s1 j1 start w1 =
      Ret ((Some ((read_back bi c)\<lparr>bCached := True\<rparr>), None), record_metrics (RecordCacheUtilization (jProject j)) s1, j1, w2)"
    using st r(1) assms(4) sel by (simp add: work_cache_def read_back_def)
  then show ?thesis
    using W r(2-4) work_begin_info(3) [OF b] by (simp add: unqueue_def option.map_comp)
qed

text \<open>
  When the ready directory holds a successful build, \<open>Work\<close> answers from it: it returns the
  stored build information with the stored log and the mark \<open>Cached\<close>, runs no Docker call, leaves
  the file system as it is, and counts a cache hit.
\<close>

theorem Work_cache_hit:
  assumes "quiet w" and "\<not> enqueued (sJq s) (jID j)" and "stored (jReadyBuildPath j) bi c (root w)"
    and "bExitCode bi = 0"
  shows "\<exists>s' j' w'. Work env evs s j w =
             Ret ((Some (bi\<lparr>bParams := sort_key fst (bParams bi), bContainerStdouterr := bytes_of c, bCached := True\<rparr>), None),
                  s', j', w') \<and>
           root w' = root w \<and> dockerd w' = dockerd w \<and>
           sMetrics s' = map_option (RecordCacheUtilization (jProject j) \<circ> RecordBuildStarted (jProject j)) (sMetrics s)"
  using Work_hits [OF assms, of env evs] unfolding read_back_def by auto

definition demo_info :: "int \<Rightarrow> BuildInfo" where
  "demo_info code = zero_BuildInfo\<lparr>bParams := [(''b'', ''2''), (''a'', ''1'')], bExitCode := code\<rparr>"

definition demo_built :: "int \<Rightarrow> node" where
  "demo_built code = Dir
     [(''projects'', Dir [(''app'', demo_project)]),
      (''build'', Dir [(''app'', Dir [(''pending'', Dir []), (''ready'', Dir [(''abcdef01'', Dir
         [(''data'', Dir []), (''out.log'', File (Text ''log'')),
          (''build_info.json'', File (Doc (marshal_BuildInfo (demo_info code))))])])])])]"

lemma demo_stored: "stored (jReadyBuildPath (demo_job [])) (demo_info code) (Text ''log'') (demo_built code)"
  by (simp add: stored_def demo_built_def demo_info_def)

theorem Work_cache_hit_witness:
  "\<exists>s' j' w'. Work (demo_env 0) [] demo_server (demo_job []) (demo_world (demo_built 0)) =
      Ret ((Some ((demo_info 0)\<lparr>bParams := sort_key fst (bParams (demo_info 0)),
              bContainerStdouterr := bytes_of (Text ''log''), bCached := True\<rparr>), None), s', j', w') \<and>
      root w' = demo_built 0 \<and> dockerd w' = 0"
  using Work_cache_hit [of "demo_world (demo_built 0)" demo_server "demo_job []" "demo_info 0" "Text ''log''"
      "demo_env 0" "[]"] demo_stored [of 0]
  by (fastforce simp: demo_info_def)

section \<open>Build once, serve often\<close>

lemma finished_stored:
  assumes "finished j l bi r r'" and "distinct (map fst (bParams bi))"
  shows "\<exists>c. stored (jReadyBuildPath j) (without_logs bi) c r'"
  using assms by (auto simp: finished_def stored_def without_logs_def)

text \<open>
  C9. A build and a later request for the same job: if the first call of \<open>Work\<close> was a fresh
  build without error whose container exited with 0, the second call, in the state the first one
  left and before any other change, is a cache hit. It returns the same build information
  (parameters in key order, log from the log file, no separate error log) marked as cached,
  makes no Docker call, and leaves the file system unchanged.
\<close>

theorem Work_build_then_hit:
  assumes "can_build env s j (root w)" and "quiet w" and "\<not> enqueued (sJq s) (jID j)"
    and "lookup (root w) (jReadyBuildPath j) = None"
    and "Work env evs s j w = Ret ((Some bi, None), s', j', w')" and "bExitCode bi = 0"
  shows "\<exists>lg s'' j'' w''. Work env evs' s' j w' =
             Ret ((Some (bi\<lparr>bParams := sort_key fst (bParams bi), bContainerStdouterr := lg,
                     bContainerStderr := [], bCached := True\<rparr>), None), s'', j'', w'') \<and>
           root w'' = root w' \<and> dockerd w'' = dockerd w'"
proof -
  have f: "finished j (None = (None :: goerr option) \<and> bExitCode bi = 0) bi (root w) (root w')" "quiet w'"
      "request_of bi = job_request j"
    using Work_builds [OF assms(1-4), of evs] assms(5) by auto
  have "bParams bi = jParams j" using f(3) by (simp add: request_of_def job_request_def)
  moreover have "distinct (map fst (jParams j))"
    using assms(1) by (simp add: can_build_def wf_job_def)
  ultimately obtain c where c: "stored (jReadyBuildPath j) (without_logs bi) c (root w')"
    using finished_stored [OF f(1)] by auto
  have "\<not> enqueued (sJq s') (jID j)"
    using Work_gives_back [OF assms(5)] assms(3) by blast
  moreover have "bExitCode (without_logs bi) = 0" using assms(6) by (simp add: without_logs_def)
  moreover have "(read_back (without_logs bi) c)\<lparr>bCached := True\<rparr> =
      bi\<lparr>bParams := sort_key fst (bParams bi), bContainerStdouterr := bytes_of c, bContainerStderr := [], bCached := True\<rparr>"
    by (simp add: without_logs_def read_back_def)
  ultimately show ?thesis
    using Work_hits [OF f(2) _ c, of s' env evs'] by metis
qed

text \<open>The demonstration build, run to its end.\<close>

lemma demo_build_succeeds:
  "\<exists>bi s' j' w'. Work (demo_env 0) [] demo_server (demo_job []) (demo_world demo_tree) =
     Ret ((Some bi, None), s', j', w') \<and> bExitCode bi = 0"
  using Work_builds [of "demo_env 0" demo_server "demo_job []" "demo_world demo_tree" "[]" False 0]
    demo_can_build demo_not_ready demo_docker_ends [of 0] by fastforce

theorem Work_build_then_hit_witness:
  "\<exists>bi s' j' w' lg s'' j'' w''.
     Work (demo_env 0) [] demo_server (demo_job []) (demo_world demo_tree) = Ret ((Some bi, None), s', j', w') \<and>
     Work (demo_env 0) [] s' (demo_job []) w' =
       Ret ((Some (bi\<lparr>bParams := sort_key fst (bParams bi), bContainerStdouterr := lg,
               bContainerStderr := [], bCached := True\<rparr>), None), s'', j'', w'') \<and>
     root w'' = root w' \<and> dockerd w'' = dockerd w'"
proof -
  obtain bi s' j' w' where b:
    "Work (demo_env 0) [] demo_server (demo_job []) (demo_world demo_tree) = Ret ((Some bi, None), s', j', w')"
    "bExitCode bi = 0"
    using demo_build_succeeds by blast
  show ?thesis
    using Work_build_then_hit [OF _ _ _ _ b, of "[]"] demo_can_build demo_not_ready b(1) by fastforce
qed

section \<open>Taking and giving back\<close>

text \<open>
  C17. Whenever \<open>Work\<close> returns, under any faults of the operating system and any answers of the
  Docker daemon, the job queue and the project mutexes are as they were before: the job's own
  entry and every mutex that was taken have been given back.
\<close>

theorem Work_releases:
  assumes "Work env evs s j w = Ret (r, s', j', w')"
  shows "(\<forall>i. enqueued (sJq s') i \<longleftrightarrow> enqueued (sJq s) i) \<and> (\<forall>p. held (sPq s') p \<longleftrightarrow> held (sPq s) p)"
  using Work_gives_back [OF assms] by blast

theorem Work_releases_witness:
  "\<exists>r s' j' w'. Work (demo_env 1) [] demo_server (demo_job []) (demo_world demo_tree) = Ret (r, s', j', w') \<and>
     (\<forall>i. \<not> enqueued (sJq s') i) \<and> (\<forall>p. \<not> held (sPq s') p)"
proof -
  have "info_not_null (jReadyBuildPath (demo_job [])) (root (demo_world demo_tree))"
    by code_simp
  then obtain r s' j' w' where
    "Work (demo_env 1) [] demo_server (demo_job []) (demo_world demo_tree) = Ret (r, s', j', w')"
    using Work_completes [of demo_server "demo_job []"] demo_server_sel by blast
  then show ?thesis using Work_releases by fastforce
qed

text \<open>
  C16. \<open>Work\<close> always returns (it neither blocks forever nor panics) for a job that nobody else is
  building and whose project mutex is free, under any faults of the operating system and any
  answers of the Docker daemon, unless the stored build information is the JSON document \<open>null\<close>.
\<close>

theorem Work_returns:
  assumes "\<not> enqueued (sJq s) (jID j)" and "\<not> held (sPq s) (jProject j)"
    and "info_not_null (jReadyBuildPath j) (root w)"
  shows "\<exists>r. Work env evs s j w = Ret r"
  using Work_completes [OF assms] by blast

theorem Work_returns_witness:
  "\<exists>r. Work (demo_env 1) [] demo_server (demo_job []) ((demo_world demo_tree)\<lparr>faults := [None, Some EIO]\<rparr>) = Ret r"
proof -
  have "info_not_null (jReadyBuildPath (demo_job [])) (root ((demo_world demo_tree)\<lparr>faults := [None, Some EIO]\<rparr>))"
    by code_simp
  then show ?thesis using Work_returns demo_server_sel by blast
qed

text \<open>
  The stored document \<open>null\<close> makes \<open>Work\<close> panic: \<open>ReadJobBuildInfo\<close> hands the decoder the
  address of its pointer, which the document sets to nil, and the next access dereferences it.
\<close>

theorem Work_null_info_panics:
  assumes "quiet w" and "\<not> enqueued (sJq s) (jID j)"
    and "lookup (root w) (jReadyBuildPath j @ [''build_info.json'']) = Some (File (Doc JNull))"
    and "lookup (root w) (jReadyBuildPath j @ [''out.log'']) = Some (File c)"
  shows "Work env evs s j w = Panic ''nil pointer dereference''"
proof -
  obtain start s1 j1 w1 where W: "Work env evs s j w = unqueue j1 (work_cache env s1 j1 start w1)"
    and f: "same_job j j1" "root w1 = root w" "faults w1 = faults w"
    using assms(2) by (rule Work_builder)
  obtain es where "lookup (root w) (jReadyBuildPath j) = Some (Dir es)"
    using lookup_snoc_dir [of "root w" "jReadyBuildPath j" "''out.log''"] assms(4) by (auto simp: is_dir_iff)
  then have st: "os_Stat (jReadyBuildPath j) w1 = (Inr (Dir es), w1)"
    using assms(1) f by (simp add: os_simps)
  obtain t w2 where n: "NewBuildInfo w1 = (t, w2)" by force
  note g = NewBuildInfo_frame [OF n]
  have "os_ReadFile (jReadyBuildPath j @ [''build_info.json'']) w2 = (Inr (Doc JNull), w2)"
    "os_ReadFile (jReadyBuildPath j @ [''out.log'']) w2 = (Inr c, w2)"
    using assms f g by (simp_all add: os_simps)
  then have "ReadJobBuildInfo (jReadyBuildPath j) True w1 = Panic ''nil pointer dereference''"
    using n by (simp add: ReadJobBuildInfo_def ReadJobLogs_def BuildLogPath_def)
  then show ?thesis
    using W st same_job_sel(7) [OF f(1)] by (simp add: work_cache_def unqueue_def)
qed

definition demo_null :: node where
  "demo_null = put [''build'', ''app'', ''ready'', ''abcdef01'', ''build_info.json''] (File (Doc JNull)) (demo_built 0)"

theorem Work_null_info_panics_witness:
  "Work (demo_env 0) [] demo_server (demo_job []) (demo_world demo_null) = Panic ''nil pointer dereference''"
proof -
  have "lookup demo_null (jReadyBuildPath (demo_job []) @ [''build_info.json'']) = Some (File (Doc JNull))"
    "lookup demo_null (jReadyBuildPath (demo_job []) @ [''out.log'']) = Some (File (Text ''log''))"
    by (simp_all add: demo_null_def demo_built_def)
  then show ?thesis
    using Work_null_info_panics [of "demo_world demo_null" demo_server "demo_job []"] by simp
qed

section \<open>The exit code\<close>

text \<open>
  C15. With a Docker daemon that answers every call, a fresh build ends without an error and
  reports the exit code of the container, whatever it is; the same code is in the persisted
  build information; and the latest link is moved to the new build exactly if the code is 0.
\<close>

theorem Work_exit_code:
  assumes "can_build env s j (root w)" and "quiet w" and "\<not> enqueued (sJq s) (jID j)"
    and "lookup (root w) (jReadyBuildPath j) = None" and "docker_ends env False code"
  shows "\<exists>bi s' j' w'. Work env evs s j w = Ret ((Some bi, None), s', j', w') \<and>
           bExitCode bi = code \<and> bErrBuild bi = [] \<and>
           lookup (root w') (jReadyBuildPath j @ [''build_info.json'']) =
             Some (File (Doc (marshal_BuildInfo (bi\<lparr>bContainerStdouterr := [], bContainerStderr := []\<rparr>)))) \<and>
           lookup (root w') (jLatestBuildPath j) =
             (if code = 0 then Some (Symlink (jReadyBuildPath j)) else lookup (root w) (jLatestBuildPath j))"
  using Work_builds [OF assms(1-4), of evs False code] assms(5)
  by (fastforce simp: finished_def without_logs_def)

theorem Work_exit_code_witness:
  "\<exists>bi s' j' w'. Work (demo_env 0) [] demo_server (demo_job []) (demo_world demo_tree) = Ret ((Some bi, None), s', j', w') \<and>
     bExitCode bi = 0 \<and>
     lookup (root w') [''build'', ''app'', ''latest''] = Some (Symlink [''build'', ''app'', ''ready'', ''abcdef01''])"
  using Work_exit_code [of "demo_env 0" demo_server "demo_job []" "demo_world demo_tree" 0 "[]"]
    demo_can_build demo_not_ready demo_docker_ends [of 0]
  by (fastforce simp: demo_job_def latest_path_def)

end
