(* ===== verification/Pool.thy ===== *)
theory Pool
  imports Work_Props
begin

text \<open>
  The file \<open>cmd/mistryd/worker_pool.go\<close>: a fixed number of workers that take work items from a
  buffered channel. The pool is a state machine: every channel operation of the server and of
  the workers is one event, and a sequence of events is an interleaving. A worker is on its way to the next
  receive (\<open>Idle\<close>), blocked in it (\<open>Waiting\<close>), performing an item, or has returned. What \<open>Work\<close>
  returns is part of the event that ends an item.
\<close>

section \<open>Data\<close>

record WorkResult =
  wrBuildInfo :: "BuildInfo option"
  wrErr :: "goerr option"

record workItem =
  wiJob :: Job
  wiResult :: nat

text \<open>A result channel has room for one value; channels are named by their allocation order.\<close>

record result_chan =
  rcBuf :: "WorkResult option"
  rcClosed :: bool

datatype wstate = Idle | Waiting | Busy workItem | Exited

record WorkerPool =
  pConcurrency :: int
  pBacklogSize :: int
  pQueue :: "workItem list"
  pClosed :: bool
  pWaiters :: "nat list"
  pWorkers :: "wstate list"
  pWg :: nat
  pChans :: "result_chan list"

section \<open>Operations\<close>

text \<open>\<open>make(chan workItem, backlog)\<close> panics on a negative size.\<close>

definition NewWorkerPool :: "int \<Rightarrow> int \<Rightarrow> WorkerPool outcome" where
  "NewWorkerPool concurrency backlog =
     (if backlog < 0 then Panic ''makechan: size out of range''
      else Ret \<lparr>pConcurrency = concurrency, pBacklogSize = backlog, pQueue = [], pClosed = False,
             pWaiters = [], pWorkers = replicate (nat concurrency) Idle, pWg = nat concurrency, pChans = []\<rparr>)"

text \<open>
  A send hands the item to the worker that waits longest, or else stores it if there is room.
  The future is the number of the result channel.
\<close>

definition SendWork :: "WorkerPool \<Rightarrow> Job \<Rightarrow> ((nat \<times> goerr option) \<times> WorkerPool) outcome" where
  "SendWork p j =
     (let n = length (pChans p);
          wi = \<lparr>wiJob = j, wiResult = n\<rparr>;
          p = p\<lparr>pChans := pChans p @ [\<lparr>rcBuf = None, rcClosed = False\<rparr>]\<rparr>
      in if pClosed p then Panic ''send on closed channel''
         else case pWaiters p of
           i # ks \<Rightarrow> Ret ((n, None), p\<lparr>pWaiters := ks, pWorkers := (pWorkers p)[i := Busy wi]\<rparr>)
         | [] \<Rightarrow>
             if length (pQueue p) < nat (pBacklogSize p)
             then Ret ((n, None), p\<lparr>pQueue := pQueue p @ [wi]\<rparr>)
             else Ret ((n, Some (ErrorString ''queue is full'')), p))"

text \<open>\<open>for item := range queue\<close>: the next receive of worker \<open>i\<close>.\<close>

definition work_receive :: "nat \<Rightarrow> WorkerPool \<Rightarrow> WorkerPool outcome" where
  "work_receive i p =
     (if i < length (pWorkers p) \<and> pWorkers p ! i = Idle then
        (case pQueue p of
           item # rest \<Rightarrow> Ret (p\<lparr>pQueue := rest, pWorkers := (pWorkers p)[i := Busy item]\<rparr>)
         | [] \<Rightarrow>
             if pClosed p then Ret (p\<lparr>pWorkers := (pWorkers p)[i := Exited], pWg := pWg p - 1\<rparr>)
             else Ret (p\<lparr>pWaiters := pWaiters p @ [i], pWorkers := (pWorkers p)[i := Waiting]\<rparr>))
      else Blocked)"

text \<open>Worker \<open>i\<close> has performed its item: send the result without blocking, close the channel.\<close>

definition work_finish :: "nat \<Rightarrow> WorkResult \<Rightarrow> WorkerPool \<Rightarrow> WorkerPool outcome" where
  "work_finish i r p =
     (if i < length (pWorkers p) then
        (case pWorkers p ! i of
           Busy item \<Rightarrow>
             (let c = pChans p ! wiResult item in
              if rcClosed c then Panic ''send on closed channel''
              else if rcBuf c \<noteq> None then Panic ''failed to write result to the result channel''
              else Ret (p\<lparr>pChans := (pChans p)[wiResult item := c\<lparr>rcBuf := Some r, rcClosed := True\<rparr>],
                     pWorkers := (pWorkers p)[i := Idle]\<rparr>))
         | _ \<Rightarrow> Blocked)
      else Blocked)"

definition FutureWorkResult_Wait :: "nat \<Rightarrow> WorkerPool \<Rightarrow> (WorkResult \<times> WorkerPool) outcome" where
  "FutureWorkResult_Wait n p =
     (case rcBuf (pChans p ! n) of
        Some r \<Rightarrow> Ret (r, p\<lparr>pChans := (pChans p)[n := (pChans p ! n)\<lparr>rcBuf := None\<rparr>]\<rparr>)
      | None \<Rightarrow> if rcClosed (pChans p ! n) then Panic ''Failed to read from result channel'' else Blocked)"

text \<open>\<open>Stop\<close> closes the queue, which wakes the waiting workers, and waits for the group.\<close>

definition Stop_close :: "WorkerPool \<Rightarrow> WorkerPool outcome" where
  "Stop_close p =
     (if pClosed p then Panic ''close of closed channel''
      else Ret (p\<lparr>pClosed := True, pWaiters := [],
             pWorkers := map (\<lambda>x. if x = Waiting then Idle else x) (pWorkers p)\<rparr>))"

definition Stop_wait :: "WorkerPool \<Rightarrow> WorkerPool outcome" where
  "Stop_wait p = (if pWg p = 0 then Ret p else Blocked)"

section \<open>Runs\<close>

datatype pool_event = Send Job | Receive nat | Finish nat WorkResult | Collect nat | Close

fun pool_step :: "pool_event \<Rightarrow> WorkerPool \<Rightarrow> WorkerPool outcome" where
  "pool_step (Send j) p = (case SendWork p j of Ret (_, p) \<Rightarrow> Ret p | Blocked \<Rightarrow> Blocked | Panic m \<Rightarrow> Panic m)"
| "pool_step (Receive i) p = work_receive i p"
| "pool_step (Finish i r) p = work_finish i r p"
| "pool_step (Collect n) p =
     (if n < length (pChans p)
      then (case FutureWorkResult_Wait n p of Ret (_, p) \<Rightarrow> Ret p | Blocked \<Rightarrow> Blocked | Panic m \<Rightarrow> Panic m)
      else Blocked)"
| "pool_step Close p = Stop_close p"

inductive reachable :: "int \<Rightarrow> int \<Rightarrow> WorkerPool \<Rightarrow> bool" for n b where
  start: "NewWorkerPool n b = Ret p \<Longrightarrow> reachable n b p"
| event: "reachable n b p \<Longrightarrow> pool_step e p = Ret p' \<Longrightarrow> reachable n b p'"

section \<open>The invariant\<close>

fun item_of :: "wstate \<Rightarrow> workItem list" where
  "item_of (Busy item) = [item]"
| "item_of _ = []"

text \<open>The items that have been accepted and not finished.\<close>

definition open_items :: "WorkerPool \<Rightarrow> workItem list" where
  "open_items p = pQueue p @ concat (map item_of (pWorkers p))"

definition pool_inv :: "WorkerPool \<Rightarrow> bool" where
  "pool_inv p \<longleftrightarrow>
     length (pWorkers p) = nat (pConcurrency p) \<and>
     length (pQueue p) \<le> nat (pBacklogSize p) \<and>
     distinct (map wiResult (open_items p)) \<and>
     (\<forall>x \<in> set (open_items p). wiResult x < length (pChans p) \<and>
        pChans p ! wiResult x = \<lparr>rcBuf = None, rcClosed = False\<rparr>) \<and>
     distinct (pWaiters p) \<and> set (pWaiters p) = {i. i < length (pWorkers p) \<and> pWorkers p ! i = Waiting} \<and>
     (pWaiters p \<noteq> [] \<longrightarrow> pQueue p = []) \<and>
     (pClosed p \<longrightarrow> pWaiters p = []) \<and>
     (Exited \<in> set (pWorkers p) \<longrightarrow> pClosed p \<and> pQueue p = []) \<and>
     pWg p = length (filter (\<lambda>x. x \<noteq> Exited) (pWorkers p))"

section \<open>Preservation\<close>

lemma length_filter_update:
  "i < length xs \<Longrightarrow> length (filter P (xs[i := y])) + (if P (xs ! i) then 1 else 0) =
     length (filter P xs) + (if P y then 1 else 0)"
proof (induction xs arbitrary: i)
  case (Cons x xs)
  then show ?case by (cases i) auto
qed simp

lemma items_update:
  "i < length ws \<Longrightarrow> mset (concat (map item_of (ws[i := y]))) + mset (item_of (ws ! i)) =
     mset (concat (map item_of ws)) + mset (item_of y)"
proof (induction ws arbitrary: i)
  case (Cons x ws)
  then show ?case by (cases i) (auto simp: union_ac)
qed simp

text \<open>Items with distinct result channels, all of them open and empty.\<close>

definition good_items :: "workItem multiset \<Rightarrow> result_chan list \<Rightarrow> bool" where
  "good_items M cs \<longleftrightarrow> (\<forall>n. count (image_mset wiResult M) n \<le> 1) \<and>
     (\<forall>x \<in># M. wiResult x < length cs \<and> cs ! wiResult x = \<lparr>rcBuf = None, rcClosed = False\<rparr>)"

lemma distinct_count_le: "distinct xs \<longleftrightarrow> (\<forall>n. count (mset xs) n \<le> 1)"
proof
  assume "\<forall>n. count (mset xs) n \<le> 1"
  then have "count (mset xs) n = (if n \<in> set xs then 1 else 0)" for n
    using count_greater_zero_iff [of "mset xs" n] by (auto simp: not_in_iff intro: le_antisym)
  then show "distinct xs" by (simp add: distinct_count_atmost_1)
qed (simp add: distinct_count_atmost_1)

lemma good_items_list:
  "good_items (mset xs) cs \<longleftrightarrow> distinct (map wiResult xs) \<and>
     (\<forall>x \<in> set xs. wiResult x < length cs \<and> cs ! wiResult x = \<lparr>rcBuf = None, rcClosed = False\<rparr>)"
proof -
  have "distinct (map wiResult xs) \<longleftrightarrow> (\<forall>n. count (mset (map wiResult xs)) n \<le> 1)"
    by (rule distinct_count_le)
  then show ?thesis by (simp add: good_items_def)
qed

lemma good_items_new:
  assumes "good_items M cs"
  shows "good_items (add_mset \<lparr>wiJob = j, wiResult = length cs\<rparr> M) (cs @ [\<lparr>rcBuf = None, rcClosed = False\<rparr>])"
proof -
  have "count (image_mset wiResult M) (length cs) = 0"
    using assms by (force simp: good_items_def count_eq_zero_iff)
  then show ?thesis using assms by (auto simp: good_items_def nth_append)
qed

lemma good_items_alloc: "good_items M cs \<Longrightarrow> good_items M (cs @ [c])"
  by (auto simp: good_items_def nth_append)

lemma good_items_remove:
  assumes "good_items (add_mset x M) cs"
  shows "good_items M (cs[wiResult x := c])" "cs ! wiResult x = \<lparr>rcBuf = None, rcClosed = False\<rparr>"
    "wiResult x < length cs"
proof -
  have "count (image_mset wiResult M) (wiResult x) = 0"
    using assms [unfolded good_items_def, THEN conjunct1, rule_format, of "wiResult x"] by simp
  then have "wiResult x \<noteq> wiResult y" if "y \<in># M" for y
    using that by (metis count_eq_zero_iff image_eqI set_image_mset)
  then have "cs[wiResult x := c] ! wiResult y = cs ! wiResult y" if "y \<in># M" for y
    using that by simp
  moreover have "count (image_mset wiResult M) n \<le> 1" for n
    using assms [unfolded good_items_def, THEN conjunct1, rule_format, of n] by (auto split: if_splits)
  ultimately show "good_items M (cs[wiResult x := c])"
    using assms by (simp add: good_items_def)
  show "cs ! wiResult x = \<lparr>rcBuf = None, rcClosed = False\<rparr>" "wiResult x < length cs"
    using assms by (simp_all add: good_items_def)
qed

lemma pool_inv_items: "pool_inv p \<Longrightarrow> good_items (mset (open_items p)) (pChans p)"
  by (simp add: pool_inv_def good_items_list)

text \<open>The part of the invariant that does not mention the items.\<close>

definition frame_inv :: "WorkerPool \<Rightarrow> bool" where
  "frame_inv p \<longleftrightarrow>
     length (pWorkers p) = nat (pConcurrency p) \<and> length (pQueue p) \<le> nat (pBacklogSize p) \<and>
     distinct (pWaiters p) \<and> set (pWaiters p) = {i. i < length (pWorkers p) \<and> pWorkers p ! i = Waiting} \<and>
     (pWaiters p \<noteq> [] \<longrightarrow> pQueue p = []) \<and> (pClosed p \<longrightarrow> pWaiters p = []) \<and>
     (Exited \<in> set (pWorkers p) \<longrightarrow> pClosed p \<and> pQueue p = []) \<and>
     pWg p = length (filter (\<lambda>x. x \<noteq> Exited) (pWorkers p))"

lemma pool_inv_split: "pool_inv p \<longleftrightarrow> frame_inv p \<and> good_items (mset (open_items p)) (pChans p)"
  by (auto simp: pool_inv_def frame_inv_def good_items_list)

lemma Exited_update: "Exited \<in> set (ws[i := y]) \<Longrightarrow> y \<noteq> Exited \<Longrightarrow> Exited \<in> set ws"
  using set_update_subset_insert [of ws i y] by auto

definition waiting :: "wstate list \<Rightarrow> nat set" where
  "waiting ws = {i. i < length ws \<and> ws ! i = Waiting}"

lemma waiting_update:
  "i < length ws \<Longrightarrow> waiting (ws[i := y]) = (if y = Waiting then insert i (waiting ws) else waiting ws - {i})"
  by (auto simp: waiting_def nth_list_update)

lemma frame_inv_iff:
  "frame_inv p \<longleftrightarrow>
     length (pWorkers p) = nat (pConcurrency p) \<and> length (pQueue p) \<le> nat (pBacklogSize p) \<and>
     distinct (pWaiters p) \<and> set (pWaiters p) = waiting (pWorkers p) \<and>
     (pWaiters p \<noteq> [] \<longrightarrow> pQueue p = []) \<and> (pClosed p \<longrightarrow> pWaiters p = []) \<and>
     (Exited \<in> set (pWorkers p) \<longrightarrow> pClosed p \<and> pQueue p = []) \<and>
     pWg p = length (filter (\<lambda>x. x \<noteq> Exited) (pWorkers p))"
  by (simp add: frame_inv_def waiting_def)

lemma inv_New: "NewWorkerPool n b = Ret p \<Longrightarrow> pool_inv p"
  by (auto simp: NewWorkerPool_def pool_inv_split frame_inv_def open_items_def good_items_def split: if_splits)

lemma inv_Send:
  assumes "pool_inv p" and "SendWork p j = Ret (res, p')"
  shows "pool_inv p'"
proof -
  let ?n = "length (pChans p)"
  let ?wi = "\<lparr>wiJob = j, wiResult = ?n\<rparr>"
  note good = pool_inv_items [OF assms(1)]
  have fr: "frame_inv p" using assms(1) by (simp add: pool_inv_split)
  show ?thesis
  proof (cases "pWaiters p")
    case Nil
    then show ?thesis
      using assms(2) fr good_items_new [OF good, of j] good_items_alloc [OF good]
      by (auto simp: SendWork_def Let_def pool_inv_split frame_inv_def open_items_def split: if_splits)
  next
    case (Cons i ks)
    have wt: "waiting (pWorkers p) = insert i (set ks)" "distinct ks" "i \<notin> set ks" "\<not> pClosed p" "pQueue p = []"
      using fr Cons by (simp_all add: frame_inv_iff)
    have "i \<in> waiting (pWorkers p)" by (simp add: wt(1))
    then have i: "i < length (pWorkers p)" "pWorkers p ! i = Waiting" by (simp_all add: waiting_def)
    have p': "p' = p\<lparr>pChans := pChans p @ [\<lparr>rcBuf = None, rcClosed = False\<rparr>], pWaiters := ks,
        pWorkers := (pWorkers p)[i := Busy ?wi]\<rparr>"
      using assms(2) Cons by (auto simp: SendWork_def Let_def split: if_splits)
    have "mset (open_items p') = add_mset ?wi (mset (open_items p))"
      using items_update [OF i(1), of "Busy ?wi"] i(2) wt(5) by (simp add: p' open_items_def)
    then have "good_items (mset (open_items p')) (pChans p')"
      using good_items_new [OF good, of j] by (simp add: p')
    moreover have "frame_inv p'"
    proof -
      have "set ks = waiting ((pWorkers p)[i := Busy ?wi])"
        using waiting_update [OF i(1), of "Busy ?wi"] wt(1,3) by simp
      moreover have "Exited \<notin> set ((pWorkers p)[i := Busy ?wi])"
        using fr wt(4) Exited_update [of "pWorkers p" i "Busy ?wi"] by (auto simp: frame_inv_iff)
      ultimately show ?thesis
        using fr i wt(2,4,5) length_filter_update [OF i(1), of "\<lambda>x. x \<noteq> Exited" "Busy ?wi"]
        by (simp add: p' frame_inv_iff)
    qed
    ultimately show ?thesis by (simp add: pool_inv_split)
  qed
qed

lemma inv_Receive:
  assumes "pool_inv p" and "work_receive i p = Ret p'"
  shows "pool_inv p'"
proof -
  have i: "i < length (pWorkers p)" "pWorkers p ! i = Idle"
    using assms(2) by (auto simp: work_receive_def split: if_splits)
  have fr: "frame_inv p" and good: "good_items (mset (open_items p)) (pChans p)"
    using assms(1) by (simp_all add: pool_inv_split)
  note upd = items_update [OF i(1)] waiting_update [OF i(1)] Exited_update [of "pWorkers p" i]
    length_filter_update [OF i(1), of "\<lambda>x. x \<noteq> Exited"]
  have nw: "waiting (pWorkers p) - {i} = waiting (pWorkers p)" "i \<notin> waiting (pWorkers p)"
    using i(2) by (auto simp: waiting_def)
  show ?thesis
  proof (cases "pQueue p")
    case (Cons item rest)
    have p': "p' = p\<lparr>pQueue := rest, pWorkers := (pWorkers p)[i := Busy item]\<rparr>"
      using assms(2) i Cons by (simp add: work_receive_def)
    have "mset (open_items p') = mset (open_items p)"
      using upd(1) [of "Busy item"] i(2) Cons by (simp add: p' open_items_def)
    moreover have "pWaiters p = []" "Exited \<notin> set (pWorkers p)"
      using fr Cons by (auto simp: frame_inv_iff)
    moreover have "Exited \<notin> set ((pWorkers p)[i := Busy item])"
      using calculation(3) upd(3) [of "Busy item"] by auto
    ultimately show ?thesis
      using fr good Cons i(2) nw(1) upd(2) [of "Busy item"] upd(4) [of "Busy item"]
      by (simp add: pool_inv_split frame_inv_iff p')
  next
    case Nil
    show ?thesis
    proof (cases "pClosed p")
      case True
      have p': "p' = p\<lparr>pWorkers := (pWorkers p)[i := Exited], pWg := pWg p - 1\<rparr>"
        using assms(2) i Nil True by (simp add: work_receive_def)
      have "mset (open_items p') = mset (open_items p)"
        using upd(1) [of Exited] i(2) by (simp add: p' open_items_def)
      moreover have "waiting (pWorkers p) = {}" "pWaiters p = []"
        using fr True by (auto simp: frame_inv_iff)
      moreover have "length (filter (\<lambda>x. x \<noteq> Exited) (pWorkers p)) - 1 =
          length (filter (\<lambda>x. x \<noteq> Exited) ((pWorkers p)[i := Exited]))"
        using upd(4) [of Exited] i(2) by simp
      ultimately show ?thesis
        using fr good Nil True upd(2) [of Exited]
        by (simp add: pool_inv_split frame_inv_iff p')
    next
      case False
      have p': "p' = p\<lparr>pWaiters := pWaiters p @ [i], pWorkers := (pWorkers p)[i := Waiting]\<rparr>"
        using assms(2) i Nil False by (simp add: work_receive_def)
      have "mset (open_items p') = mset (open_items p)"
        using upd(1) [of Waiting] i(2) by (simp add: p' open_items_def)
      moreover have "Exited \<notin> set ((pWorkers p)[i := Waiting])"
        using fr False upd(3) [of Waiting] by (auto simp: frame_inv_iff)
      ultimately show ?thesis
        using fr good Nil False i(2) nw(2) upd(2) [of Waiting] upd(4) [of Waiting]
        by (simp add: pool_inv_split frame_inv_iff p')
    qed
  qed
qed

lemma busy_item:
  assumes "pool_inv p" and "i < length (pWorkers p)" and "pWorkers p ! i = Busy item"
  shows "\<exists>M. mset (open_items p) = add_mset item M \<and>
           mset (open_items (p\<lparr>pChans := cs, pWorkers := (pWorkers p)[i := Idle]\<rparr>)) = M"
  using items_update [OF assms(2), of Idle] assms(3) by (simp add: open_items_def)

lemma inv_Finish:
  assumes "pool_inv p" and "work_finish i r p = Ret p'"
  shows "pool_inv p'"
proof -
  obtain item where i: "i < length (pWorkers p)" "pWorkers p ! i = Busy item"
    using assms(2) by (auto simp: work_finish_def split: if_splits wstate.splits)
  let ?c = "(pChans p ! wiResult item)\<lparr>rcBuf := Some r, rcClosed := True\<rparr>"
  have p': "p' = p\<lparr>pChans := (pChans p)[wiResult item := ?c], pWorkers := (pWorkers p)[i := Idle]\<rparr>"
    using assms(2) i by (auto simp: work_finish_def Let_def split: if_splits)
  have fr: "frame_inv p" using assms(1) by (simp add: pool_inv_split)
  obtain M where M: "mset (open_items p) = add_mset item M" "mset (open_items p') = M"
    using busy_item [OF assms(1) i, of "(pChans p)[wiResult item := ?c]"] p' by blast
  then have "good_items (mset (open_items p')) (pChans p')"
    using good_items_remove(1) [of item M "pChans p" ?c] pool_inv_items [OF assms(1)] by (simp add: p')
  moreover have "waiting (pWorkers p) - {i} = waiting (pWorkers p)"
    using i(2) by (auto simp: waiting_def)
  then have "frame_inv p'"
    using fr i waiting_update [OF i(1), of Idle] Exited_update [of "pWorkers p" i Idle]
      length_filter_update [OF i(1), of "\<lambda>x. x \<noteq> Exited" Idle]
    by (auto simp: frame_inv_iff p')
  ultimately show ?thesis by (simp add: pool_inv_split)
qed

lemma inv_Collect:
  assumes "pool_inv p" and "FutureWorkResult_Wait n p = Ret (r, p')"
  shows "pool_inv p'"
proof -
  have n: "rcBuf (pChans p ! n) = Some r"
    and p': "p' = p\<lparr>pChans := (pChans p)[n := (pChans p ! n)\<lparr>rcBuf := None\<rparr>]\<rparr>"
    using assms(2) by (auto simp: FutureWorkResult_Wait_def split: option.splits if_splits)
  have "n \<noteq> wiResult x" if "x \<in> set (open_items p)" for x
    using assms(1) n that by (auto simp: pool_inv_def)
  then have "\<forall>x \<in> set (open_items p). pChans p' ! wiResult x = pChans p ! wiResult x"
    by (simp add: p')
  moreover have "open_items p' = open_items p" "frame_inv p' = frame_inv p" "length (pChans p') = length (pChans p)"
    by (simp_all add: p' open_items_def frame_inv_def)
  ultimately show ?thesis
    using assms(1) by (simp add: pool_inv_split good_items_list)
qed

lemma inv_Close:
  assumes "pool_inv p" and "Stop_close p = Ret p'"
  shows "pool_inv p'"
proof -
  let ?f = "\<lambda>x. if x = Waiting then Idle else x"
  have p': "p' = p\<lparr>pClosed := True, pWaiters := [], pWorkers := map ?f (pWorkers p)\<rparr>" and "\<not> pClosed p"
    using assms(2) by (auto simp: Stop_close_def split: if_splits)
  have fr: "frame_inv p" using assms(1) by (simp add: pool_inv_split)
  have "concat (map (item_of \<circ> ?f) ws) = concat (map item_of ws)" for ws
    by (induction ws) auto
  then have "open_items p' = open_items p" by (simp add: p' open_items_def)
  moreover have "waiting (map ?f ws) = {}" for ws by (auto simp: waiting_def)
  moreover have "filter (\<lambda>x. x \<noteq> Exited) (map ?f ws) = map ?f (filter (\<lambda>x. x \<noteq> Exited) ws)" for ws
    by (induction ws) auto
  moreover have "Exited \<notin> set (map ?f (pWorkers p))"
    using fr \<open>\<not> pClosed p\<close> by (auto simp: frame_inv_iff split: if_splits)
  ultimately show ?thesis
    using assms(1) by (simp add: pool_inv_split frame_inv_iff p')
qed

lemma inv_step: "pool_inv p \<Longrightarrow> pool_step e p = Ret p' \<Longrightarrow> pool_inv p'"
  by (cases e) (auto split: outcome.splits if_splits
      intro: inv_Send inv_Receive inv_Finish inv_Collect inv_Close)

lemma reachable_inv: "reachable n b p \<Longrightarrow> pool_inv p"
  by (induction rule: reachable.induct) (auto intro: inv_New inv_step)

section \<open>Runs of events\<close>

fun pool_run :: "pool_event list \<Rightarrow> WorkerPool \<Rightarrow> WorkerPool outcome" where
  "pool_run [] p = Ret p"
| "pool_run (e # es) p = (case pool_step e p of Ret p' \<Rightarrow> pool_run es p' | Blocked \<Rightarrow> Blocked | Panic m \<Rightarrow> Panic m)"

lemma pool_run_Cons: "pool_run (e # es) p = Ret p'' \<longleftrightarrow> (\<exists>p'. pool_step e p = Ret p' \<and> pool_run es p' = Ret p'')"
  by (auto split: outcome.splits)

lemma pool_run_inv: "pool_inv p \<Longrightarrow> pool_run es p = Ret p' \<Longrightarrow> pool_inv p'"
proof (induction es arbitrary: p)
  case (Cons e es)
  then show ?case using inv_step by (auto simp: pool_run_Cons simp del: pool_run.simps)
qed simp

lemma step_params:
  "pool_step e p = Ret p' \<Longrightarrow> pConcurrency p' = pConcurrency p \<and> pBacklogSize p' = pBacklogSize p"
  by (cases e) (auto simp: SendWork_def work_receive_def work_finish_def FutureWorkResult_Wait_def Stop_close_def Let_def
      split: outcome.splits list.splits if_splits wstate.splits option.splits)

lemma reachable_params: "reachable n b p \<Longrightarrow> pConcurrency p = n \<and> pBacklogSize p = b"
  by (induction rule: reachable.induct) (auto simp: NewWorkerPool_def dest: step_params split: if_splits)

text \<open>
  C19. In every reachable state of the pool, the backlog holds at most as many items as configured,
  the number of workers is the configured one, and no worker can panic when it delivers a
  result: the result channel of an item that is being performed is open and empty.
\<close>

theorem pool_safe:
  assumes "reachable n b p"
  shows "length (pQueue p) \<le> nat b \<and> length (pWorkers p) = nat n \<and> (\<forall>i r m. work_finish i r p \<noteq> Panic m)"
proof -
  note inv = reachable_inv [OF assms]
  have "work_finish i r p \<noteq> Panic m" for i r m
  proof (cases "i < length (pWorkers p)")
    case True
    show ?thesis
    proof (cases "pWorkers p ! i")
      case (Busy item)
      obtain M where "mset (open_items p) = add_mset item M" using busy_item [OF inv True Busy] by blast
      then have "pChans p ! wiResult item = \<lparr>rcBuf = None, rcClosed = False\<rparr>"
        using good_items_remove(2) pool_inv_items [OF inv] by metis
      with True Busy show ?thesis by (simp add: work_finish_def)
    qed (use True in \<open>simp_all add: work_finish_def\<close>)
  qed (simp add: work_finish_def)
  then show ?thesis
    using inv reachable_params [OF assms] by (simp add: pool_inv_def)
qed

definition demo_pool :: WorkerPool where
  "demo_pool = \<lparr>pConcurrency = 1, pBacklogSize = 2, pQueue = [], pClosed = False, pWaiters = [],
     pWorkers = [Idle], pWg = 1, pChans = []\<rparr>"

lemma demo_pool_new: "NewWorkerPool 1 2 = Ret demo_pool"
  by (simp add: NewWorkerPool_def demo_pool_def)

lemma reachable_run: "reachable n b p \<Longrightarrow> pool_run es p = Ret p' \<Longrightarrow> reachable n b p'"
proof (induction es arbitrary: p)
  case (Cons e es)
  then obtain q where "pool_step e p = Ret q" "pool_run es q = Ret p'" by (auto simp: pool_run_Cons simp del: pool_run.simps)
  then show ?case using Cons.IH Cons.prems(1) reachable.event by blast
qed simp

theorem pool_safe_witness:
  "\<exists>p. pool_run [Send (demo_job []), Send (demo_job []), Receive 0] demo_pool = Ret p \<and>
     length (pQueue p) \<le> 2 \<and> (\<forall>r m. work_finish 0 r p \<noteq> Panic m)"
proof -
  obtain p where p: "pool_run [Send (demo_job []), Send (demo_job []), Receive 0] demo_pool = Ret p"
    by (simp add: SendWork_def work_receive_def demo_pool_def)
  have "reachable 1 2 p" using reachable_run [OF reachable.start [OF demo_pool_new] p] .
  with p show ?thesis using pool_safe by fastforce
qed

section \<open>Acceptance\<close>

text \<open>
  While the pool is open, \<open>SendWork\<close> neither blocks nor panics. It refuses the job exactly if
  no worker is waiting and the backlog is full, and then no item is added; otherwise exactly the
  new item, with a fresh result channel, is added to the accepted items.
\<close>

theorem SendWork_accepts:
  assumes "reachable n b p" and "\<not> pClosed p"
  shows "\<exists>err p'. SendWork p j = Ret ((length (pChans p), err), p') \<and>
     (err \<noteq> None \<longleftrightarrow> pWaiters p = [] \<and> length (pQueue p) = nat b) \<and>
     mset (open_items p') =
       (if err = None then add_mset \<lparr>wiJob = j, wiResult = length (pChans p)\<rparr> (mset (open_items p))
        else mset (open_items p))"
proof -
  have fr: "frame_inv p" using reachable_inv [OF assms(1)] by (simp add: pool_inv_split)
  have b: "pBacklogSize p = b" using reachable_params [OF assms(1)] by simp
  show ?thesis
  proof (cases "pWaiters p")
    case Nil
    then show ?thesis using assms(2) fr b by (auto simp: SendWork_def Let_def frame_inv_iff open_items_def)
  next
    case (Cons i ks)
    have "i \<in> waiting (pWorkers p)" "pQueue p = []" using fr Cons by (auto simp: frame_inv_iff)
    then have i: "i < length (pWorkers p)" "pWorkers p ! i = Waiting" by (simp_all add: waiting_def)
    then show ?thesis
      using assms(2) Cons items_update [OF i(1), of "Busy \<lparr>wiJob = j, wiResult = length (pChans p)\<rparr>"] \<open>pQueue p = []\<close>
      by (simp add: SendWork_def Let_def open_items_def)
  qed
qed

theorem SendWork_accepts_witness:
  "\<exists>err p'. SendWork demo_pool (demo_job []) = Ret ((0, err), p') \<and> err = None"
proof -
  have "reachable 1 2 demo_pool" by (rule reachable.start [OF demo_pool_new])
  then show ?thesis
    using SendWork_accepts [of 1 2 demo_pool "demo_job []"] by (auto simp: demo_pool_def)
qed

section \<open>Delivery\<close>

text \<open>A delivered result that has not been collected yet.\<close>

definition delivered :: "nat \<Rightarrow> WorkResult \<Rightarrow> WorkerPool \<Rightarrow> bool" where
  "delivered n r p \<longleftrightarrow> n < length (pChans p) \<and> pChans p ! n = \<lparr>rcBuf = Some r, rcClosed = True\<rparr>"

lemma delivered_step:
  assumes "pool_inv p" and "delivered n r p" and "pool_step e p = Ret p'" and "e \<noteq> Collect n"
  shows "delivered n r p'"
proof (cases e)
  case (Send j)
  with assms show ?thesis
    by (auto simp: SendWork_def Let_def delivered_def nth_append split: if_splits list.splits outcome.splits)
next
  case (Finish i r')
  obtain item where i: "i < length (pWorkers p)" "pWorkers p ! i = Busy item"
    using assms(3) Finish by (auto simp: work_finish_def split: if_splits wstate.splits)
  obtain M where "mset (open_items p) = add_mset item M" using busy_item [OF assms(1) i] by blast
  then have "pChans p ! wiResult item = \<lparr>rcBuf = None, rcClosed = False\<rparr>"
    using good_items_remove(2) pool_inv_items [OF assms(1)] by metis
  then have "wiResult item \<noteq> n" using assms(2) by (auto simp: delivered_def)
  with assms(2,3) Finish i show ?thesis
    by (auto simp: work_finish_def delivered_def Let_def split: if_splits)
next
  case (Collect m)
  with assms show ?thesis
    by (auto simp: FutureWorkResult_Wait_def delivered_def nth_list_update split: if_splits option.splits outcome.splits)
qed (use assms in \<open>auto simp: work_receive_def Stop_close_def delivered_def split: if_splits list.splits\<close>)

lemma delivered_run:
  "pool_inv p \<Longrightarrow> delivered n r p \<Longrightarrow> pool_run es p = Ret p' \<Longrightarrow> Collect n \<notin> set es \<Longrightarrow> delivered n r p'"
proof (induction es arbitrary: p)
  case (Cons e es)
  then obtain q where q: "pool_step e p = Ret q" "pool_run es q = Ret p'"
    by (auto simp: pool_run_Cons simp del: pool_run.simps)
  have "delivered n r q"
    by (rule delivered_step [OF Cons.prems(1,2) q(1)]) (use Cons.prems(4) in auto)
  then show ?case using Cons.IH [OF inv_step [OF Cons.prems(1) q(1)] _ q(2)] Cons.prems(4) by simp
qed simp

lemma finish_delivered:
  assumes "pool_inv p" and "i < length (pWorkers p)" and "pWorkers p ! i = Busy item" and "work_finish i r p = Ret p'"
  shows "delivered (wiResult item) r p'"
proof -
  obtain M where "mset (open_items p) = add_mset item M" using busy_item [OF assms(1-3)] by blast
  then have "wiResult item < length (pChans p)" "pChans p ! wiResult item = \<lparr>rcBuf = None, rcClosed = False\<rparr>"
    using good_items_remove(2,3) pool_inv_items [OF assms(1)] by metis+
  then show ?thesis using assms(2-4) by (auto simp: work_finish_def delivered_def)
qed

text \<open>
  C18. The future of an item yields the result of that very item: after a worker has finished
  it with the result \<open>r\<close>, and after any further events of the pool other than collecting that
  result, \<open>Wait\<close> on its future returns \<open>r\<close>, at once.
\<close>

theorem Wait_returns_result:
  assumes "reachable n b p" and "i < length (pWorkers p)" and "pWorkers p ! i = Busy item"
    and "work_finish i r p = Ret p'" and "pool_run es p' = Ret p''" and "Collect (wiResult item) \<notin> set es"
  shows "\<exists>q. FutureWorkResult_Wait (wiResult item) p'' = Ret (r, q)"
proof -
  note inv = reachable_inv [OF assms(1)]
  have "delivered (wiResult item) r p''"
    using delivered_run [OF inv_Finish [OF inv assms(4)] finish_delivered [OF inv assms(2-4)] assms(5,6)] .
  then show ?thesis by (simp add: delivered_def FutureWorkResult_Wait_def)
qed

theorem Wait_returns_result_witness:
  "\<exists>p p' p'' q. pool_run [Receive 0, Send (demo_job []), Send (demo_job [])] demo_pool = Ret p \<and>
     work_finish 0 \<lparr>wrBuildInfo = None, wrErr = None\<rparr> p = Ret p' \<and> pool_run [Receive 0, Close] p' = Ret p'' \<and>
     FutureWorkResult_Wait 0 p'' = Ret (\<lparr>wrBuildInfo = None, wrErr = None\<rparr>, q)"
proof -
  let ?r = "\<lparr>wrBuildInfo = None, wrErr = None\<rparr>" and ?wi = "\<lparr>wiJob = demo_job [], wiResult = 0\<rparr>"
  obtain p p' p'' where p: "pool_run [Receive 0, Send (demo_job []), Send (demo_job [])] demo_pool = Ret p"
      "pWorkers p = [Busy ?wi]" "work_finish 0 ?r p = Ret p'" "pool_run [Receive 0, Close] p' = Ret p''"
    by (simp add: SendWork_def work_receive_def work_finish_def Stop_close_def demo_pool_def)
  have "reachable 1 2 p" using reachable_run [OF reachable.start [OF demo_pool_new] p(1)] .
  then have "\<exists>q. FutureWorkResult_Wait (wiResult ?wi) p'' = Ret (?r, q)"
    by (rule Wait_returns_result [of 1 2 p 0 ?wi ?r p' "[Receive 0, Close]" p'']) (use p in simp_all)
  with p show ?thesis by auto
qed

section \<open>Progress\<close>

text \<open>How many steps the workers can still take without new requests.\<close>

fun weight :: "wstate \<Rightarrow> nat" where
  "weight (Busy _) = 2"
| "weight Idle = 1"
| "weight _ = 0"

definition pool_weight :: "WorkerPool \<Rightarrow> nat" where
  "pool_weight p = 3 * length (pQueue p) + sum_list (map weight (pWorkers p))"

fun by_worker :: "pool_event \<Rightarrow> bool" where
  "by_worker (Receive _) = True"
| "by_worker (Finish _ _) = True"
| "by_worker _ = False"

lemma weight_update:
  assumes "i < length ws"
  shows "sum_list (map weight (ws[i := y])) + weight (ws ! i) = sum_list (map weight ws) + weight y"
  using assms
proof (induction ws arbitrary: i)
  case (Cons x ws)
  then show ?case by (cases i) auto
qed simp

lemma worker_step_weight:
  assumes "by_worker e" and "pool_step e p = Ret p'"
  shows "pool_weight p' < pool_weight p"
proof (cases e)
  case (Receive i)
  then have i: "i < length (pWorkers p)" "pWorkers p ! i = Idle"
    using assms(2) by (auto simp: work_receive_def split: if_splits)
  show ?thesis
    using assms(2) Receive i weight_update [OF i(1), of Exited] weight_update [OF i(1), of Waiting]
      weight_update [OF i(1), of "Busy (hd (pQueue p))"]
    by (auto simp: work_receive_def pool_weight_def split: list.splits if_splits)
next
  case (Finish i r)
  then obtain item where i: "i < length (pWorkers p)" "pWorkers p ! i = Busy item"
    using assms(2) by (auto simp: work_finish_def split: if_splits wstate.splits)
  show ?thesis
    using assms(2) Finish i weight_update [OF i(1), of Idle]
    by (auto simp: work_finish_def pool_weight_def Let_def split: if_splits)
qed (use assms in auto)

lemma worker_run_weight:
  "(\<forall>e \<in> set es. by_worker e) \<Longrightarrow> pool_run es p = Ret p' \<Longrightarrow> length es + pool_weight p' \<le> pool_weight p"
proof (induction es arbitrary: p)
  case (Cons e es)
  then obtain q where "pool_step e p = Ret q" "pool_run es q = Ret p'"
    by (auto simp: pool_run_Cons simp del: pool_run.simps)
  with Cons worker_step_weight [of e p q] show ?case by fastforce
qed simp

text \<open>No worker can take a step.\<close>

definition stuck :: "WorkerPool \<Rightarrow> bool" where
  "stuck p \<longleftrightarrow> (\<forall>i < length (pWorkers p). pWorkers p ! i = Waiting \<or> pWorkers p ! i = Exited)"

lemma stuck_iff:
  assumes "reachable n b p"
  shows "stuck p \<longleftrightarrow> (\<forall>e p'. by_worker e \<longrightarrow> pool_step e p \<noteq> Ret p')"
proof
  assume "stuck p"
  then show "\<forall>e p'. by_worker e \<longrightarrow> pool_step e p \<noteq> Ret p'"
    by (intro allI impI; case_tac e) (force simp: stuck_def work_receive_def work_finish_def split: if_splits wstate.splits)+
next
  assume none: "\<forall>e p'. by_worker e \<longrightarrow> pool_step e p \<noteq> Ret p'"
  have "pWorkers p ! i = Waiting \<or> pWorkers p ! i = Exited" if i: "i < length (pWorkers p)" for i
  proof (cases "pWorkers p ! i")
    case Idle
    then have "\<exists>q. pool_step (Receive i) p = Ret q"
      using i by (cases "pQueue p") (auto simp: work_receive_def)
    then show ?thesis using none by (metis by_worker.simps(1))
  next
    case (Busy item)
    let ?r = "\<lparr>wrBuildInfo = None, wrErr = None\<rparr>"
    obtain M where "mset (open_items p) = add_mset item M" using busy_item [OF reachable_inv [OF assms] i Busy] by blast
    then have "pChans p ! wiResult item = \<lparr>rcBuf = None, rcClosed = False\<rparr>"
      using good_items_remove(2) pool_inv_items [OF reachable_inv [OF assms]] by metis
    then have "\<exists>q. pool_step (Finish i ?r) p = Ret q" using i Busy by (simp add: work_finish_def)
    then show ?thesis using none by (metis by_worker.simps(2))
  qed simp_all
  then show "stuck p" by (simp add: stuck_def)
qed

lemma stuck_empty:
  assumes "pool_inv p" and "0 < pConcurrency p" and "stuck p"
  shows "open_items p = []" "pClosed p \<Longrightarrow> pWg p = 0"
proof -
  have len: "0 < length (pWorkers p)" using assms(1,2) by (simp add: pool_inv_def)
  have st: "x = Waiting \<or> x = Exited" if "x \<in> set (pWorkers p)" for x
    using assms(3) that by (auto simp: stuck_def in_set_conv_nth)
  then have items: "concat (map item_of (pWorkers p)) = []" by fastforce
  have fr: "frame_inv p" using assms(1) by (simp add: pool_inv_split)
  obtain x where x: "x \<in> set (pWorkers p)" using len by (cases "pWorkers p") auto
  have "pQueue p = []"
  proof (cases "pWaiters p = []")
    case True
    then have "waiting (pWorkers p) = {}" using fr by (auto simp: frame_inv_iff)
    then have "Waiting \<notin> set (pWorkers p)" by (auto simp: waiting_def in_set_conv_nth)
    then have "x = Exited" using st [OF x] x by auto
    then show ?thesis using fr x by (simp add: frame_inv_iff)
  qed (use fr in \<open>simp add: frame_inv_iff\<close>)
  with items show "open_items p = []" by (simp add: open_items_def)
  assume "pClosed p"
  then have "waiting (pWorkers p) = {}" using fr by (auto simp: frame_inv_iff)
  then have "Waiting \<notin> set (pWorkers p)" by (auto simp: waiting_def in_set_conv_nth)
  then have "\<forall>x \<in> set (pWorkers p). x = Exited" using st by blast
  then show "pWg p = 0" using fr by (auto simp: frame_inv_iff filter_empty_conv)
qed

text \<open>
  C20. The pool drains. Without new requests the workers of a pool with at least one worker can
  take only finitely many steps (at most the weight of the state), whatever their order and
  whatever the results; and when no worker can take a step any more, every accepted item has been performed and its
  result delivered. If the queue has been closed, all workers have then returned, so \<open>Stop\<close>
  returns.
\<close>

theorem pool_drains:
  assumes "reachable n b p" and "0 < n" and "\<forall>e \<in> set es. by_worker e" and "pool_run es p = Ret p'"
  shows "length es \<le> pool_weight p \<and>
     ((\<forall>e q. by_worker e \<longrightarrow> pool_step e p' \<noteq> Ret q) \<longrightarrow>
        open_items p' = [] \<and> (pClosed p' \<longrightarrow> Stop_wait p' = Ret p'))"
proof -
  have "reachable n b p'" by (rule reachable_run [OF assms(1,4)])
  then have "open_items p' = [] \<and> (pClosed p' \<longrightarrow> Stop_wait p' = Ret p')"
    if "\<forall>e q. by_worker e \<longrightarrow> pool_step e p' \<noteq> Ret q"
    using stuck_empty [OF reachable_inv] stuck_iff that assms(2) reachable_params
    by (metis Stop_wait_def)
  then show ?thesis using worker_run_weight [OF assms(3,4)] by auto
qed

theorem pool_drains_witness:
  "\<exists>p p'. pool_run [Send (demo_job []), Close] demo_pool = Ret p \<and>
     pool_run [Receive 0, Finish 0 \<lparr>wrBuildInfo = None, wrErr = None\<rparr>, Receive 0] p = Ret p' \<and>
     open_items p' = [] \<and> Stop_wait p' = Ret p'"
proof -
  obtain p p' where p: "pool_run [Send (demo_job []), Close] demo_pool = Ret p"
      "pool_run [Receive 0, Finish 0 \<lparr>wrBuildInfo = None, wrErr = None\<rparr>, Receive 0] p = Ret p'"
      "stuck p'" "pClosed p'"
    by (simp add: SendWork_def work_receive_def work_finish_def Stop_close_def demo_pool_def stuck_def)
  have r: "reachable 1 2 p" using reachable_run [OF reachable.start [OF demo_pool_new] p(1)] .
  have "\<forall>e q. by_worker e \<longrightarrow> pool_step e p' \<noteq> Ret q"
    using stuck_iff [OF reachable_run [OF r p(2)]] p(3) by blast
  then show ?thesis
    using pool_drains [OF r _ _ p(2)] p by simp
qed

end
