(* ===== verification/Projects.thy ===== *)
theory Projects
  imports Work_Props
begin

text \<open>
  The functions of \<open>cmd/mistryd/server.go\<close> that scan the directories of the server: the projects
  that can be built, the pending builds that a dead server has left behind, and the list of jobs
  for the web view. The loops are recursions over the entries that \<open>ioutil.ReadDir\<close> returned;
  the functions that read build information may panic.
\<close>

section \<open>Projects\<close>

text \<open>A project is a directory that holds a Dockerfile.\<close>

fun scan_projects :: "path \<Rightarrow> (string \<times> node) list \<Rightarrow> 'd world \<Rightarrow> (goerr + string list) \<times> 'd world" where
  "scan_projects rt [] w = (Inr [], w)"
| "scan_projects rt ((name, nd) # fs) w =
     (if \<not> IsDir nd then scan_projects rt fs w
      else
        (case os_Stat (Join (Join rt name) ''Dockerfile'') w of
           (Inl err, w) \<Rightarrow> if IsNotExist err then scan_projects rt fs w else (Inl err, w)
         | (Inr _, w) \<Rightarrow>
             (case scan_projects rt fs w of
                (Inl err, w) \<Rightarrow> (Inl err, w)
              | (Inr ps, w) \<Rightarrow> (Inr (name # ps), w))))"

definition getProjects :: "'d Config \<Rightarrow> 'd world \<Rightarrow> (goerr + string list) \<times> 'd world" where
  "getProjects cfg w =
     (case os_ReadDir (projects_dir cfg) w of
        (Inl err, w) \<Rightarrow> (Inl err, w)
      | (Inr folders, w) \<Rightarrow> scan_projects (projects_dir cfg) folders w)"

section \<open>Zombie builds\<close>

definition quoted :: "string \<Rightarrow> string" where
  "quoted s = [CHR 0x27] @ s @ [CHR 0x27]"

fun prune_builds :: "'d FileSystem \<Rightarrow> string \<Rightarrow> path \<Rightarrow> string list \<Rightarrow> 'd world \<Rightarrow> goerr option \<times> 'd world" where
  "prune_builds fs p pendingPath [] w = (None, w)"
| "prune_builds fs p pendingPath (b # bs) w =
     (case fsRemove fs (Join pendingPath b) w of
        (Some _, w) \<Rightarrow>
          (Some (ErrorString (''Error pruning zombie build '' @ quoted b @ '' of project '' @ quoted p)), w)
      | (None, w) \<Rightarrow> prune_builds fs p pendingPath bs w)"

fun prune_projects :: "'d Config \<Rightarrow> string list \<Rightarrow> 'd world \<Rightarrow> goerr option \<times> 'd world" where
  "prune_projects cfg [] w = (None, w)"
| "prune_projects cfg (p # ps) w =
     (let pendingPath = Join (Join (build_dir cfg) p) ''pending''
      in case os_ReadDir pendingPath w of
           (Inl _, w) \<Rightarrow> prune_projects cfg ps w
         | (Inr pendingBuilds, w) \<Rightarrow>
             (case prune_builds (cFileSystem cfg) p pendingPath (map fst pendingBuilds) w of
                (Some err, w) \<Rightarrow> (Some err, w)
              | (None, w) \<Rightarrow> prune_projects cfg ps w))"

definition PruneZombieBuilds :: "'d Config \<Rightarrow> 'd world \<Rightarrow> goerr option \<times> 'd world" where
  "PruneZombieBuilds cfg w =
     (case getProjects cfg w of
        (Inl err, w) \<Rightarrow> (Some err, w)
      | (Inr projects, w) \<Rightarrow> prune_projects cfg projects w)"

section \<open>The list of jobs\<close>

text \<open>The zero values of \<open>time.Time\<close> (year 1) and of \<open>Job\<close>.\<close>

definition zero_time :: int where
  "zero_time = - 62135596800 * second"

definition zero_Job :: Job where
  "zero_Job =
     \<lparr>jID = [], jProject = [], jParams = [], jGroup = [], jRebuild = False, jRootBuildPath = [],
      jPendingBuildPath = [], jReadyBuildPath = [], jLatestBuildPath = [], jReadyDataPath = [],
      jProjectPath = [], jBuildLogPath = [], jBuildInfoFilePath = [], jImage = [], jImageTar = [],
      jContainer = [], jStartedAt = zero_time, jBuildInfo = zero_BuildInfo, jState = []\<rparr>"

text \<open>The closure \<open>getJob\<close>; it dereferences the build information.\<close>

definition getJob :: "path \<Rightarrow> string \<Rightarrow> string \<Rightarrow> string \<Rightarrow> 'd world \<Rightarrow> ((goerr + Job) \<times> 'd world) outcome" where
  "getJob p jobID project state w =
     (case ReadJobBuildInfo (Join p jobID) False w of
        Blocked \<Rightarrow> Blocked
      | Panic m \<Rightarrow> Panic m
      | Ret (Inl err, w) \<Rightarrow> Ret (Inl err, w)
      | Ret (Inr None, w) \<Rightarrow> Panic ''nil pointer dereference''
      | Ret (Inr (Some bi), w) \<Rightarrow>
          Ret (Inr (zero_Job\<lparr>jID := jobID, jProject := project, jStartedAt := bStartedAt bi,
                 jState := state, jBuildInfo := bi\<rparr>), w))"

fun append_jobs ::
  "path \<Rightarrow> string \<Rightarrow> string \<Rightarrow> string list \<Rightarrow> Job list \<Rightarrow> 'd world \<Rightarrow> ((goerr + Job list) \<times> 'd world) outcome" where
  "append_jobs p project state [] js w = Ret (Inr js, w)"
| "append_jobs p project state (i # ids) js w =
     (case getJob p i project state w of
        Blocked \<Rightarrow> Blocked
      | Panic m \<Rightarrow> Panic m
      | Ret (Inl err, w) \<Rightarrow>
          Ret (Inl (ErrorString (''cannot find job '' @ i @ ''; '' @ Error err)), w)
      | Ret (Inr job, w) \<Rightarrow> append_jobs p project state ids (js @ [job]) w)"

text \<open>
  \<open>os.Stat\<close> of the directory of pending or ready builds and, when it is there, its entries;
  otherwise the variable keeps the entries of an earlier project.
\<close>

definition scan_state ::
  "string \<Rightarrow> string \<Rightarrow> path \<Rightarrow> string list \<Rightarrow> bool \<Rightarrow> 'd world \<Rightarrow> (goerr + string list) \<times> 'd world" where
  "scan_state p state dir old ex w =
     (if ex then
        (case os_ReadDir dir w of
           (Inl err, w) \<Rightarrow>
             (Inl (ErrorString (''cannot scan '' @ state @ '' jobs of project '' @ p @ ''; '' @ Error err)), w)
         | (Inr es, w) \<Rightarrow> (Inr (map fst es), w))
      else (Inr old, w))"

definition path_exists :: "string \<Rightarrow> path \<Rightarrow> 'd world \<Rightarrow> (goerr + bool) \<times> 'd world" where
  "path_exists state dir w =
     (case os_Stat dir w of
        (Inr _, w) \<Rightarrow> (Inr True, w)
      | (Inl err, w) \<Rightarrow>
          if IsNotExist err then (Inr False, w)
          else (Inl (ErrorString (''cannot check if '' @ state @ '' path exists; '' @ Error err)), w))"

text \<open>The loop over the projects; \<open>pj\<close> and \<open>rj\<close> are \<open>pendingJobs\<close> and \<open>readyJobs\<close>.\<close>

fun project_jobs ::
  "path \<Rightarrow> string list \<Rightarrow> string list \<Rightarrow> string list \<Rightarrow> Job list \<Rightarrow> 'd world \<Rightarrow>
     ((goerr + Job list) \<times> 'd world) outcome" where
  "project_jobs bp [] pj rj js w = Ret (Inr js, w)"
| "project_jobs bp (p # ps) pj rj js w =
     (let pendingPath = Join (Join bp p) ''pending'';
          readyPath = Join (Join bp p) ''ready''
      in case path_exists ''pending'' pendingPath w of
           (Inl err, w) \<Rightarrow> Ret (Inl err, w)
         | (Inr pex, w) \<Rightarrow>
         (case path_exists ''ready'' readyPath w of
           (Inl err, w) \<Rightarrow> Ret (Inl err, w)
         | (Inr rex, w) \<Rightarrow>
         (case scan_state p ''pending'' pendingPath pj pex w of
           (Inl err, w) \<Rightarrow> Ret (Inl err, w)
         | (Inr pj, w) \<Rightarrow>
         (case scan_state p ''ready'' readyPath rj rex w of
           (Inl err, w) \<Rightarrow> Ret (Inl err, w)
         | (Inr rj, w) \<Rightarrow>
         (case append_jobs pendingPath p ''pending'' pj js w of
           Blocked \<Rightarrow> Blocked
         | Panic m \<Rightarrow> Panic m
         | Ret (Inl err, w) \<Rightarrow> Ret (Inl err, w)
         | Ret (Inr js, w) \<Rightarrow>
         (case append_jobs readyPath p ''ready'' rj js w of
           Blocked \<Rightarrow> Blocked
         | Panic m \<Rightarrow> Panic m
         | Ret (Inl err, w) \<Rightarrow> Ret (Inl err, w)
         | Ret (Inr js, w) \<Rightarrow> project_jobs bp ps pj rj js w))))))"

definition getJobs :: "'d Config \<Rightarrow> 'd world \<Rightarrow> ((goerr + Job list) \<times> 'd world) outcome" where
  "getJobs cfg w =
     (case os_ReadDir (build_dir cfg) w of
        (Inl err, w) \<Rightarrow> Ret (Inl (ErrorString (''cannot scan projects; '' @ Error err)), w)
      | (Inr folders, w) \<Rightarrow>
          project_jobs (build_dir cfg) (map fst (filter (\<lambda>f. IsDir (snd f)) folders)) [] [] [] w)"

section \<open>Which projects there are\<close>

definition is_project :: "string \<times> node \<Rightarrow> bool" where
  "is_project e \<longleftrightarrow> IsDir (snd e) \<and> lookup (snd e) [''Dockerfile''] \<noteq> None"

text \<open>A directory of plain entries; a Dockerfile in it is not a link.\<close>

definition plain_entries :: "(string \<times> node) list \<Rightarrow> bool" where
  "plain_entries es \<longleftrightarrow> distinct (map fst es) \<and>
     (\<forall>e \<in> set es. clean_name (fst e) \<and>
        (case lookup (snd e) [''Dockerfile''] of None \<Rightarrow> True | Some nd \<Rightarrow> \<not> is_link nd))"

lemma entry_lookup:
  "lookup r p = Some (Dir es) \<Longrightarrow> distinct (map fst es) \<Longrightarrow> e \<in> set es \<Longrightarrow> lookup r (p @ [fst e]) = Some (snd e)"
  by (cases e) (simp add: lookup_snoc)

lemma clean_Dockerfile [simp]: "clean_name ''Dockerfile''"
  by (simp add: clean_name_def)

lemma scan_projects_quiet:
  assumes "quiet w" and "lookup (root w) rt = Some (Dir es)" and "plain_entries es" and "set fs \<subseteq> set es"
  shows "scan_projects rt fs w = (Inr (map fst (filter is_project fs)), w)"
  using assms(4)
proof (induction fs)
  case (Cons e fs)
  obtain n nd where e: "e = (n, nd)" by force
  have l: "lookup (root w) (rt @ [n]) = Some nd" "clean_name n"
    using entry_lookup [OF assms(2), of e] assms(3) Cons.prems e by (auto simp: plain_entries_def)
  have d: "lookup (root w) ((rt @ [n]) @ [''Dockerfile'']) = lookup nd [''Dockerfile'']"
    using l(1) by (simp only: lookup_append) simp
  show ?case
  proof (cases "is_project e")
    case True
    then obtain x where x: "lookup nd [''Dockerfile''] = Some x" "IsDir nd" by (auto simp: e is_project_def)
    then have "\<not> is_link x"
      using assms(3) Cons.prems e by (force simp: plain_entries_def)
    then have "os_Stat ((rt @ [n]) @ [''Dockerfile'']) w = (Inr x, w)"
      using assms(1) d x by (simp add: os_Stat_found)
    with Cons l(2) e x(2) True show ?thesis by simp
  next
    case False
    then consider "\<not> IsDir nd" | "IsDir nd" "lookup nd [''Dockerfile''] = None" by (auto simp: e is_project_def)
    then show ?thesis
    proof cases
      case 2
      then have "is_dir (root w) (rt @ [n])" using l(1) by (simp add: is_dir_def)
      then have "os_Stat ((rt @ [n]) @ [''Dockerfile'']) w =
          (Inl (PathError ''stat'' ((rt @ [n]) @ [''Dockerfile'']) ENOENT), w)"
        using assms(1) d 2(2) by (simp only: os_Stat_missing)
      with Cons l(2) e False 2(1) show ?thesis by simp
    qed (use Cons e False in simp)
  qed
qed simp

lemma getProjects_quiet:
  assumes "quiet w" and "lookup (root w) (projects_dir cfg) = Some (Dir es)" and "plain_entries es"
  shows "getProjects cfg w = (Inr (map fst (filter is_project (sort_key fst es))), w)"
  using scan_projects_quiet [OF assms] assms by (simp add: getProjects_def os_simps)

section \<open>Pruning\<close>

lemma prune_builds_plain:
  assumes "cFileSystem cfg = PlainFS env" and "quiet w" and "lookup (root w) d = Some (Dir es)"
    and "distinct (map fst es)" and "mset bs = mset (map fst es)" and "\<forall>b \<in> set bs. clean_name b"
  shows "\<exists>w'. prune_builds (cFileSystem cfg) p d bs w = (None, w') \<and> quiet w' \<and>
           lookup (root w') d = Some (Dir []) \<and> below d (root w) (root w')"
  using assms(2-)
proof (induction bs arbitrary: w es)
  case Nil
  then show ?case using below_refl [of "root w" d] by (auto simp: is_dir_iff)
next
  case (Cons b bs)
  have "b \<in> set (map fst es)" using Cons.prems(4) by (metis list.set_intros(1) set_mset_mset)
  then obtain nd where nd: "map_of es b = Some nd" by (auto simp: dest: weak_map_of_SomeI)
  have l: "lookup (root w) (d @ [b]) = Some nd" using nd Cons.prems(2) by (simp add: lookup_snoc)
  have d: "is_dir (root w) d" using Cons.prems(2) by (simp add: is_dir_iff)
  let ?r = "del (d @ [b]) (root w)"
  have "lookup ?r d = Some (Dir (AList.delete b es))"
    using Cons.prems(2) lookup_del_above [of d b "[]" "root w"] by simp
  moreover have "mset bs = mset (map fst (AList.delete b es))"
  proof -
    have "map fst (AList.delete b es) = remove1 b (map fst es)"
      using Cons.prems(3) by (induction es) (auto simp: filter_id_conv intro!: map_cong)
    then show ?thesis using Cons.prems(4) by (metis mset.simps(2) mset_remove1 add_mset_remove_trivial)
  qed
  moreover have "distinct (map fst (AList.delete b es))" using Cons.prems(3) by (simp add: distinct_delete)
  ultimately obtain w' where w': "prune_builds (cFileSystem cfg) p d bs (w\<lparr>root := ?r\<rparr>) = (None, w')"
      "quiet w'" "lookup (root w') d = Some (Dir [])" "below d ?r (root w')"
    using Cons.IH [of "w\<lparr>root := ?r\<rparr>" "AList.delete b es"] Cons.prems(1,5) by auto
  have "below d (root w) ?r" by (rule below_del [OF d]) simp
  with w' Cons.prems l show ?case
    by (auto simp: assms(1) plainfs.remove_found intro: below_trans)
qed

text \<open>What the directory of pending builds of a project may look like, and what pruning leaves.\<close>

abbreviation pending_dir :: "path \<Rightarrow> string \<Rightarrow> path" where
  "pending_dir B p \<equiv> B @ [p, ''pending'']"

definition prunable :: "path \<Rightarrow> node \<Rightarrow> string \<Rightarrow> bool" where
  "prunable B r p \<longleftrightarrow> clean_name p \<and>
     (case lookup r (pending_dir B p) of
        None \<Rightarrow> is_dir r B \<and> dir_or_new r (B @ [p])
      | Some (Dir es) \<Rightarrow> distinct (map fst es) \<and> (\<forall>b \<in> set (map fst es). clean_name b)
      | Some _ \<Rightarrow> False)"

definition pruned :: "path \<Rightarrow> string list \<Rightarrow> node \<Rightarrow> node \<Rightarrow> bool" where
  "pruned B ps r r' \<longleftrightarrow>
     (\<forall>p \<in> set ps. lookup r' (pending_dir B p) =
        (if lookup r (pending_dir B p) = None then None else Some (Dir []))) \<and>
     (\<forall>q. (\<forall>p \<in> set ps. \<not> prefix (pending_dir B p) q \<and> \<not> prefix q (pending_dir B p)) \<longrightarrow> lookup r' q = lookup r q) \<and>
     (\<forall>q. is_dir r q \<and> (\<forall>p \<in> set ps. \<not> strict_prefix (pending_dir B p) q) \<longrightarrow> is_dir r' q) \<and>
     (\<forall>q. lookup r q = None \<longrightarrow> lookup r' q = None)"

lemma pruned_keeps:
  "pruned B ps r r' \<Longrightarrow> (\<And>p. p \<in> set ps \<Longrightarrow> \<not> prefix (pending_dir B p) q \<and> \<not> prefix q (pending_dir B p)) \<Longrightarrow>
     lookup r' q = lookup r q"
  by (simp add: pruned_def)

lemma below_kept_dir:
  assumes "below d r r'" and "is_dir r q" and "\<not> strict_prefix d q"
  shows "is_dir r' q"
proof (cases "prefix q d")
  case True
  then show ?thesis using assms(1) by (auto simp: below_def intro: is_dir_prefix)
next
  case False
  then have "lookup r' q = lookup r q"
    using assms(1,3) by (auto simp: below_def strict_prefix_def)
  then show ?thesis using assms(2) by (simp add: is_dir_def)
qed

lemma os_ReadDir_pending_missing:
  assumes "quiet w" and "prunable B (root w) p" and "lookup (root w) (pending_dir B p) = None"
  shows "\<exists>e. os_ReadDir (pending_dir B p) w = (Inl e, w)"
proof (cases "lookup (root w) (B @ [p])")
  case None
  have "is_dir (root w) B" using assms(2,3) by (simp add: prunable_def)
  then show ?thesis
    using fs_stat_missing_above [of "root w" B p "[''pending'']"] None assms(1)
    by (simp add: os_ReadDir_def os_simps)
next
  case Some
  then have "is_dir (root w) (B @ [p])" using assms(2,3) by (simp add: prunable_def dir_or_new_def)
  then show ?thesis
    using os_ReadDir_missing [of w "B @ [p]" "''pending''"] assms(1,3) by simp
qed

text \<open>Emptying a directory makes nothing new.\<close>

lemma emptied_nothing_new:
  assumes "lookup r d = Some (Dir es)" and "lookup r' d = Some (Dir [])" and "below d r r'" and "lookup r q = None"
  shows "lookup r' q = None"
proof (cases "prefix d q")
  case True
  then obtain x where q: "q = d @ x" by (auto elim: prefixE)
  then have "x \<noteq> []" using assms(1,4) by auto
  then show ?thesis using assms(2) by (cases x) (simp_all add: q lookup_append)
next
  case False
  show ?thesis
  proof (cases "prefix q d")
    case True
    then have "lookup r q \<noteq> None" using assms(1) by (auto simp: prefix_def lookup_append split: option.splits)
    then show ?thesis using assms(4) by simp
  next
    case not: False
    then show ?thesis using False assms(3,4) by (auto simp: below_def)
  qed
qed

text \<open>One project.\<close>

lemma prune_project:
  assumes "cFileSystem cfg = PlainFS env" and "quiet w" and "prunable (build_dir cfg) (root w) p"
  shows "\<exists>w'. prune_projects cfg (p # ps) w = prune_projects cfg ps w' \<and> quiet w' \<and>
           pruned (build_dir cfg) [p] (root w) (root w')"
proof -
  let ?d = "pending_dir (build_dir cfg) p"
  have j: "Join (Join (build_dir cfg) p) ''pending'' = ?d" using assms(3) by (simp add: prunable_def)
  show ?thesis
  proof (cases "lookup (root w) ?d")
    case None
    then show ?thesis
      using os_ReadDir_pending_missing [OF assms(2,3) None] assms(2) by (auto simp: j Let_def pruned_def)
  next
    case (Some nd)
    then obtain es where es: "lookup (root w) ?d = Some (Dir es)" "distinct (map fst es)"
        "\<forall>b \<in> set (map fst es). clean_name b"
      using assms(3) by (cases nd) (auto simp: prunable_def)
    have "mset (map fst (sort_key fst es)) = mset (map fst es)" by simp
    then obtain w' where w': "prune_builds (cFileSystem cfg) p ?d (map fst (sort_key fst es)) w = (None, w')"
        "quiet w'" "lookup (root w') ?d = Some (Dir [])" "below ?d (root w) (root w')"
      using prune_builds_plain [OF assms(1,2) es(1,2), of "map fst (sort_key fst es)" p] es(3) by auto
    have "pruned (build_dir cfg) [p] (root w) (root w')"
      using w'(3,4) es(1) below_kept_dir [OF w'(4)] emptied_nothing_new [OF es(1) w'(3,4)] by (auto simp: pruned_def below_def)
    with w' es(1) assms(2) show ?thesis by (auto simp: j os_simps)
  qed
qed

lemma pruned_prunable:
  assumes "pruned B [p] r r'" and "prunable B r q" and "q \<noteq> p"
  shows "prunable B r' q" "lookup r' (pending_dir B q) = lookup r (pending_dir B q)"
proof -
  have keep: "lookup r' (pending_dir B q) = lookup r (pending_dir B q)" "lookup r' (B @ [q]) = lookup r (B @ [q])"
    using assms(1,3) by (simp_all add: pruned_def)
  have "is_dir r B \<Longrightarrow> is_dir r' B" "is_dir r (B @ [q]) \<Longrightarrow> is_dir r' (B @ [q])"
    using assms(1,3) by (auto simp: pruned_def strict_prefix_def dest: prefix_length_le)
  with keep assms(2) show "prunable B r' q" "lookup r' (pending_dir B q) = lookup r (pending_dir B q)"
    by (auto simp: prunable_def dir_or_new_def split: option.splits node.splits)
qed

lemma pruned_Cons:
  assumes "pruned B [p] r r'" and "pruned B ps r' r''" and "\<forall>q \<in> set ps. prunable B r q" and "p \<notin> set ps"
  shows "pruned B (p # ps) r r''"
proof -
  have "lookup r' (pending_dir B q) = lookup r (pending_dir B q)" if "q \<in> set ps" for q
    using pruned_prunable(2) [OF assms(1)] assms(3,4) that by auto
  moreover have "lookup r'' (pending_dir B p) = lookup r' (pending_dir B p)"
    by (rule pruned_keeps [OF assms(2)]) (use assms(4) in auto)
  ultimately show ?thesis using assms(1,2) by (auto simp: pruned_def)
qed

lemma prune_projects_plain:
  assumes "cFileSystem cfg = PlainFS env" and "quiet w" and "distinct ps"
    and "\<forall>p \<in> set ps. prunable (build_dir cfg) (root w) p"
  shows "\<exists>w'. prune_projects cfg ps w = (None, w') \<and> quiet w' \<and> pruned (build_dir cfg) ps (root w) (root w')"
  using assms(2-)
proof (induction ps arbitrary: w)
  case Nil
  then show ?case by (simp add: pruned_def)
next
  case (Cons p ps)
  obtain w' where w': "prune_projects cfg (p # ps) w = prune_projects cfg ps w'" "quiet w'"
      "pruned (build_dir cfg) [p] (root w) (root w')"
    using prune_project [OF assms(1) Cons.prems(1), of p ps] Cons.prems(3) by auto
  have "\<forall>q \<in> set ps. prunable (build_dir cfg) (root w') q"
    using pruned_prunable(1) [OF w'(3)] Cons.prems(2,3) by auto
  then obtain w'' where "prune_projects cfg ps w' = (None, w'')" "quiet w''"
      "pruned (build_dir cfg) ps (root w') (root w'')"
    using Cons.IH [OF w'(2)] Cons.prems(2) by auto
  with w'(1) pruned_Cons [OF w'(3)] Cons.prems(2,3) show ?case by auto
qed

text \<open>
  C25. A server that starts removes every pending build of its projects and nothing else: with
  the plain file system, \<open>PruneZombieBuilds\<close> succeeds, the directory of pending builds of every
  project that had one is empty, and every path outside these directories is as before.
\<close>

theorem PruneZombieBuilds_clears:
  assumes "cFileSystem cfg = PlainFS env" and "quiet w"
    and "lookup (root w) (projects_dir cfg) = Some (Dir es)" and "plain_entries es"
    and "\<forall>p \<in> set (map fst (filter is_project es)). prunable (build_dir cfg) (root w) p"
  shows "\<exists>w'. PruneZombieBuilds cfg w = (None, w') \<and> quiet w' \<and>
           pruned (build_dir cfg) (map fst (filter is_project (sort_key fst es))) (root w) (root w')"
proof -
  have "distinct (map fst (sort_key fst es))" using assms(4) by (simp add: plain_entries_def)
  then have "distinct (map fst (filter is_project (sort_key fst es)))" by (rule distinct_map_filter)
  then show ?thesis
    using prune_projects_plain [OF assms(1,2)] getProjects_quiet [OF assms(2-4)] assms(5)
    by (simp add: PruneZombieBuilds_def)
qed

definition demo_zombies :: node where
  "demo_zombies = Dir
     [(''projects'', Dir [(''web'', demo_project), (''app'', demo_project), (''notes'', Dir [])]),
      (''build'', Dir
         [(''app'', Dir [(''pending'', Dir [(''abcdef01'', Dir [(''data'', Dir [])]), (''abcdef02'', Dir [])]),
             (''ready'', Dir [])])])]"

lemma demo_zombies_lookup:
  "lookup demo_zombies [''projects''] = Some (Dir [(''web'', demo_project), (''app'', demo_project), (''notes'', Dir [])])"
  "plain_entries [(''web'', demo_project), (''app'', demo_project), (''notes'', Dir [])]"
  "\<forall>p \<in> set (map fst (filter is_project [(''web'', demo_project), (''app'', demo_project), (''notes'', Dir [])])).
     prunable [''build''] demo_zombies p"
  by (simp_all add: demo_zombies_def plain_entries_def demo_project_def clean_name_def is_project_def
      prunable_def is_dir_def dir_or_new_def)

theorem PruneZombieBuilds_clears_witness:
  "\<exists>w'. PruneZombieBuilds demo_config (demo_world demo_zombies) = (None, w') \<and>
     lookup (root w') [''build'', ''app'', ''pending''] = Some (Dir []) \<and>
     lookup (root w') [''build'', ''app'', ''ready''] = Some (Dir [])"
proof -
  let ?es = "[(''web'', demo_project), (''app'', demo_project), (''notes'', Dir [])]"
  obtain w' where w': "PruneZombieBuilds demo_config (demo_world demo_zombies) = (None, w')"
      "pruned [''build''] (map fst (filter is_project (sort_key fst ?es))) demo_zombies (root w')"
    using PruneZombieBuilds_clears [of demo_config "demo_env 0" "demo_world demo_zombies" ?es]
      demo_zombies_lookup by auto
  have "''app'' \<in> set (map fst (filter is_project (sort_key fst ?es)))"
    by (simp add: is_project_def demo_project_def)
  then have "lookup (root w') [''build'', ''app'', ''pending''] = Some (Dir [])"
    using w'(2) by (force simp: pruned_def demo_zombies_def)
  moreover have "lookup (root w') [''build'', ''app'', ''ready''] = lookup demo_zombies [''build'', ''app'', ''ready'']"
    by (rule pruned_keeps [OF w'(2)]) auto
  ultimately show ?thesis using w'(1) by (auto simp: demo_zombies_def)
qed

text \<open>
  \<open>getProjects\<close> lists exactly the directories that hold a Dockerfile, each once and in
  alphabetical order, and changes nothing.
\<close>

theorem getProjects_lists:
  assumes "quiet w" and "lookup (root w) (projects_dir cfg) = Some (Dir es)" and "plain_entries es"
  shows "\<exists>ps. getProjects cfg w = (Inr ps, w) \<and> sorted ps \<and> distinct ps \<and>
           (\<forall>p. p \<in> set ps \<longleftrightarrow> is_dir (root w) (projects_dir cfg @ [p]) \<and>
              lookup (root w) (projects_dir cfg @ [p, ''Dockerfile'']) \<noteq> None)"
proof -
  let ?ps = "map fst (filter is_project (sort_key fst es))"
  have d: "distinct (map fst (sort_key fst es))" "distinct (map fst es)" using assms(3) by (simp_all add: plain_entries_def)
  have "sorted ?ps" by (rule sorted_filter) simp
  moreover have "distinct ?ps" using d(1) by (rule distinct_map_filter)
  moreover have "p \<in> set ?ps \<longleftrightarrow> is_dir (root w) (projects_dir cfg @ [p]) \<and>
      lookup (root w) (projects_dir cfg @ [p, ''Dockerfile'']) \<noteq> None" for p
  proof -
    have l: "lookup (root w) (projects_dir cfg @ p # q) = (case map_of es p of None \<Rightarrow> None | Some nd \<Rightarrow> lookup nd q)" for q
      using assms(2) by (simp add: lookup_append)
    show ?thesis
    proof (cases "map_of es p")
      case None
      then have "p \<notin> fst ` set es" by (simp add: map_of_eq_None_iff)
      with None l show ?thesis by (auto simp: is_dir_def)
    next
      case (Some nd)
      then have mem: "(p, x) \<in> set es \<longleftrightarrow> x = nd" for x
        using d(2) by (metis map_of_eq_Some_iff option.sel)
      have "p \<in> set ?ps \<longleftrightarrow> (\<exists>x. (p, x) \<in> set es \<and> is_project (p, x))"
        by (simp only: set_map set_filter set_sort) force
      also have "\<dots> \<longleftrightarrow> is_project (p, nd)" by (simp add: mem)
      finally show ?thesis
        using Some l [of "[]"] l [of "[''Dockerfile'']"] by (simp add: is_dir_def is_project_def)
    qed
  qed
  ultimately show ?thesis using getProjects_quiet [OF assms] by blast
qed

theorem getProjects_lists_witness:
  "\<exists>ps. getProjects demo_config (demo_world demo_zombies) = (Inr ps, demo_world demo_zombies) \<and>
     ''app'' \<in> set ps \<and> ''notes'' \<notin> set ps"
  using getProjects_lists [of "demo_world demo_zombies" demo_config "[(''web'', demo_project), (''app'', demo_project), (''notes'', Dir [])]"]
    demo_zombies_lookup by (fastforce simp: demo_zombies_def is_dir_def demo_project_def)

end
