(* ===== verification/Rebuild.thy ===== *)
theory Rebuild
  imports Projects
begin

text \<open>
  The part of \<open>cmd/mistryd/server.go\<close> behind the command \<open>mistryd rebuild\<close>: the images of the
  given projects, or of all projects, are built from scratch and unused images and containers are
  pruned. With \<open>verbose\<close>, the output of the image build goes through a pipe to a line scanner; the
  scanner gives up on a line that does not fit its buffer, and then nobody reads the pipe any
  more. The rendering of a size (\<open>units.HumanSize\<close>) is an argument of the functions that use it.
\<close>

record RebuildResult =
  rSuccessful :: nat
  rFailed :: "string list"
  rPrunedImages :: nat
  rPrunedContainers :: nat
  rReclaimedSpace :: nat

definition RebuildResult_String :: "(nat \<Rightarrow> string) \<Rightarrow> RebuildResult \<Rightarrow> string" where
  "RebuildResult_String human_size r =
     (let failedNames = (if rFailed r \<noteq> [] then '', Failed names: '' @ join_with '', '' (rFailed r) else [])
      in ''Rebuilt: '' @ itoa (int (rSuccessful r)) @ '', Pruned images: '' @ itoa (int (rPrunedImages r)) @
         '', Pruned containers: '' @ itoa (int (rPrunedContainers r)) @
         '', Reclaimed: '' @ human_size (rReclaimedSpace r) @
         '', Failed: '' @ itoa (int (length (rFailed r))) @ failedNames)"

text \<open>Containers are pruned before images. The reclaimed space is a \<open>uint64\<close>.\<close>

definition dockerPruneUnused :: "'d env \<Rightarrow> 'd world \<Rightarrow> ((nat \<times> nat \<times> nat) \<times> goerr option) \<times> 'd world" where
  "dockerPruneUnused env w =
     (case docker (dk_ContainersPrune env) w of
        (Inl err, w) \<Rightarrow> (((0, 0, 0), Some err), w)
      | (Inr (cdeleted, cspace), w) \<Rightarrow>
          (case docker (dk_ImagesPrune env) w of
             (Inl err, w) \<Rightarrow> (((0, 0, 0), Some err), w)
           | (Inr (ideleted, ispace), w) \<Rightarrow>
               (((ideleted, cdeleted, (ispace + cspace) mod 2 ^ 64), None), w)))"

text \<open>
  The output of an image build, and whether it blocks the scanner's pipe: a line that fills the
  buffer of 64 KiB without a newline ends the scan, so whatever follows is never read.
\<close>

definition build_output :: "'d env \<Rightarrow> Job \<Rightarrow> string \<Rightarrow> 'd world \<Rightarrow> string" where
  "build_output env j uid w =
     (case fst (dk_ImageBuild env \<lparr>oTags = [jImage j], oBuildArgs = [(''uid'', uid)], oNetworkMode = ''host'',
                  oPullParent = True, oNoCache = True, oForceRemove = True\<rparr> (jImageTar j) (dockerd w)) of
        Inl _ \<Rightarrow> []
      | Inr body \<Rightarrow> fst (dk_DisplayJSONMessagesStream env body))"

definition max_token :: nat where "max_token = 65536"

definition scan_stuck :: "string \<Rightarrow> bool" where
  "scan_stuck txt =
     (let ls = split_on (CHR 0x0A) txt
      in (\<exists>l \<in> set (butlast ls). max_token \<le> length l) \<or> max_token < length (last ls))"

text \<open>The loop over the projects. An error of the result is the early return of \<open>stopErr\<close>.\<close>

fun rebuild_loop ::
  "'d env \<Rightarrow> 'd Config \<Rightarrow> bool \<Rightarrow> bool \<Rightarrow> string list \<Rightarrow> RebuildResult \<Rightarrow> 'd world \<Rightarrow>
     ((RebuildResult \<times> goerr option) \<times> 'd world) outcome" where
  "rebuild_loop env cfg stopErr verbose [] r w = Ret ((r, None), w)"
| "rebuild_loop env cfg stopErr verbose (project # ps) r w =
     (let (start, w) = time_Now w
      in case NewJob env project [] [] (Some cfg) w of
           (Inl err, w) \<Rightarrow>
             let r = r\<lparr>rFailed := rFailed r @ [project]\<rparr>
             in if stopErr then Ret ((r, Some err), w)
                else rebuild_loop env cfg stopErr verbose ps r w
         | (Inr j, w) \<Rightarrow>
             if verbose \<and> scan_stuck (build_output env j (cUID cfg) w) then Blocked
             else
               (case BuildImage env j (cUID cfg) Discard True True w of
                  (Some buildErr, w) \<Rightarrow>
                    let r = r\<lparr>rFailed := rFailed r @ [project]\<rparr>
                    in if stopErr then Ret ((r, Some buildErr), w)
                       else rebuild_loop env cfg stopErr verbose ps r w
                | (None, w) \<Rightarrow>
                    let (now, w) = time_Now w
                    in rebuild_loop env cfg stopErr verbose ps (r\<lparr>rSuccessful := Suc (rSuccessful r)\<rparr>) w))"

definition RebuildImages ::
  "'d env \<Rightarrow> 'd Config \<Rightarrow> string list \<Rightarrow> bool \<Rightarrow> bool \<Rightarrow> 'd world \<Rightarrow>
     ((RebuildResult \<times> goerr option) \<times> 'd world) outcome" where
  "RebuildImages env cfg projects stopErr verbose w =
     (let r = \<lparr>rSuccessful = 0, rFailed = [], rPrunedImages = 0, rPrunedContainers = 0, rReclaimedSpace = 0\<rparr>
      in case (if projects = [] then getProjects cfg w else (Inr projects, w)) of
           (Inl err, w) \<Rightarrow> Ret ((r, Some err), w)
         | (Inr projects, w) \<Rightarrow>
             (case docker (dk_NewEnvClient env) w of
                (Some err, w) \<Rightarrow> Ret ((r, Some err), w)
              | (None, w) \<Rightarrow>
                  (case rebuild_loop env cfg stopErr verbose projects r w of
                     Blocked \<Rightarrow> Blocked
                   | Panic m \<Rightarrow> Panic m
                   | Ret ((r, Some err), w) \<Rightarrow> Ret ((r, Some err), w)
                   | Ret ((r, None), w) \<Rightarrow>
                       let (((images, containers, space), err), w) = dockerPruneUnused env w
                       in Ret ((r\<lparr>rPrunedImages := images, rPrunedContainers := containers,
                              rReclaimedSpace := space\<rparr>, err), w))))"

section \<open>Accounting\<close>

lemma NewJob_root: "NewJob env project params grp cfgp w = (x, w') \<Longrightarrow> root w' = root w"
  by (auto simp: NewJob_def Let_def Tar_def time_Now_def split: if_splits option.splits prod.splits sum.splits list.splits
      dest!: os_read_root NewBuildInfo_frame(1))

lemma BuildImage_Discard: "BuildImage env j uid Discard a b w = (x, w') \<Longrightarrow> root w' = root w"
  by (auto simp: BuildImage_def Let_def world_simps split: prod.splits sum.splits option.splits)

lemma time_Now_root: "time_Now w = (t, w') \<Longrightarrow> root w' = root w"
  by (auto simp: time_Now_def split: list.splits)

lemma rebuild_loop_accounts:
  assumes "rebuild_loop env cfg stopErr verbose ps r w = Ret ((r', None), w')"
  shows "\<exists>fs. rFailed r' = rFailed r @ fs \<and> subseq fs ps \<and> root w' = root w \<and>
     rSuccessful r' + length fs = rSuccessful r + length ps \<and> (stopErr \<longrightarrow> fs = [])"
  using assms
proof (induction ps arbitrary: r w)
  case Nil
  then show ?case by simp
next
  case (Cons p ps)
  obtain t w1 where t: "time_Now w = (t, w1)" by force
  obtain x w2 where n: "NewJob env p [] [] (Some cfg) w1 = (x, w2)" by force
  have rt: "root w2 = root w" using time_Now_root [OF t] NewJob_root [OF n] by simp
  have fail: ?case
    if "\<not> stopErr" and "rebuild_loop env cfg stopErr verbose ps (r\<lparr>rFailed := rFailed r @ [p]\<rparr>) v = Ret ((r', None), w')"
      and "root v = root w" for v
    using Cons.IH [OF that(2)] that(1,3) by auto
  show ?case
  proof (cases x)
    case (Inl e)
    show ?thesis by (rule fail [of w2]) (use Cons.prems t n rt Inl in \<open>auto simp: Let_def split: if_splits\<close>)
  next
    case (Inr j)
    obtain y w3 where b: "BuildImage env j (cUID cfg) Discard True True w2 = (y, w3)" by force
    have rt3: "root w3 = root w" using BuildImage_Discard [OF b] rt by simp
    have ns: "\<not> (verbose \<and> scan_stuck (build_output env j (cUID cfg) w2))"
      using Cons.prems t n Inr by (auto simp: Let_def)
    show ?thesis
    proof (cases y)
      case (Some e)
      show ?thesis
        by (rule fail [of w3]) (use Cons.prems t n Inr b rt3 ns Some in \<open>auto simp: Let_def split: if_splits\<close>)
    next
      case None
      obtain t' w4 where t': "time_Now w3 = (t', w4)" by force
      have "rebuild_loop env cfg stopErr verbose ps (r\<lparr>rSuccessful := Suc (rSuccessful r)\<rparr>) w4 = Ret ((r', None), w')"
        using Cons.prems t n Inr b ns None t' by simp
      from Cons.IH [OF this] show ?thesis
        using rt3 time_Now_root [OF t'] by (auto intro: subseq_Cons')
    qed
  qed
qed

lemma dockerPruneUnused_root: "dockerPruneUnused env w = (x, w') \<Longrightarrow> root w' = root w"
  by (auto simp: dockerPruneUnused_def world_simps split: prod.splits sum.splits)

text \<open>
  C37. The books of a rebuild: when \<open>RebuildImages\<close> returns without an error for a list of
  projects, every project is counted exactly once, as rebuilt or as failed, in the order of the
  list; with \<open>stopErr\<close> none has failed. The file system is as before, and the reported space fits
  64 bits.
\<close>

theorem RebuildImages_accounts:
  assumes "RebuildImages env cfg ps stopErr verbose w = Ret ((r, None), w')" and "ps \<noteq> []"
  shows "rSuccessful r + length (rFailed r) = length ps \<and> subseq (rFailed r) ps \<and>
     (stopErr \<longrightarrow> rFailed r = []) \<and> root w' = root w \<and> rReclaimedSpace r < 2 ^ 64"
proof -
  let ?r0 = "\<lparr>rSuccessful = 0, rFailed = [], rPrunedImages = 0, rPrunedContainers = 0, rReclaimedSpace = 0\<rparr>"
  obtain x w1 where c: "docker (dk_NewEnvClient env) w = (x, w1)" by force
  have "x = None" using assms c by (auto simp: RebuildImages_def Let_def split: option.splits)
  then obtain r1 w2 i n sp where l: "rebuild_loop env cfg stopErr verbose ps ?r0 w1 = Ret ((r1, None), w2)"
      and p: "dockerPruneUnused env w2 = (((i, n, sp), None), w')"
      and r: "r = r1\<lparr>rPrunedImages := i, rPrunedContainers := n, rReclaimedSpace := sp\<rparr>"
    using assms c by (auto simp: RebuildImages_def Let_def split: outcome.splits prod.splits option.splits)
  have "sp < 2 ^ 64"
    using p by (auto simp: dockerPruneUnused_def split: prod.splits sum.splits)
  then show ?thesis
    using rebuild_loop_accounts [OF l] docker_frame(1) [OF c] dockerPruneUnused_root [OF p] r by auto
qed

text \<open>
  A project whose directory is missing fails, the other one is rebuilt.
\<close>

lemma demo_rebuild:
  "\<exists>r w'. RebuildImages (demo_env 0) demo_config [''app'', ''gone''] False False (demo_world demo_zombies) = Ret ((r, None), w')"
proof -
  have b: "\<exists>w'. BuildImage (demo_env 0) j u Discard a b w = (None, w')" for j u a b w
    by (simp add: BuildImage_def demo_env_def docker_def)
  have p: "\<exists>x w'. dockerPruneUnused (demo_env 0) w = ((x, None), w')" for w
    by (simp add: dockerPruneUnused_def demo_env_def docker_def)
  have "\<exists>r' w'. rebuild_loop (demo_env 0) demo_config False False ps r w = Ret ((r', None), w')" for ps r w
  proof (induction ps arbitrary: r w)
    case (Cons q ps)
    obtain t w1 where t: "time_Now w = (t, w1)" by force
    obtain x w2 where n: "NewJob (demo_env 0) q [] [] (Some demo_config) w1 = (x, w2)" by force
    show ?case
    proof (cases x)
      case (Inr j)
      obtain w3 where "BuildImage (demo_env 0) j (cUID demo_config) Discard True True w2 = (None, w3)" using b by blast
      then show ?thesis using Cons.IH t n Inr by (cases "time_Now w3") simp
    qed (use Cons.IH t n in simp)
  qed simp
  note loop = this
  let ?r0 = "\<lparr>rSuccessful = 0, rFailed = [], rPrunedImages = 0, rPrunedContainers = 0, rReclaimedSpace = 0\<rparr>"
  obtain w1 where c: "docker (dk_NewEnvClient (demo_env 0)) (demo_world demo_zombies) = (None, w1)"
    by (simp add: docker_def demo_env_def)
  obtain r w2 where l: "rebuild_loop (demo_env 0) demo_config False False [''app'', ''gone''] ?r0 w1 = Ret ((r, None), w2)"
    using loop by blast
  obtain x w3 where "dockerPruneUnused (demo_env 0) w2 = ((x, None), w3)" using p by blast
  then show ?thesis
    using c l by (cases x) (simp add: RebuildImages_def Let_def del: rebuild_loop.simps)
qed

theorem RebuildImages_accounts_witness:
  "\<exists>r w'. RebuildImages (demo_env 0) demo_config [''app'', ''gone''] False False (demo_world demo_zombies) = Ret ((r, None), w') \<and>
     rSuccessful r + length (rFailed r) = 2 \<and> root w' = demo_zombies"
proof -
  obtain r w' where r: "RebuildImages (demo_env 0) demo_config [''app'', ''gone''] False False (demo_world demo_zombies) = Ret ((r, None), w')"
    using demo_rebuild by blast
  then show ?thesis using RebuildImages_accounts [OF r] by simp
qed

text \<open>
  Showing the build logs does not change the outcome of a rebuild: a verbose rebuild of
  images whose logs have no line of 64 KiB or more is the same as a silent one, for every
  project list, every fault of the file system and every answer of the Docker daemon. (A longer
  line blocks the verbose rebuild forever.)
\<close>

theorem RebuildImages_verbose:
  assumes "\<And>body. \<forall>l \<in> set (split_on (CHR 0x0A) (fst (dk_DisplayJSONMessagesStream env body))). length l < 65536"
  shows "RebuildImages env cfg ps stopErr True w = RebuildImages env cfg ps stopErr False w"
proof -
  have "\<not> scan_stuck (fst (dk_DisplayJSONMessagesStream env body))" for body
  proof -
    let ?ls = "split_on (CHR 0x0A) (fst (dk_DisplayJSONMessagesStream env body))"
    have "length (last ?ls) < 65536" by (rule assms [of body, rule_format]) simp
    moreover have "length l < 65536" if "l \<in> set (butlast ?ls)" for l
      by (rule assms [of body, rule_format]) (rule in_set_butlastD [OF that])
    ultimately show ?thesis by (force simp: scan_stuck_def max_token_def Let_def)
  qed
  moreover have "\<not> scan_stuck []" by (simp add: scan_stuck_def)
  ultimately have ns: "\<not> scan_stuck (build_output env j uid v)" for j uid v
    by (simp add: build_output_def split: sum.splits)
  have "rebuild_loop env cfg stopErr True ps r w = rebuild_loop env cfg stopErr False ps r w" for ps r w
    by (cases stopErr; induction ps arbitrary: r w)
      (simp_all add: ns Let_def split: prod.splits sum.splits option.splits)
  then have "rebuild_loop env cfg stopErr True = rebuild_loop env cfg stopErr False" by (intro ext)
  then show ?thesis unfolding RebuildImages_def by (simp only:)
qed

theorem RebuildImages_verbose_witness:
  "RebuildImages (demo_env 0) demo_config [''app''] True True (demo_world demo_zombies) =
   RebuildImages (demo_env 0) demo_config [''app''] True False (demo_world demo_zombies)"
  by (rule RebuildImages_verbose) (simp add: demo_env_def)

end
