(* ===== verification/Broker.thy ===== *)
theory Broker
  imports Os
begin

text \<open>
  The packages \<open>pkg/tailer\<close> and \<open>pkg/broker\<close>, by which a browser follows the log of a build. A
  tailer reads what is appended to a file; the broker keeps the connected clients, runs one tailer
  per job that somebody watches, and hands every line to the clients of that job.

  Clients and channels are named by their allocation order. The loop \<open>ListenForClients\<close> handles
  one message of its three channels at a time, so the broker is a state machine whose events are
  these messages. A client receives at once what the broker sends to it, as the loop of
  \<open>HandleServerPush\<close> does until its channel is closed. The logger is left out.
\<close>

section \<open>The tailer\<close>

text \<open>An open file with its read offset, or the nil \<open>ReadCloser\<close> of a tailer that failed to open.\<close>

datatype Tailer = NilTailer | Tailer nat

definition os_Open :: "path \<Rightarrow> 'd world \<Rightarrow> (goerr + node) \<times> 'd world" where
  "os_Open p = path_get ''open'' p (\<lambda>r. map_sum id snd (fs_stat max_links True p r))"

definition tailer_New :: "path \<Rightarrow> 'd world \<Rightarrow> (Tailer \<times> goerr option) \<times> 'd world" where
  "tailer_New p w =
     (case os_Open p w of
        (Inl err, w) \<Rightarrow> ((NilTailer, Some err), w)
      | (Inr nd, w) \<Rightarrow>
          (case path_do ''seek'' p Inr w of
             (Some err, w) \<Rightarrow> ((NilTailer, Some err), w)
           | (None, w) \<Rightarrow>
               ((Tailer (case nd of File c \<Rightarrow> length (bytes_of c) | _ \<Rightarrow> 0), None), w)))"

text \<open>
  What the file offers to one call of \<open>ReadCloser.Read\<close>: its contents at that time, or an error
  other than the end of the file.
\<close>

datatype poll = Contents string | Fails goerr

text \<open>\<open>Read\<close> of a buffer of \<open>n\<close> bytes: the bytes, the error, the tailer and the remaining polls.\<close>

fun Tailer_Read :: "nat \<Rightarrow> Tailer \<Rightarrow> poll list \<Rightarrow> ((string \<times> goerr option) \<times> Tailer \<times> poll list) outcome" where
  "Tailer_Read n NilTailer ps = Panic ''nil pointer dereference''"
| "Tailer_Read n (Tailer off) [] = Blocked"
| "Tailer_Read n (Tailer off) (Contents s # ps) =
     (let b = take n (drop off s)
      in if b \<noteq> [] \<or> n = 0 then Ret ((b, None), Tailer (off + length b), ps)
         else Tailer_Read n (Tailer off) ps)"
| "Tailer_Read n (Tailer off) (Fails err # ps) = Ret (([], Some err), Tailer off, ps)"

text \<open>Reading until the polls are used up, as a scanner does.\<close>

fun read_all :: "nat \<Rightarrow> nat \<Rightarrow> Tailer \<Rightarrow> poll list \<Rightarrow> string" where
  "read_all 0 n t ps = []"
| "read_all (Suc fuel) n t ps =
     (case Tailer_Read n t ps of
        Ret ((b, None), t', ps') \<Rightarrow> b @ read_all fuel n t' ps'
      | _ \<Rightarrow> [])"

section \<open>The broker\<close>

record Client =
  clID :: string
  clExtra :: path
  clReceived :: "string list"
  clClosed :: bool

text \<open>The two goroutines around a tailer: one scans it, the other closes it on request.\<close>

record tail_task =
  tkID :: string
  tkTailer :: Tailer
  tkClosed :: bool

record Broker =
  brHeap :: "Client list"
  brClients :: "nat list"
  brCount :: "string \<rightharpoonup> int"
  brCloseC :: "string \<rightharpoonup> nat"
  brTails :: "tail_task list"

definition NewBroker :: Broker where
  "NewBroker = \<lparr>brHeap = [], brClients = [], brCount = Map.empty, brCloseC = Map.empty, brTails = []\<rparr>"

definition count_of :: "Broker \<Rightarrow> string \<Rightarrow> int" where
  "count_of br i = (case brCount br i of None \<Rightarrow> 0 | Some n \<Rightarrow> n)"

text \<open>\<open>case client := <-br.NewClients\<close>; an error of the tailer is only logged.\<close>

definition broker_new :: "nat \<Rightarrow> 'd world \<Rightarrow> Broker \<Rightarrow> Broker" where
  "broker_new c w br =
     (let cl = brHeap br ! c;
          br = br\<lparr>brClients := List.insert c (brClients br)\<rparr>;
          cc = count_of br (clID cl)
      in if 0 < cc then br\<lparr>brCount := (brCount br)(clID cl \<mapsto> cc + 1)\<rparr>
         else
           let ((tl, err), w) = tailer_New (clExtra cl) w
           in br\<lparr>brCount := (brCount br)(clID cl \<mapsto> 1),
                 brCloseC := (brCloseC br)(clID cl \<mapsto> length (brTails br)),
                 brTails := brTails br @ [\<lparr>tkID = clID cl, tkTailer = tl, tkClosed = False\<rparr>]\<rparr>)"

text \<open>
  A send on \<open>CloseClientC[id]\<close>: it blocks on the nil channel of a missing key, and when the
  goroutine that receives from the channel is gone.
\<close>

definition send_close :: "string \<Rightarrow> Broker \<Rightarrow> Broker outcome" where
  "send_close i br =
     (case brCloseC br i of
        None \<Rightarrow> Blocked
      | Some k \<Rightarrow>
          let t = brTails br ! k
          in if tkClosed t then Blocked
             else if tkTailer t = NilTailer then Panic ''nil pointer dereference''
             else Ret (br\<lparr>brTails := (brTails br)[k := t\<lparr>tkClosed := True\<rparr>]\<rparr>))"

text \<open>\<open>case client := <-br.ClosingClients\<close>.\<close>

definition broker_closing :: "nat \<Rightarrow> Broker \<Rightarrow> Broker outcome" where
  "broker_closing c br =
     (let cl = brHeap br ! c
      in if clClosed cl then Panic ''close of closed channel''
         else
           let br = br\<lparr>brHeap := (brHeap br)[c := cl\<lparr>clClosed := True\<rparr>],
                       brClients := removeAll c (brClients br)\<rparr>;
               newVal = count_of br (clID cl) - 1;
               br = br\<lparr>brCount := (brCount br)(clID cl \<mapsto> newVal)\<rparr>
           in if newVal = 0 then send_close (clID cl) br else Ret br)"

text \<open>\<open>case event := <-br.Notifier\<close>: the loop over the registered clients.\<close>

fun broadcast :: "string \<Rightarrow> string \<Rightarrow> nat list \<Rightarrow> Client list \<Rightarrow> Client list outcome" where
  "broadcast i msg [] h = Ret h"
| "broadcast i msg (c # cs) h =
     (if clID (h ! c) = i then
        (if clClosed (h ! c) then Panic ''send on closed channel''
         else broadcast i msg cs (h[c := (h ! c)\<lparr>clReceived := clReceived (h ! c) @ [msg]\<rparr>]))
      else broadcast i msg cs h)"

definition broker_notify :: "string \<Rightarrow> string \<Rightarrow> Broker \<Rightarrow> Broker outcome" where
  "broker_notify i msg br =
     (case broadcast i msg (brClients br) (brHeap br) of
        Ret h \<Rightarrow> Ret (br\<lparr>brHeap := h\<rparr>)
      | Blocked \<Rightarrow> Blocked
      | Panic m \<Rightarrow> Panic m)"

text \<open>
  The scanning goroutine of a tailer: it reads (a nil tailer panics) and sends each line to the
  broker. Lines that are in the scanner's buffer still arrive after the tailer was closed.
\<close>

definition scan_line :: "nat \<Rightarrow> string \<Rightarrow> Broker \<Rightarrow> Broker outcome" where
  "scan_line k msg br =
     (if tkTailer (brTails br ! k) = NilTailer then Panic ''nil pointer dereference''
      else broker_notify (tkID (brTails br ! k)) msg br)"

section \<open>Runs\<close>

text \<open>
  The events, as \<open>HandleServerPush\<close> causes them: a handler makes a client and announces it, and
  announces its end at most once; a tailer finds a line.
\<close>

datatype 'd broker_event = Connect string path "'d world" | Disconnect nat | Line nat string

fun broker_step :: "'d broker_event \<Rightarrow> Broker \<Rightarrow> Broker outcome" where
  "broker_step (Connect i p w) br =
     Ret (broker_new (length (brHeap br)) w
       (br\<lparr>brHeap := brHeap br @ [\<lparr>clID = i, clExtra = p, clReceived = [], clClosed = False\<rparr>]\<rparr>))"
| "broker_step (Disconnect c) br = (if c \<in> set (brClients br) then broker_closing c br else Blocked)"
| "broker_step (Line k msg) br = (if k < length (brTails br) then scan_line k msg br else Blocked)"

fun broker_run :: "'d broker_event list \<Rightarrow> Broker \<Rightarrow> Broker outcome" where
  "broker_run [] br = Ret br"
| "broker_run (e # es) br =
     (case broker_step e br of Ret br \<Rightarrow> broker_run es br | Blocked \<Rightarrow> Blocked | Panic m \<Rightarrow> Panic m)"

section \<open>A tailer follows its file\<close>

lemma read_all_step:
  assumes "0 < n"
  shows "read_all (Suc fuel) n (Tailer off) (Contents x # ps) =
     (let b = take n (drop off x)
      in if b \<noteq> [] then b @ read_all fuel n (Tailer (off + length b)) ps else read_all (Suc fuel) n (Tailer off) ps)"
  using assms by (simp add: Let_def)

lemma prefix_drop_take:
  assumes "prefix x s"
  shows "drop off s = take n (drop off x) @ drop (off + length (take n (drop off x))) s"
proof -
  have "prefix (drop off x) (drop off s)" using assms by (auto simp: prefix_def)
  then have "prefix (take n (drop off x)) (drop off s)" using take_is_prefix prefix_order.trans by blast
  then obtain zs where zs: "drop off s = take n (drop off x) @ zs" by (auto simp: prefix_def)
  then have "zs = drop (length (take n (drop off x))) (drop off s)" by simp
  with zs show ?thesis by (simp add: add.commute)
qed

lemma read_all_prefix:
  assumes "0 < n" and "\<forall>x \<in> set ss. prefix x s"
  shows "prefix (read_all fuel n (Tailer off) (map Contents ss)) (drop off s)"
  using assms(2)
proof (induction ss arbitrary: fuel off)
  case Nil
  then show ?case by (cases fuel) auto
next
  case (Cons x ss)
  show ?case
  proof (cases fuel)
    case (Suc fuel')
    let ?b = "take n (drop off x)"
    have "drop off s = ?b @ drop (off + length ?b) s" using Cons.prems by (intro prefix_drop_take) simp
    then show ?thesis
      using Cons.IH [of fuel' "off + length ?b"] Cons.IH [of fuel off] Cons.prems Suc
        read_all_step [OF assms(1), of fuel' off x "map Contents ss"]
      by (cases "?b = []") (auto simp: Let_def simp del: read_all.simps take_eq_Nil)
  qed simp
qed

text \<open>The number of polls at the end that already see the final contents.\<close>

definition settled :: "string \<Rightarrow> string list \<Rightarrow> nat" where
  "settled s ss = length (takeWhile (\<lambda>x. x = s) (rev ss))"

lemma settled_Cons:
  "settled s (x # ss) \<le> Suc (settled s ss)" "x \<noteq> s \<Longrightarrow> settled s (x # ss) = settled s ss"
proof -
  have "length (takeWhile (\<lambda>x. x = s) (rev ss)) = length ss" if "\<forall>x \<in> set ss. x = s"
  proof -
    have "takeWhile (\<lambda>x. x = s) (rev ss) = rev ss" using that by (simp add: takeWhile_eq_all_conv)
    then show ?thesis by (metis length_rev)
  qed
  then show "settled s (x # ss) \<le> Suc (settled s ss)" "x \<noteq> s \<Longrightarrow> settled s (x # ss) = settled s ss"
    by (auto simp: settled_def takeWhile_append)
qed

lemma read_all_complete:
  assumes "0 < n" and "\<forall>x \<in> set ss. prefix x s" and "length s - off \<le> settled s ss" and "length ss < fuel"
  shows "read_all fuel n (Tailer off) (map Contents ss) = drop off s"
  using assms(2-)
proof (induction ss arbitrary: fuel off)
  case Nil
  then show ?case by (cases fuel) (auto simp: settled_def)
next
  case (Cons x ss)
  obtain fuel' where f: "fuel = Suc fuel'" using Cons.prems(3) by (cases fuel) auto
  let ?b = "take n (drop off x)"
  have d: "drop off s = ?b @ drop (off + length ?b) s" using Cons.prems by (intro prefix_drop_take) simp
  show ?case
  proof (cases "?b = []")
    case True
    then have e: "drop off x = []" using assms(1) by simp
    show ?thesis
    proof (cases "x = s")
      case True
      then show ?thesis using e read_all_prefix [OF assms(1) Cons.prems(1), of fuel off] by auto
    next
      case False
      then show ?thesis
        using Cons f settled_Cons(2) [OF False] read_all_step [OF assms(1), of fuel' off x "map Contents ss"] \<open>?b = []\<close>
        by (simp add: Let_def del: read_all.simps)
    qed
  next
    case False
    then have "length s - (off + length ?b) \<le> settled s ss"
      using Cons.prems(2) settled_Cons(1) [of s x ss] by (cases ?b) auto
    then show ?thesis
      using Cons f False d read_all_step [OF assms(1), of fuel' off x "map Contents ss"]
      by (simp add: Let_def del: read_all.simps)
  qed
qed

text \<open>
  C32. A tailer delivers what is appended to its file: opened on a file with the contents \<open>c\<close>, and
  reading while the file grows to \<open>c\<close> followed by \<open>a\<close>, it never delivers anything but the next
  bytes of \<open>a\<close> (nothing is lost, repeated or reordered, and nothing of \<open>c\<close> is delivered); and once
  the file stays as it is for as many reads as \<open>a\<close> has bytes, exactly \<open>a\<close> has been delivered. The
  size of the read buffer does not matter.
\<close>

theorem tailer_follows:
  assumes "quiet w" and "lookup (root w) p = Some (File c)" and "0 < n"
    and "\<forall>x \<in> set ss. prefix x (bytes_of c @ a)"
  shows "\<exists>t w'. tailer_New p w = ((t, None), w') \<and>
     prefix (read_all fuel n t (map Contents ss)) a \<and>
     read_all (Suc (length ss + length a)) n t (map Contents (ss @ replicate (length a) (bytes_of c @ a))) = a"
proof -
  let ?t = "Tailer (length (bytes_of c))"
  have "tailer_New p w = ((?t, None), w)"
    using assms(1,2) by (simp add: tailer_New_def os_Open_def os_simps fs_stat_found)
  moreover have "prefix (read_all fuel n ?t (map Contents ss)) a"
    using read_all_prefix [OF assms(3,4), of fuel "length (bytes_of c)"] by simp
  moreover have "read_all (Suc (length ss + length a)) n ?t (map Contents (ss @ replicate (length a) (bytes_of c @ a))) = a"
  proof -
    let ?ss = "ss @ replicate (length a) (bytes_of c @ a)"
    have "\<forall>x \<in> set ?ss. prefix x (bytes_of c @ a)" using assms(4) by auto
    moreover have "length (bytes_of c @ a) - length (bytes_of c) \<le> settled (bytes_of c @ a) ?ss"
      by (simp add: settled_def takeWhile_append)
    ultimately show ?thesis
      using read_all_complete [OF assms(3), of ?ss "bytes_of c @ a" "length (bytes_of c)" "Suc (length ss + length a)"]
      by (simp del: read_all.simps)
  qed
  ultimately show ?thesis by blast
qed

definition demo_log :: "unit world" where
  "demo_log = \<lparr>root = Dir [(''out.log'', File (Text ''ab''))], faults = [], clock = [], random = [], dockerd = ()\<rparr>"

theorem tailer_follows_witness:
  "\<exists>t w'. tailer_New [''out.log''] demo_log = ((t, None), w') \<and>
     read_all (Suc (length [''ab'', ''abc''] + 1)) 2 t (map Contents ([''ab'', ''abc''] @ replicate 1 ''abc'')) = ''c''"
  using tailer_follows [of demo_log "[''out.log'']" "Text ''ab''" 2 "[''ab'', ''abc'']" "''c''" 1]
  by (auto simp: demo_log_def bytes_of_def simp del: read_all.simps)

section \<open>The broker's registry\<close>

definition watchers :: "Broker \<Rightarrow> string \<Rightarrow> nat list" where
  "watchers br i = filter (\<lambda>c. clID (brHeap br ! c) = i) (brClients br)"

definition live :: "Broker \<Rightarrow> string \<Rightarrow> nat \<Rightarrow> bool" where
  "live br i k \<longleftrightarrow> k < length (brTails br) \<and> tkID (brTails br ! k) = i \<and> \<not> tkClosed (brTails br ! k)"

definition broker_inv :: "Broker \<Rightarrow> bool" where
  "broker_inv br \<longleftrightarrow>
     distinct (brClients br) \<and>
     (\<forall>c \<in> set (brClients br). c < length (brHeap br) \<and> \<not> clClosed (brHeap br ! c)) \<and>
     (\<forall>i. count_of br i = int (length (watchers br i))) \<and>
     (\<forall>i k. live br i k \<longleftrightarrow> watchers br i \<noteq> [] \<and> brCloseC br i = Some k) \<and>
     (\<forall>i. watchers br i \<noteq> [] \<longrightarrow> (\<exists>k. brCloseC br i = Some k))"

lemma count_of_update: "count_of (br\<lparr>brCount := (brCount br)(i \<mapsto> n)\<rparr>) l = (if l = i then n else count_of br l)"
  by (simp add: count_of_def)

lemma inv_NewBroker: "broker_inv NewBroker"
  by (simp add: broker_inv_def NewBroker_def count_of_def watchers_def live_def)

lemma inv_connect:
  assumes "broker_inv br" and "broker_step (Connect i p w) br = Ret br'"
  shows "broker_inv br'"
proof -
  let ?c = "length (brHeap br)"
  let ?h = "brHeap br @ [\<lparr>clID = i, clExtra = p, clReceived = [], clClosed = False\<rparr>]"
  have inv: "distinct (brClients br)" "\<And>c. c \<in> set (brClients br) \<Longrightarrow> c < length (brHeap br) \<and> \<not> clClosed (brHeap br ! c)"
      "\<And>i. count_of br i = int (length (watchers br i))"
      "\<And>i k. live br i k \<longleftrightarrow> watchers br i \<noteq> [] \<and> brCloseC br i = Some k"
      "\<And>i. watchers br i \<noteq> [] \<Longrightarrow> \<exists>k. brCloseC br i = Some k"
    using assms(1) unfolding broker_inv_def by blast+
  have new: "?c \<notin> set (brClients br)" using inv(2) by blast
  have h: "?h ! c = brHeap br ! c" if "c \<in> set (brClients br)" for c
    using inv(2) [OF that] by (simp add: nth_append)
  have f: "filter (\<lambda>c. clID (?h ! c) = l) (brClients br) = watchers br l" for l
    unfolding watchers_def using h by (intro filter_cong) auto
  have cl: "brClients br' = ?c # brClients br" "brHeap br' = ?h"
    using assms(2) new by (auto simp: broker_new_def Let_def split: if_splits prod.splits)
  have wt: "watchers br' l = (if l = i then ?c # watchers br l else watchers br l)" for l
    unfolding watchers_def [of br'] cl by (simp add: f)
  have head: "distinct (brClients br')" "\<forall>c \<in> set (brClients br'). c < length (brHeap br') \<and> \<not> clClosed (brHeap br' ! c)"
    using inv(1,2) new h by (auto simp: cl intro: less_SucI)
  let ?r = "br\<lparr>brHeap := ?h, brClients := ?c # brClients br\<rparr>"
  have cnt: "count_of ?r l = count_of br l" for l by (simp add: count_of_def)
  show ?thesis
  proof (cases "0 < count_of br i")
    case True
    then have br': "br' = ?r\<lparr>brCount := (brCount br)(i \<mapsto> count_of br i + 1)\<rparr>"
      using assms(2) new cnt by (simp add: broker_new_def Let_def)
    have "live br' l k = live br l k" for l k by (simp add: br' live_def)
    moreover have "count_of br' l = int (length (watchers br' l))" for l
      using inv(3) [of l] by (simp add: wt) (auto simp: br' count_of_def)
    moreover have "watchers br i \<noteq> []" using True inv(3) [of i] by auto
    ultimately show ?thesis
      unfolding broker_inv_def using head inv(4,5) by (auto simp: wt) (auto simp: br')
  next
    case False
    then have z: "watchers br i = []" using inv(3) [of i] by simp
    obtain tl err w' where tl: "tailer_New p w = ((tl, err), w')" by (metis surj_pair)
    have br': "br' = ?r\<lparr>brCount := (brCount br)(i \<mapsto> 1), brCloseC := (brCloseC br)(i \<mapsto> length (brTails br)),
        brTails := brTails br @ [\<lparr>tkID = i, tkTailer = tl, tkClosed = False\<rparr>]\<rparr>"
      using assms(2) new cnt False tl by (simp add: broker_new_def Let_def)
    have "live br' l k \<longleftrightarrow> live br l k \<or> l = i \<and> k = length (brTails br)" for l k
      by (auto simp: br' live_def nth_append)
    moreover have "\<not> live br i k" for k using inv(4) z by simp
    moreover have "count_of br' l = int (length (watchers br' l))" for l
      using inv(3) [of l] z by (simp add: wt) (auto simp: br' count_of_def)
    ultimately show ?thesis
      unfolding broker_inv_def using head inv(4,5) by (auto simp: wt) (auto simp: br')
  qed
qed

lemma inv_disconnect:
  assumes "broker_inv br" and "c \<in> set (brClients br)"
  shows "broker_closing c br = Ret br' \<Longrightarrow> broker_inv br'"
    and "\<forall>k. live br (clID (brHeap br ! c)) k \<longrightarrow> tkTailer (brTails br ! k) \<noteq> NilTailer \<Longrightarrow>
           \<exists>br'. broker_closing c br = Ret br'"
proof -
  have inv: "distinct (brClients br)" "\<And>c. c \<in> set (brClients br) \<Longrightarrow> c < length (brHeap br) \<and> \<not> clClosed (brHeap br ! c)"
      "\<And>i. count_of br i = int (length (watchers br i))"
      "\<And>i k. live br i k \<longleftrightarrow> watchers br i \<noteq> [] \<and> brCloseC br i = Some k"
      "\<And>i. watchers br i \<noteq> [] \<Longrightarrow> \<exists>k. brCloseC br i = Some k"
    using assms(1) unfolding broker_inv_def by blast+
  let ?i = "clID (brHeap br ! c)"
  let ?h = "(brHeap br)[c := (brHeap br ! c)\<lparr>clClosed := True\<rparr>]"
  let ?n = "count_of br ?i - 1"
  define r where "r = br\<lparr>brHeap := ?h, brClients := removeAll c (brClients br), brCount := (brCount br)(?i \<mapsto> ?n)\<rparr>"
  have r: "brHeap r = ?h" "brClients r = removeAll c (brClients br)" "brTails r = brTails br" "brCloseC r = brCloseC br"
      "\<And>l. count_of r l = (if l = ?i then ?n else count_of br l)"
    by (simp_all add: r_def count_of_def)
  have id: "clID (?h ! x) = clID (brHeap br ! x)" for x
    using inv(2) [OF assms(2)] by (auto simp: nth_list_update)
  have wt: "watchers r l = removeAll c (watchers br l)" for l
    by (simp add: watchers_def r id removeAll_filter_not_eq conj_commute)
  have len: "length (watchers r l) = (if l = ?i then length (watchers br l) - 1 else length (watchers br l))" for l
  proof -
    have "c \<in> set (watchers br l) \<longleftrightarrow> l = ?i" using assms(2) by (auto simp: watchers_def)
    then show ?thesis
      unfolding wt using inv(1) by (auto simp: distinct_remove1_removeAll [symmetric] length_remove1 watchers_def)
  qed
  have pos: "watchers br ?i \<noteq> []" using assms(2) by (auto simp: watchers_def filter_empty_conv)
  obtain k where k: "brCloseC br ?i = Some k" using inv(5) [OF pos] by blast
  have lk: "live br ?i k" using inv(4) pos k by simp
  have cnt: "count_of r l = int (length (watchers r l))" for l
    using inv(3) [of l] pos by (cases "watchers br ?i") (auto simp: len r)
  have dist: "distinct (brClients r)" "\<forall>x \<in> set (brClients r). x < length (brHeap r) \<and> \<not> clClosed (brHeap r ! x)"
    using inv(1,2) by (auto simp: distinct_removeAll r nth_list_update)
  have step: "broker_closing c br = (if ?n = 0 then send_close ?i r else Ret r)"
    using inv(2) [OF assms(2)] by (simp add: broker_closing_def Let_def count_of_def r_def)
  let ?t = "(brTails br)[k := (brTails br ! k)\<lparr>tkClosed := True\<rparr>]"
  have send: "send_close ?i r =
      (if tkTailer (brTails br ! k) = NilTailer then Panic ''nil pointer dereference'' else Ret (r\<lparr>brTails := ?t\<rparr>))"
    using k lk by (simp add: send_close_def live_def r)
  show "\<exists>br'. broker_closing c br = Ret br'"
    if "\<forall>k. live br ?i k \<longrightarrow> tkTailer (brTails br ! k) \<noteq> NilTailer"
    using that lk step send by simp
  show "broker_inv br'" if "broker_closing c br = Ret br'"
  proof (cases "?n = 0")
    case True
    then have br': "br' = r\<lparr>brTails := ?t\<rparr>" using that step send by (simp split: if_splits)
    have w': "watchers br' l = watchers r l" "count_of br' l = count_of r l" for l
      by (simp_all add: br' watchers_def count_of_def)
    have none: "watchers r ?i = []" using cnt [of ?i] True by (simp add: r)
    have other: "watchers r l = watchers br l" if "l \<noteq> ?i" for l
      unfolding wt using that by (intro removeAll_id) (auto simp: watchers_def)
    have lv: "live br' l m \<longleftrightarrow> live br l m \<and> m \<noteq> k" for l m
      using lk by (auto simp: br' live_def nth_list_update r)
    have only: "live br l k \<Longrightarrow> l = ?i" for l using lk by (simp add: live_def)
    have "live br' l m \<longleftrightarrow> watchers r l \<noteq> [] \<and> brCloseC br l = Some m" for l m
    proof (cases "l = ?i")
      case True
      then show ?thesis using lv [of l m] inv(4) [of l m] none k by auto
    next
      case False
      then show ?thesis using lv [of l m] inv(4) [of l m] other [OF False] only [of l] by auto
    qed
    moreover have "watchers r l \<noteq> [] \<Longrightarrow> \<exists>m. brCloseC br l = Some m" for l
      using none other [of l] inv(5) [of l] by (cases "l = ?i") auto
    ultimately show ?thesis
      unfolding broker_inv_def w' using dist cnt by (simp add: br' r(1,2,4))
  next
    case False
    then have br': "br' = r" using that step by simp
    have "watchers r l \<noteq> [] \<longleftrightarrow> watchers br l \<noteq> []" for l
      using cnt [of l] len [of l] inv(3) [of l] False pos by (auto simp: r split: if_splits)
    moreover have "live r l m = live br l m" for l m by (simp add: live_def r)
    ultimately show ?thesis
      unfolding broker_inv_def br' using dist cnt inv(4,5) by (simp add: r(4))
  qed
qed

text \<open>One message reaches every registered client of its job once.\<close>

lemma broadcast_ok:
  assumes "distinct cs" and "\<forall>c \<in> set cs. c < length h \<and> \<not> clClosed (h ! c)"
  shows "\<exists>h'. broadcast i msg cs h = Ret h' \<and> length h' = length h \<and>
     (\<forall>c. h' ! c = (if c \<in> set cs \<and> clID (h ! c) = i then (h ! c)\<lparr>clReceived := clReceived (h ! c) @ [msg]\<rparr> else h ! c))"
  using assms
proof (induction cs arbitrary: h)
  case (Cons c cs)
  let ?g = "if clID (h ! c) = i then h[c := (h ! c)\<lparr>clReceived := clReceived (h ! c) @ [msg]\<rparr>] else h"
  have g: "length ?g = length h" "\<And>x. x \<noteq> c \<Longrightarrow> ?g ! x = h ! x"
      "?g ! c = (if clID (h ! c) = i then (h ! c)\<lparr>clReceived := clReceived (h ! c) @ [msg]\<rparr> else h ! c)"
    using Cons.prems(2) by auto
  have "x < length ?g \<and> \<not> clClosed (?g ! x)" if "x \<in> set cs" for x
  proof -
    have "x \<noteq> c" using that Cons.prems(1) by auto
    then show ?thesis using that Cons.prems(2) g(1) g(2) [of x] by auto
  qed
  then obtain h' where h': "broadcast i msg cs ?g = Ret h'" "length h' = length ?g"
      "\<forall>x. h' ! x = (if x \<in> set cs \<and> clID (?g ! x) = i then (?g ! x)\<lparr>clReceived := clReceived (?g ! x) @ [msg]\<rparr> else ?g ! x)"
    using Cons.IH [of ?g] Cons.prems(1) by auto
  have "broadcast i msg (c # cs) h = Ret h'" using h'(1) Cons.prems(2) by auto
  moreover have "h' ! x = (if x \<in> set (c # cs) \<and> clID (h ! x) = i then (h ! x)\<lparr>clReceived := clReceived (h ! x) @ [msg]\<rparr> else h ! x)" for x
    using h'(3) g(2) [of x] g(3) Cons.prems(1) by (cases "x = c") auto
  ultimately show ?case using h'(2) g(1) by auto
qed simp

lemma scan_line_ok:
  assumes "broker_inv br" and "tkTailer (brTails br ! k) \<noteq> NilTailer"
  obtains h where "scan_line k msg br = Ret (br\<lparr>brHeap := h\<rparr>)" and "length h = length (brHeap br)"
    and "\<And>c. h ! c = (if c \<in> set (brClients br) \<and> clID (brHeap br ! c) = tkID (brTails br ! k)
           then (brHeap br ! c)\<lparr>clReceived := clReceived (brHeap br ! c) @ [msg]\<rparr> else brHeap br ! c)"
  using broadcast_ok [of "brClients br" "brHeap br" "tkID (brTails br ! k)" msg] assms
  by (auto simp: broker_inv_def scan_line_def broker_notify_def)

lemma inv_line:
  assumes "broker_inv br" and "scan_line k msg br = Ret br'"
  shows "broker_inv br'"
proof -
  have "tkTailer (brTails br ! k) \<noteq> NilTailer" using assms(2) by (auto simp: scan_line_def)
  then obtain h where h0: "scan_line k msg br = Ret (br\<lparr>brHeap := h\<rparr>)" "length h = length (brHeap br)"
      "\<And>c. h ! c = (if c \<in> set (brClients br) \<and> clID (brHeap br ! c) = tkID (brTails br ! k)
           then (brHeap br ! c)\<lparr>clReceived := clReceived (brHeap br ! c) @ [msg]\<rparr> else brHeap br ! c)"
    using scan_line_ok [OF assms(1), of k msg] by blast
  have h: "br' = br\<lparr>brHeap := h\<rparr>" "clID (h ! c) = clID (brHeap br ! c)" "clClosed (h ! c) = clClosed (brHeap br ! c)" for c
    using h0(1) assms(2) h0(3) [of c] by auto
  have "watchers br' i = watchers br i" "count_of br' i = count_of br i" "live br' i m = live br i m" for i m
    using h by (simp_all add: watchers_def count_of_def live_def)
  then show ?thesis using assms(1) h h0(2) by (simp add: broker_inv_def)
qed

lemma broker_inv_step:
  assumes "broker_inv br" and "broker_step e br = Ret br'"
  shows "broker_inv br'"
proof (cases e)
  case (Connect i p w)
  then show ?thesis using inv_connect [OF assms(1)] assms(2) by blast
next
  case (Disconnect c)
  then show ?thesis using inv_disconnect(1) [OF assms(1), of c] assms(2) by (simp split: if_splits)
next
  case (Line k msg)
  then show ?thesis using inv_line [OF assms(1), of k msg] assms(2) by (simp split: if_splits)
qed

lemma broker_run_Cons: "broker_run (e # es) br = Ret br' \<longleftrightarrow> (\<exists>br1. broker_step e br = Ret br1 \<and> broker_run es br1 = Ret br')"
  by (cases "broker_step e br") auto

lemma inv_run: "broker_inv br \<Longrightarrow> broker_run es br = Ret br' \<Longrightarrow> broker_inv br'"
  by (induction es arbitrary: br) (auto simp: broker_run_Cons simp del: broker_run.simps(2) intro: broker_inv_step)


text \<open>Two browsers watch one job and one of them leaves.\<close>

definition demo_events :: "unit broker_event list" where
  "demo_events = [Connect ''j1'' [''out.log''] demo_log, Connect ''j1'' [''out.log''] demo_log, Line 0 ''c'', Disconnect 0]"

definition demo_broker :: Broker where
  "demo_broker =
     \<lparr>brHeap = [\<lparr>clID = ''j1'', clExtra = [''out.log''], clReceived = [''c''], clClosed = True\<rparr>,
                \<lparr>clID = ''j1'', clExtra = [''out.log''], clReceived = [''c''], clClosed = False\<rparr>],
      brClients = [1], brCount = Map.empty(''j1'' \<mapsto> 1), brCloseC = Map.empty(''j1'' \<mapsto> 0),
      brTails = [\<lparr>tkID = ''j1'', tkTailer = Tailer 2, tkClosed = False\<rparr>]\<rparr>"

lemma demo_tailer: "tailer_New [''out.log''] demo_log = ((Tailer 2, None), demo_log)"
  by (simp add: tailer_New_def os_Open_def os_simps fs_stat_found demo_log_def bytes_of_def)

lemma demo_broker_run: "broker_run demo_events NewBroker = Ret demo_broker"
  by (simp add: demo_events_def demo_broker_def NewBroker_def broker_new_def count_of_def demo_tailer
      scan_line_def broker_notify_def broker_closing_def Let_def)


section \<open>Delivery\<close>

text \<open>The lines of a job among the events; \<open>br\<close> tells which job a tailer belongs to.\<close>

fun lines_of :: "Broker \<Rightarrow> string \<Rightarrow> 'd broker_event list \<Rightarrow> string list" where
  "lines_of br i [] = []"
| "lines_of br i (Line k msg # es) = (if tkID (brTails br ! k) = i then [msg] else []) @ lines_of br i es"
| "lines_of br i (Connect _ _ _ # es) = lines_of br i es"
| "lines_of br i (Disconnect _ # es) = lines_of br i es"

text \<open>Tailers are never removed and keep their job.\<close>

definition keeps_tails :: "Broker \<Rightarrow> Broker \<Rightarrow> bool" where
  "keeps_tails br br' \<longleftrightarrow> length (brTails br) \<le> length (brTails br') \<and>
     (\<forall>k < length (brTails br). tkID (brTails br' ! k) = tkID (brTails br ! k))"

lemma tkID_close: "tkID (ts[m := (ts ! m)\<lparr>tkClosed := True\<rparr>] ! k) = tkID (ts ! k)"
  by (cases "m < length ts") (auto simp: nth_list_update list_update_beyond not_less)

lemma closing_tails: "broker_closing c br = Ret br' \<Longrightarrow> keeps_tails br br'"
  by (auto simp: broker_closing_def send_close_def keeps_tails_def Let_def tkID_close split: if_splits option.splits)

lemma closing_heap:
  "broker_closing c br = Ret br' \<Longrightarrow> brHeap br' = (brHeap br)[c := (brHeap br ! c)\<lparr>clClosed := True\<rparr>] \<and>
     brClients br' = removeAll c (brClients br)"
  by (auto simp: broker_closing_def send_close_def Let_def split: if_splits option.splits)

lemma step_delivers:
  assumes "broker_inv br" and "broker_step e br = Ret br'" and "c \<in> set (brClients br)" and "e \<noteq> Disconnect c"
  shows "c \<in> set (brClients br') \<and> clID (brHeap br' ! c) = clID (brHeap br ! c) \<and> keeps_tails br br' \<and>
     clReceived (brHeap br' ! c) = clReceived (brHeap br ! c) @ lines_of br (clID (brHeap br ! c)) [e]"
proof -
  have c: "c < length (brHeap br)" using assms(1,3) by (auto simp: broker_inv_def)
  show ?thesis
  proof (cases e)
    case (Connect i p w)
    then show ?thesis
      using assms(2,3) c by (auto simp: broker_new_def Let_def nth_append keeps_tails_def split: if_splits prod.splits)
  next
    case (Disconnect d)
    then have d: "broker_closing d br = Ret br'" "d \<noteq> c" using assms(2,4) by (auto split: if_splits)
    show ?thesis using closing_tails [OF d(1)] closing_heap [OF d(1)] d(2) assms(3) Disconnect by auto
  next
    case (Line k msg)
    then have l: "scan_line k msg br = Ret br'" using assms(2) by (auto split: if_splits)
    then have "tkTailer (brTails br ! k) \<noteq> NilTailer" by (auto simp: scan_line_def)
    then obtain h where "scan_line k msg br = Ret (br\<lparr>brHeap := h\<rparr>)"
        and h: "h ! c = (if clID (brHeap br ! c) = tkID (brTails br ! k)
             then (brHeap br ! c)\<lparr>clReceived := clReceived (brHeap br ! c) @ [msg]\<rparr> else brHeap br ! c)"
      by (rule scan_line_ok [OF assms(1), of k msg]) (use assms(3) in simp)
    then have "br' = br\<lparr>brHeap := h\<rparr>" using l by simp
    then show ?thesis using assms(3) Line h by (simp add: keeps_tails_def)
  qed
qed

lemma run_tails: "broker_inv br \<Longrightarrow> broker_run es br = Ret br' \<Longrightarrow> keeps_tails br br'"
proof (induction es arbitrary: br)
  case (Cons e es)
  then obtain br1 where s: "broker_step e br = Ret br1" "broker_run es br1 = Ret br'"
    by (auto simp: broker_run_Cons simp del: broker_run.simps(2))
  have "keeps_tails br br1"
  proof (cases e)
    case (Line k msg)
    then have l: "scan_line k msg br = Ret br1" using s(1) by (auto split: if_splits)
    then show ?thesis by (auto simp: scan_line_def broker_notify_def keeps_tails_def split: if_splits outcome.splits)
  qed (use s(1) closing_tails in \<open>auto simp: broker_new_def Let_def nth_append keeps_tails_def split: if_splits prod.splits\<close>)
  moreover have "keeps_tails br1 br'" using Cons.IH [OF broker_inv_step [OF Cons.prems(1) s(1)] s(2)] .
  ultimately show ?case by (fastforce simp: keeps_tails_def)
qed (simp add: keeps_tails_def)

lemma run_delivers:
  assumes "broker_inv br" and "c \<in> set (brClients br)" and "broker_run es br = Ret br'" and "Disconnect c \<notin> set es"
  shows "clReceived (brHeap br' ! c) = clReceived (brHeap br ! c) @ lines_of br' (clID (brHeap br ! c)) es"
  using assms
proof (induction es arbitrary: br)
  case (Cons e es)
  then obtain br1 where s: "broker_step e br = Ret br1" "broker_run es br1 = Ret br'"
    by (auto simp: broker_run_Cons simp del: broker_run.simps(2))
  have inv1: "broker_inv br1" by (rule broker_inv_step [OF Cons.prems(1) s(1)])
  have d: "c \<in> set (brClients br1)" "clID (brHeap br1 ! c) = clID (brHeap br ! c)" "keeps_tails br br1"
      "clReceived (brHeap br1 ! c) = clReceived (brHeap br ! c) @ lines_of br (clID (brHeap br ! c)) [e]"
    using step_delivers [OF Cons.prems(1) s(1) Cons.prems(2)] Cons.prems(4) by auto
  have "lines_of br i [e] = lines_of br' i [e]" for i
    using s(1) d(3) run_tails [OF inv1 s(2)] by (cases e) (auto simp: keeps_tails_def split: if_splits)
  moreover have "lines_of br' i (e # es) = lines_of br' i [e] @ lines_of br' i es" for i by (cases e) auto
  ultimately show ?case using Cons.IH [OF inv1 d(1) s(2)] Cons.prems(4) d(2,4) by simp
qed simp

text \<open>
  C31. A connected client receives the lines of its job, all of them, in order and each once, and
  no line of any other job, whatever other clients come and go, until it disconnects.
\<close>

theorem broker_delivers:
  assumes "broker_run es0 NewBroker = Ret br" and "c \<in> set (brClients br)"
    and "broker_run es br = Ret br'" and "Disconnect c \<notin> set es"
  shows "clReceived (brHeap br' ! c) = clReceived (brHeap br ! c) @ lines_of br' (clID (brHeap br ! c)) es"
  using run_delivers [OF inv_run [OF inv_NewBroker assms(1)] assms(2-)] .

theorem broker_delivers_witness:
  "\<exists>br'. broker_run [Line 0 ''d'', Line 0 ''e'' :: unit broker_event] demo_broker = Ret br' \<and>
     clReceived (brHeap br' ! 1) = [''c'', ''d'', ''e'']"
proof -
  obtain br' where r: "broker_run [Line 0 ''d'', Line 0 ''e'' :: unit broker_event] demo_broker = Ret br'"
      "brTails br' = brTails demo_broker"
    by (simp add: demo_broker_def scan_line_def broker_notify_def)
  then show ?thesis
    using broker_delivers [OF demo_broker_run, of 1 "[Line 0 ''d'', Line 0 ''e'']" br'] by (auto simp: demo_broker_def)
qed

text \<open>
  The log of a job that has just been bootstrapped does not exist yet. If the first client
  of a job connects at that moment, its tailer has no file, and the goroutine that reads it
  panics, which ends the whole server.
\<close>

theorem broker_missing_log_panics:
  assumes "quiet w" and "is_dir (root w) p" and "lookup (root w) (p @ [f]) = None" and "count_of br i = 0"
  shows "\<exists>br'. broker_step (Connect i (p @ [f]) w) br = Ret br' \<and>
     broker_step (Line (length (brTails br)) msg :: 'd broker_event) br' = Panic ''nil pointer dereference''"
proof -
  have "tailer_New (p @ [f]) w = ((NilTailer, Some (PathError ''open'' (p @ [f]) ENOENT)), w)"
    using assms(1-3) by (simp add: tailer_New_def os_Open_def os_simps fs_stat_missing)
  then show ?thesis
    using assms(4) by (simp add: broker_new_def Let_def count_of_def scan_line_def)
qed

theorem broker_missing_log_panics_witness:
  "\<exists>br'. broker_step (Connect ''j2'' [''none''] demo_log) NewBroker = Ret br' \<and>
     broker_step (Line 0 [] :: unit broker_event) br' = Panic ''nil pointer dereference''"
  using broker_missing_log_panics [of demo_log "[]" "''none''" NewBroker "''j2''" "[]"]
  by (simp add: demo_log_def is_dir_def NewBroker_def count_of_def)

end
