(* ===== verification/Handlers.thy ===== *)
theory Handlers
  imports Pool Rebuild Broker
begin

text \<open>
  The HTTP side of \<open>cmd/mistryd/server.go\<close>: the server with its worker pool and its broker, and
  the handlers of its routes. A handler that waits for others is split at the wait:
  \<open>HandleNewJob\<close> takes what the pool does meanwhile as an argument, and \<open>HandleServerPush\<close> ends
  in the state in which it forwards messages of the broker. The file server behind \<open>/\<close>, the
  Prometheus handler behind \<open>/metrics\<close> and the network are not modelled; the page that
  \<open>html/template\<close> renders from the embedded template is an argument of \<open>HandleShowJob\<close>.
\<close>

section \<open>Requests and responses\<close>

record request =
  qMethod :: string
  qPath :: string
  qQuery :: "string list"
  qContentType :: string
  qBody :: "goerr + content"

text \<open>
  An \<open>http.ResponseWriter\<close>: the live header map, the status and the headers as they were when the
  status was written, and the chunks of the body.
\<close>

record ResponseWriter =
  wHeader :: "(string \<times> string) list"
  wStatus :: "nat option"
  wSent :: "(string \<times> string) list"
  wBody :: "content list"

definition NewResponseWriter :: ResponseWriter where
  "NewResponseWriter = \<lparr>wHeader = [], wStatus = None, wSent = [], wBody = []\<rparr>"

definition Header_Set :: "string \<Rightarrow> string \<Rightarrow> ResponseWriter \<Rightarrow> ResponseWriter" where
  "Header_Set k v rw = rw\<lparr>wHeader := AList.update k v (wHeader rw)\<rparr>"

text \<open>A second \<open>WriteHeader\<close> is ignored; the first \<open>Write\<close> writes the status 200 if there is none.\<close>

definition WriteHeader :: "nat \<Rightarrow> ResponseWriter \<Rightarrow> ResponseWriter" where
  "WriteHeader code rw =
     (if wStatus rw = None then rw\<lparr>wStatus := Some code, wSent := wHeader rw\<rparr> else rw)"

definition Write :: "content \<Rightarrow> ResponseWriter \<Rightarrow> ResponseWriter" where
  "Write c rw = (let rw = WriteHeader 200 rw in rw\<lparr>wBody := wBody rw @ [c]\<rparr>)"

definition http_Error :: "string \<Rightarrow> nat \<Rightarrow> ResponseWriter \<Rightarrow> ResponseWriter" where
  "http_Error msg code rw =
     Write (Text (msg @ [CHR 0x0A])) (WriteHeader code
       (Header_Set ''X-Content-Type-Options'' ''nosniff''
         (Header_Set ''Content-Type'' ''text/plain; charset=utf-8'' rw)))"

section \<open>The server\<close>

record 'd HttpServer = "'d Server" +
  sPool :: WorkerPool
  sBr :: Broker

text \<open>\<open>fserr\<close> is the error of opening the embedded files, after which the process exits.\<close>

definition NewServer :: "goerr option \<Rightarrow> 'd Config option \<Rightarrow> bool \<Rightarrow> (goerr + 'd HttpServer) outcome" where
  "NewServer fserr cfgp enableMetrics =
     (case cfgp of
        None \<Rightarrow> Ret (Inl (ErrorString ''config cannot be nil''))
      | Some cfg \<Rightarrow>
          (case fserr of
             Some err \<Rightarrow> Panic (Error err)
           | None \<Rightarrow>
               (case NewWorkerPool (cConcurrency cfg) (cBacklog cfg) of
                  Blocked \<Rightarrow> Blocked
                | Panic m \<Rightarrow> Panic m
                | Ret pool \<Rightarrow>
                    Ret (Inr \<lparr>sCfg = cfg, sJq = NewJobQueue, sPq = NewProjectQueue,
                           sMetrics = (if enableMetrics then Some NewRecorder else None),
                           sPool = pool, sBr = NewBroker\<rparr>))))"

section \<open>New jobs\<close>

text \<open>\<open>%v\<close> of a \<open>JobRequest\<close>, and \<open>%s\<close> of a job (\<open>fmt\<close> catches a panic of \<open>String\<close>).\<close>

definition fmt_JobRequest :: "JobRequest \<Rightarrow> string" where
  "fmt_JobRequest jr =
     ''{'' @ rProject jr @ '' '' @ fmt_Params (rParams jr) @ '' '' @ rGroup jr @ '' '' @ (if rRebuild jr then ''true'' else ''false'') @ ''}''"

definition fmt_Job :: "Job \<Rightarrow> string" where
  "fmt_Job j = (case Job_String j of Ret s \<Rightarrow> s | Panic m \<Rightarrow> ''%!s(PANIC='' @ m @ '')'' | Blocked \<Rightarrow> [])"

definition writeWorkResult :: "Job \<Rightarrow> WorkResult \<Rightarrow> ResponseWriter \<Rightarrow> ResponseWriter" where
  "writeWorkResult j r rw =
     (case wrErr r of
        Some err \<Rightarrow> http_Error (''Error building '' @ fmt_Job j @ '': '' @ Error err) 500 rw
      | None \<Rightarrow>
          let rw = WriteHeader 201 rw;
              rw = Header_Set ''Content-Type'' ''application/json'' rw
          in Write (Doc (case wrBuildInfo r of None \<Rightarrow> JNull | Some bi \<Rightarrow> marshal_BuildInfo bi)) rw)"

text \<open>Up to the wait: the handler has answered, or it waits for the future of its job.\<close>

datatype new_job = Answered ResponseWriter | Awaits Job nat ResponseWriter

definition schedule_job ::
  "'d env \<Rightarrow> 'd HttpServer \<Rightarrow> request \<Rightarrow> ResponseWriter \<Rightarrow> 'd world \<Rightarrow> (new_job \<times> 'd HttpServer \<times> 'd world) outcome" where
  "schedule_job env s q rw w =
     (if qMethod q \<noteq> ''POST''
      then Ret (Answered (http_Error (''Expected POST, got '' @ qMethod q) 405 rw), s, w)
      else case qBody q of
        Inl err \<Rightarrow> Ret (Answered (http_Error (''Error reading request body: '' @ Error err) 400 rw), s, w)
      | Inr body \<Rightarrow>
          (case unmarshal_JobRequest body of
             Inl err \<Rightarrow>
               Ret (Answered (http_Error (''Error unmarshalling body '' @ quoted (bytes_of body) @ '' to Job: '' @ Error err) 400 rw), s, w)
           | Inr jr \<Rightarrow>
               (case NewJob env (rProject jr) (rParams jr) (rGroup jr) (Some (sCfg s)) w of
                  (Inl err, w) \<Rightarrow>
                    Ret (Answered (http_Error (''Error creating new job '' @ fmt_JobRequest jr @ '': '' @ Error err) 500 rw), s, w)
                | (Inr j, w) \<Rightarrow>
                    let j = j\<lparr>jRebuild := rRebuild jr\<rparr>
                    in case SendWork (sPool s) j of
                         Blocked \<Rightarrow> Blocked
                       | Panic m \<Rightarrow> Panic m
                       | Ret ((future, Some err), p) \<Rightarrow> Ret (Answered (WriteHeader 503 rw), s\<lparr>sPool := p\<rparr>, w)
                       | Ret ((future, None), p) \<Rightarrow>
                           if ''async'' \<in> set (qQuery q)
                           then Ret (Answered (WriteHeader 201 rw), s\<lparr>sPool := p\<rparr>, w)
                           else Ret (Awaits j future rw, s\<lparr>sPool := p\<rparr>, w))))"

text \<open>The whole handler; \<open>es\<close> is what happens in the pool while it waits.\<close>

definition HandleNewJob ::
  "'d env \<Rightarrow> pool_event list \<Rightarrow> 'd HttpServer \<Rightarrow> request \<Rightarrow> ResponseWriter \<Rightarrow> 'd world \<Rightarrow>
     (ResponseWriter \<times> 'd HttpServer \<times> 'd world) outcome" where
  "HandleNewJob env es s q rw w =
     (case schedule_job env s q rw w of
        Blocked \<Rightarrow> Blocked
      | Panic m \<Rightarrow> Panic m
      | Ret (Answered rw, s, w) \<Rightarrow> Ret (rw, s, w)
      | Ret (Awaits j future rw, s, w) \<Rightarrow>
          (case pool_run es (sPool s) of
             Blocked \<Rightarrow> Blocked
           | Panic m \<Rightarrow> Panic m
           | Ret p \<Rightarrow>
               (case FutureWorkResult_Wait future p of
                  Blocked \<Rightarrow> Blocked
                | Panic m \<Rightarrow> Panic m
                | Ret (r, p) \<Rightarrow> Ret (writeWorkResult j r rw, s\<lparr>sPool := p\<rparr>, w))))"

section \<open>The web view\<close>

text \<open>
  \<open>sort.Slice\<close> orders the jobs by decreasing start time; jobs that started at the same time may
  come in any order and are left as they are here. The elements of a slice are addressable, so
  \<open>Job.MarshalJSON\<close> applies.
\<close>

definition HandleIndex ::
  "'d Server \<Rightarrow> request \<Rightarrow> ResponseWriter \<Rightarrow> 'd world \<Rightarrow> (ResponseWriter \<times> 'd world) outcome" where
  "HandleIndex s q rw w =
     (if qMethod q \<noteq> ''GET''
      then Ret (http_Error (''Expected GET, got '' @ qMethod q) 405 rw, w)
      else case getJobs (sCfg s) w of
        Blocked \<Rightarrow> Blocked
      | Panic m \<Rightarrow> Panic m
      | Ret (Inl err, w) \<Rightarrow> Ret (WriteHeader 500 rw, w)
      | Ret (Inr js, w) \<Rightarrow>
          let js = sort_key (\<lambda>j. - jStartedAt j) js;
              rw = WriteHeader 200 rw;
              rw = Header_Set ''Content-Type'' ''application/json'' rw
          in Ret (Write (Doc (JArr (map Job_MarshalJSON js))) rw, w))"

text \<open>
  \<open>json.Marshal(j)\<close> of a \<open>Job\<close> value: \<open>MarshalJSON\<close> has a pointer receiver and does not apply, so
  the struct is written field by field. Only the ID, the project, the state and the build
  information of the job in question are set.
\<close>

definition shown_json :: "Job \<Rightarrow> json" where
  "shown_json j = JObj
     [(''ID'', JStr (jID j)), (''Project'', JStr (jProject j)), (''Params'', JNull), (''Group'', JStr []),
      (''Rebuild'', JBool False), (''RootBuildPath'', JStr []), (''PendingBuildPath'', JStr []),
      (''ReadyBuildPath'', JStr []), (''LatestBuildPath'', JStr []), (''ReadyDataPath'', JStr []),
      (''ProjectPath'', JStr []), (''BuildLogPath'', JStr []), (''BuildInfoFilePath'', JStr []),
      (''Image'', JStr []), (''ImageTar'', JNull), (''Container'', JStr []), (''StartedAt'', JTime (jStartedAt j)),
      (''BuildInfo'', marshal_BuildInfo (jBuildInfo j)), (''State'', JStr (jState j)), (''Log'', JNull)]"

text \<open>The project and the ID of the paths \<open>/job/<project>/<id>\<close> and \<open>/log/<project>/<id>\<close>.\<close>

definition path_parts :: "request \<Rightarrow> (string \<times> string) option" where
  "path_parts q =
     (let parts = split_on (CHR ''/'') (qPath q)
      in if length parts \<noteq> 4 then None else Some (parts ! 2, parts ! 3))"

definition HandleShowJob ::
  "(Job \<Rightarrow> goerr + string) \<Rightarrow> 'd Server \<Rightarrow> request \<Rightarrow> ResponseWriter \<Rightarrow> 'd world \<Rightarrow> (ResponseWriter \<times> 'd world) outcome" where
  "HandleShowJob page s q rw w =
     (if qMethod q \<noteq> ''GET''
      then Ret (http_Error (''Expected GET, got '' @ qMethod q) 405 rw, w)
      else case path_parts q of
        None \<Rightarrow> Ret (WriteHeader 400 rw, w)
      | Some (project, ident) \<Rightarrow>
          (case GetState (build_dir (sCfg s)) project ident w of
             (Inl err, w) \<Rightarrow> Ret (WriteHeader 500 rw, w)
           | (Inr state, w) \<Rightarrow>
               (case ReadJobBuildInfo (Join (Join (Join (build_dir (sCfg s)) project) state) ident) True w of
                  Blocked \<Rightarrow> Blocked
                | Panic m \<Rightarrow> Panic m
                | Ret (Inl err, w) \<Rightarrow> Ret (WriteHeader 500 rw, w)
                | Ret (Inr None, w) \<Rightarrow> Panic ''nil pointer dereference''
                | Ret (Inr (Some bi), w) \<Rightarrow>
                    let j = zero_Job\<lparr>jBuildInfo := bi, jID := ident, jProject := project, jState := state\<rparr>
                    in if qContentType q = ''application/json''
                       then Ret (Write (Doc (shown_json j)) (Header_Set ''Content-Type'' ''application/json'' rw), w)
                       else case page j of
                              Inl err \<Rightarrow> Ret (WriteHeader 500 rw, w)
                            | Inr html \<Rightarrow> Ret (Write (Text html) rw, w))))"

text \<open>
  Following a log. \<open>flusher\<close> tells whether the connection supports streaming. The handler announces
  its client to the broker and then forwards what the client receives.
\<close>

datatype push = Ended ResponseWriter | Streams nat ResponseWriter

definition HandleServerPush ::
  "bool \<Rightarrow> 'd HttpServer \<Rightarrow> request \<Rightarrow> ResponseWriter \<Rightarrow> 'd world \<Rightarrow> (push \<times> 'd HttpServer \<times> 'd world) outcome" where
  "HandleServerPush flusher s q rw w =
     (if qMethod q \<noteq> ''GET''
      then Ret (Ended (http_Error (''Expected GET, got '' @ qMethod q) 405 rw), s, w)
      else case path_parts q of
        None \<Rightarrow> Ret (Ended (WriteHeader 400 rw), s, w)
      | Some (project, ident) \<Rightarrow>
          (case GetState (build_dir (sCfg s)) project ident w of
             (Inl err, w) \<Rightarrow> Ret (Ended (WriteHeader 500 rw), s, w)
           | (Inr state, w) \<Rightarrow>
               if state \<noteq> ''pending'' then Ret (Ended (WriteHeader 204 rw), s, w)
               else if \<not> flusher then Ret (Ended (http_Error ''Streaming unsupported!'' 500 rw), s, w)
               else
                 let rw = Header_Set ''Access-Control-Allow-Origin'' ''*''
                       (Header_Set ''Connection'' ''keep-alive''
                         (Header_Set ''Cache-Control'' ''no-cache''
                           (Header_Set ''Content-Type'' ''text/event-stream'' rw)));
                     buildLogPath = Join (Join (Join (Join (build_dir (sCfg s)) project) state) ident) BuildLogFname;
                     client = length (brHeap (sBr s))
                 in case broker_step (Connect ident buildLogPath w) (sBr s) of
                      Blocked \<Rightarrow> Blocked
                    | Panic m \<Rightarrow> Panic m
                    | Ret br \<Rightarrow> Ret (Streams client rw, s\<lparr>sBr := br\<rparr>, w)))"

text \<open>The loop over \<open>client.Data\<close>: what has been written after the given messages.\<close>

definition push_messages :: "string list \<Rightarrow> ResponseWriter \<Rightarrow> ResponseWriter" where
  "push_messages msgs rw = fold (\<lambda>msg. Write (Text (''data: '' @ msg @ [CHR 0x0A, CHR 0x0A]))) msgs rw"

text \<open>One round of the goroutine that \<open>ListenAndServe\<close> starts; a nil recorder is dereferenced.\<close>

definition record_hosted :: "'d Server \<Rightarrow> 'd world \<Rightarrow> ('d Server \<times> 'd world) outcome" where
  "record_hosted s w =
     (case sMetrics s of
        Some m \<Rightarrow>
          let (m, w) = RecordHostedBuilds (build_dir (sCfg s)) (projects_dir (sCfg s)) m w
          in Ret (s\<lparr>sMetrics := Some m\<rparr>, w)
      | None \<Rightarrow>
          (case os_ReadDir (projects_dir (sCfg s)) w of
             (Inr [], w) \<Rightarrow> Ret (s, w)
           | _ \<Rightarrow> Panic ''nil pointer dereference''))"

end
