(* ===== verification/Reads.thy ===== *)
theory Reads
  imports Handlers
begin

text \<open>
  The web view only reads: its handlers (\<open>cmd/mistryd/server.go\<close>) never change the tree, under
  all faults.
\<close>

named_theorems read_only \<open>calls that leave the tree alone\<close>

definition reads :: "'d world \<Rightarrow> 'd world \<Rightarrow> bool" where
  "reads w w' \<longleftrightarrow> root w' = root w \<and> (quiet w \<longrightarrow> quiet w')"

lemma reads_refl [simp]: "reads w w"
  by (simp add: reads_def)

lemma reads_trans: "reads w w' \<Longrightarrow> reads w' w'' \<Longrightarrow> reads w w''"
  by (simp add: reads_def)

lemma path_get_reads: "path_get op p f w = (x, w') \<Longrightarrow> reads w w'"
  by (auto simp: reads_def os_simps split: sum.splits dest: path_get_root)

lemma os_reads [read_only]:
  "os_Stat p w = (a, w') \<Longrightarrow> reads w w'"
  "os_Lstat p w = (a, w') \<Longrightarrow> reads w w'"
  "os_ReadFile p w = (b, w') \<Longrightarrow> reads w w'"
  "os_ReadDir p w = (c, w') \<Longrightarrow> reads w w'"
  by (auto simp: os_Stat_def os_Lstat_def os_ReadFile_def os_ReadDir_def dest!: path_get_reads)

lemma clock_reads [read_only]:
  "time_Now w = (t, w') \<Longrightarrow> reads w w'"
  "NewBuildInfo w = (bi, w') \<Longrightarrow> reads w w'"
  by (auto simp: reads_def time_Now_def NewBuildInfo_def Let_def split: list.splits prod.splits)

lemma ReadJobLogs_reads [read_only]: "ReadJobLogs p w = (x, w') \<Longrightarrow> reads w w'"
  by (auto simp: ReadJobLogs_def split: prod.splits sum.splits dest: read_only)

lemma NewJob_reads [read_only]: "NewJob env project params grp cfgp w = (x, w') \<Longrightarrow> reads w w'"
  by (auto simp: NewJob_def Tar_def Let_def split: if_splits option.splits prod.splits sum.splits
      dest!: read_only intro: reads_trans)

lemma ReadJobBuildInfo_reads [read_only]: "ReadJobBuildInfo p logs w = Ret (x, w') \<Longrightarrow> reads w w'"
  by (auto simp: ReadJobBuildInfo_def Let_def split: if_splits option.splits prod.splits sum.splits
      dest!: read_only intro: reads_trans)

lemma GetState_reads [read_only]: "GetState p project i w = (x, w') \<Longrightarrow> reads w w'"
  by (auto simp: GetState_def Let_def split: prod.splits sum.splits dest!: read_only intro: reads_trans)

lemma getJob_reads [read_only]: "getJob p i project st w = Ret (x, w') \<Longrightarrow> reads w w'"
  by (auto simp: getJob_def split: outcome.splits prod.splits sum.splits option.splits dest!: read_only)

lemma append_jobs_reads [read_only]: "append_jobs p project st ids js w = Ret (x, w') \<Longrightarrow> reads w w'"
proof (induction p project st ids js w rule: append_jobs.induct)
  case (2 p project st i ids js w)
  then show ?case
    by (auto split: outcome.splits prod.splits sum.splits dest!: getJob_reads intro: reads_trans)
qed simp

lemma scan_reads [read_only]:
  "scan_state p st dir old ex w = (x, w') \<Longrightarrow> reads w w'"
  "path_exists st dir w = (y, w') \<Longrightarrow> reads w w'"
  by (auto simp: scan_state_def path_exists_def split: if_splits prod.splits sum.splits dest!: read_only)

lemma project_jobs_reads [read_only]: "project_jobs bp ps pj rj js w = Ret (x, w') \<Longrightarrow> reads w w'"
proof (induction ps arbitrary: pj rj js w)
  case (Cons p ps)
  from Cons.prems show ?case
    by (auto simp: Let_def reads_def split: outcome.splits prod.splits sum.splits
        dest!: scan_reads append_jobs_reads Cons.IH)
qed simp

lemma getJobs_reads [read_only]: "getJobs cfg w = Ret (x, w') \<Longrightarrow> reads w w'"
  by (auto simp: getJobs_def split: prod.splits sum.splits dest!: read_only intro: reads_trans)

lemma HandleIndex_reads [read_only]: "HandleIndex s q rw w = Ret (x, w') \<Longrightarrow> reads w w'"
  by (auto simp: HandleIndex_def Let_def split: if_splits outcome.splits prod.splits sum.splits dest!: read_only)

lemma HandleShowJob_reads [read_only]: "HandleShowJob page s q rw w = Ret (x, w') \<Longrightarrow> reads w w'"
  by (auto simp: HandleShowJob_def Let_def split: if_splits outcome.splits prod.splits sum.splits option.splits
      dest!: read_only intro: reads_trans)

lemma HandleServerPush_reads [read_only]: "HandleServerPush flusher s q rw w = Ret (x, s', w') \<Longrightarrow> reads w w'"
  by (auto simp: HandleServerPush_def Let_def split: if_splits outcome.splits prod.splits sum.splits option.splits dest!: read_only)

lemma schedule_job_reads [read_only]: "schedule_job env s q rw w = Ret (x, s', w') \<Longrightarrow> reads w w'"
  by (auto simp: schedule_job_def Let_def split: if_splits outcome.splits prod.splits sum.splits option.splits dest!: read_only)

lemma record_projects_reads [read_only]: "record_projects B ps r w = (x, w') \<Longrightarrow> reads w w'"
proof (induction B ps r w rule: record_projects.induct)
  case (2 B p ps r w)
  then show ?case by (auto split: prod.splits sum.splits dest!: os_reads intro: reads_trans)
qed simp

lemma record_hosted_reads [read_only]: "record_hosted s w = Ret (s', w') \<Longrightarrow> reads w w'"
  by (auto simp: record_hosted_def RecordHostedBuilds_def Let_def split: option.splits prod.splits sum.splits list.splits
      dest!: read_only intro: reads_trans)

end
