(* ===== verification/Web_Props.thy ===== *)
theory Web_Props
  imports Handlers
begin

text \<open>
  Properties of \<open>HandleNewJob\<close>: how a request travels through the worker pool, and how it is
  answered.
\<close>

section \<open>New jobs\<close>

text \<open>An accepted item keeps its result channel to itself: later items have later channels.\<close>

lemma open_items_member: "x \<in> set (open_items p) \<longleftrightarrow> x \<in> set (pQueue p) \<or> Busy x \<in> set (pWorkers p)"
proof -
  have "x \<in> set (concat (map item_of ws)) \<longleftrightarrow> Busy x \<in> set ws" for ws
  proof (induction ws)
    case (Cons s ws)
    then show ?case by (cases s) auto
  qed simp
  then show ?thesis by (simp add: open_items_def)
qed

lemma busy_update: "Busy x \<in> set (ws[i := s]) \<Longrightarrow> Busy x \<in> set ws \<or> s = Busy x"
  using set_update_subset_insert [of ws i s] by auto

lemma open_items_step:
  assumes "pool_step e p = Ret p'" and "x \<in> set (open_items p')" and "wiResult x < length (pChans p)"
  shows "x \<in> set (open_items p)"
proof (cases e)
  case (Send j)
  then show ?thesis
    using assms by (auto simp: SendWork_def Let_def open_items_member split: if_splits list.splits outcome.splits dest!: busy_update)
next
  case (Receive i)
  then show ?thesis
    using assms by (auto simp: work_receive_def open_items_member split: if_splits list.splits dest!: busy_update)
next
  case (Finish i r)
  then show ?thesis
    using assms by (auto simp: work_finish_def Let_def open_items_member split: if_splits wstate.splits dest!: busy_update)
next
  case (Collect n)
  then show ?thesis
    using assms by (auto simp: FutureWorkResult_Wait_def open_items_member split: if_splits option.splits outcome.splits)
next
  case Close
  then show ?thesis
    using assms by (auto simp: Stop_close_def open_items_member split: if_splits)
qed

lemma step_chans: "pool_step e p = Ret p' \<Longrightarrow> length (pChans p) \<le> length (pChans p')"
  by (cases e) (auto simp: SendWork_def work_receive_def work_finish_def FutureWorkResult_Wait_def Stop_close_def Let_def
      split: outcome.splits list.splits if_splits wstate.splits option.splits)

lemma open_items_run:
  "pool_run es p = Ret p' \<Longrightarrow> x \<in> set (open_items p') \<Longrightarrow> wiResult x < length (pChans p) \<Longrightarrow> x \<in> set (open_items p)"
proof (induction es arbitrary: p)
  case (Cons e es)
  then obtain q where q: "pool_step e p = Ret q" "pool_run es q = Ret p'"
    by (auto simp: pool_run_Cons simp del: pool_run.simps)
  have "x \<in> set (open_items q)"
    using Cons.IH [OF q(2)] Cons.prems(2,3) step_chans [OF q(1)] by simp
  then show ?case using open_items_step [OF q(1)] Cons.prems(3) by blast
qed simp

text \<open>What a waiting handler has put into the pool.\<close>

lemma schedule_job_awaits:
  assumes "schedule_job env s q rw w = Ret (Awaits j future rw', s', w')"
  obtains "SendWork (sPool s) j = Ret ((future, None), sPool s')" and "rw' = rw" and "s' = s\<lparr>sPool := sPool s'\<rparr>"
  using assms
  by (auto simp: schedule_job_def Let_def split: if_splits sum.splits prod.splits outcome.splits option.splits)

lemma SendWork_item:
  assumes "pool_inv p" and "SendWork p j = Ret ((n, None), p')"
  shows "n = length (pChans p)" "length (pChans p') = Suc n"
    "\<And>x. x \<in> set (open_items p') \<Longrightarrow> wiResult x = n \<Longrightarrow> x = \<lparr>wiJob = j, wiResult = n\<rparr>"
proof -
  show n: "n = length (pChans p)" "length (pChans p') = Suc n"
    using assms(2) by (auto simp: SendWork_def Let_def split: if_splits list.splits)
  fix x assume x: "x \<in> set (open_items p')" "wiResult x = n"
  have "x \<notin> set (open_items p)"
    using assms(1) x(2) n(1) by (auto simp: pool_inv_def)
  moreover have "x \<in> set (open_items p) \<or> x = \<lparr>wiJob = j, wiResult = n\<rparr>"
    using assms(2) x by (auto simp: SendWork_def Let_def open_items_member split: if_splits list.splits dest!: busy_update)
  ultimately show "x = \<lparr>wiJob = j, wiResult = n\<rparr>" by blast
qed

text \<open>Whatever the pool does, a waiting handler ends with the result of its own job.\<close>

lemma HandleNewJob_result:
  assumes "reachable n b (sPool s)" and "schedule_job env s q rw0 w = Ret (Awaits j future rw, s1, w1)"
    and "pool_run es (sPool s1) = Ret p" and "i < length (pWorkers p)" and "pWorkers p ! i = Busy item"
    and "wiResult item = future" and "work_finish i r p = Ret p'"
    and "pool_run es' p' = Ret p''" and "Collect future \<notin> set es'"
  shows "wiJob item = j \<and>
     (\<exists>s'. HandleNewJob env (es @ Finish i r # es') s q rw0 w = Ret (writeWorkResult j r rw0, s', w1))"
proof -
  obtain S: "SendWork (sPool s) j = Ret ((future, None), sPool s1)" and rw: "rw = rw0"
    by (rule schedule_job_awaits [OF assms(2)]) simp
  note inv = reachable_inv [OF assms(1)]
  note inv1 = inv_Send [OF inv S]
  note item = SendWork_item [OF inv S]
  have "item \<in> set (open_items p)" using assms(4,5) by (auto simp: open_items_member) (metis nth_mem)
  then have "item \<in> set (open_items (sPool s1))"
    using open_items_run [OF assms(3)] assms(6) item(2) by simp
  then have "item = \<lparr>wiJob = j, wiResult = future\<rparr>" using item(3) assms(6) by blast
  then have jb: "wiJob item = j" by simp
  have invp: "pool_inv p" by (rule pool_run_inv [OF inv1 assms(3)])
  have "delivered future r p''"
    using delivered_run [OF inv_Finish [OF invp assms(7)] finish_delivered [OF invp assms(4,5,7)] assms(8)] assms(6,9) by simp
  then obtain p3 where p3: "FutureWorkResult_Wait future p'' = Ret (r, p3)"
    by (auto simp: delivered_def FutureWorkResult_Wait_def)
  have app: "pool_run (xs @ ys) u = Ret v" if "pool_run xs u = Ret t" "pool_run ys t = Ret v" for xs ys t u v
    using that by (induction xs arbitrary: u) (auto split: outcome.splits)
  have "pool_run (es @ Finish i r # es') (sPool s1) = Ret p''"
    by (rule app [OF assms(3)]) (use assms(7,8) in simp)
  then show ?thesis
    using assms(2) p3 rw jb by (simp add: HandleNewJob_def)
qed

lemma writeWorkResult_sel:
  "wrErr r = Some e \<Longrightarrow> wStatus (writeWorkResult j r NewResponseWriter) = Some 500"
  "wrErr r = None \<Longrightarrow> wStatus (writeWorkResult j r NewResponseWriter) = Some 201 \<and>
     wSent (writeWorkResult j r NewResponseWriter) = [] \<and>
     wBody (writeWorkResult j r NewResponseWriter) =
       [Doc (case wrBuildInfo r of None \<Rightarrow> JNull | Some bi \<Rightarrow> marshal_BuildInfo bi)]"
  by (simp_all add: writeWorkResult_def NewResponseWriter_def WriteHeader_def Write_def Header_Set_def http_Error_def Let_def)

text \<open>
  A request that is not asynchronous is answered with the result of its own job: when,
  after any events of the pool, a worker has taken the item with the handler's future, that item
  is the job of the request; and when the worker has finished it with a result, and after any
  further events, \<open>HandleNewJob\<close> returns. The answer is 201 with the build information of that
  result as JSON, or 500 if the result is an error. (The content type of the 201 answer is set
  too late to be sent.)
\<close>

theorem HandleNewJob_serves:
  assumes "reachable n b (sPool s)" and "schedule_job env s q NewResponseWriter w = Ret (Awaits j future rw, s1, w1)"
    and "pool_run es (sPool s1) = Ret p" and "i < length (pWorkers p)" and "pWorkers p ! i = Busy item"
    and "wiResult item = future" and "work_finish i r p = Ret p'"
    and "pool_run es' p' = Ret p''" and "Collect future \<notin> set es'"
  shows "wiJob item = j \<and>
     (\<exists>rw' s'. HandleNewJob env (es @ Finish i r # es') s q NewResponseWriter w = Ret (rw', s', w1) \<and>
        (case wrErr r of
           Some e \<Rightarrow> wStatus rw' = Some 500
         | None \<Rightarrow> wStatus rw' = Some 201 \<and> wSent rw' = [] \<and>
             wBody rw' = [Doc (case wrBuildInfo r of None \<Rightarrow> JNull | Some bi \<Rightarrow> marshal_BuildInfo bi)]))"
  using HandleNewJob_result [OF assms] writeWorkResult_sel [of r] by (auto split: option.splits)

definition demo_http :: "nat HttpServer" where
  "demo_http = \<lparr>sCfg = demo_config, sJq = NewJobQueue, sPq = NewProjectQueue, sMetrics = Some NewRecorder,
     sPool = demo_pool, sBr = NewBroker\<rparr>"

definition demo_request :: JobRequest where
  "demo_request = \<lparr>rProject = ''app'', rParams = [(''a'', ''1'')], rGroup = [], rRebuild = True\<rparr>"

definition demo_post :: "string list \<Rightarrow> request" where
  "demo_post query = \<lparr>qMethod = ''POST'', qPath = ''/jobs'', qQuery = query, qContentType = ''application/json'',
     qBody = Inr (Doc (marshal_JobRequest demo_request))\<rparr>"

lemma demo_request_decodes: "unmarshal_JobRequest (Doc (marshal_JobRequest demo_request)) = Inr demo_request"
  using unmarshal_marshal_JobRequest [of demo_request] by (simp add: demo_request_def)

lemma demo_schedules:
  assumes "qMethod q = ''POST''" and "qQuery q = []" and "qBody q = Inr body" and "unmarshal_JobRequest body = Inr jr"
    and "rProject jr = ''app''" and "rGroup jr = []"
  shows "\<exists>j w'. schedule_job (demo_env 0) demo_http q rw (demo_world demo_tree) =
     Ret (Awaits j 0 rw, demo_http\<lparr>sPool := demo_pool\<lparr>pChans := [\<lparr>rcBuf = None, rcClosed = False\<rparr>],
        pQueue := [\<lparr>wiJob = j, wiResult = 0\<rparr>]\<rparr>\<rparr>, w')"
proof -
  have "\<exists>t w1. Tar (demo_env 0) [''projects'', ''app''] (demo_world demo_tree) = (Inr t, w1)"
    by (simp add: Tar_def os_simps demo_tree_def)
  then obtain j w' where "NewJob (demo_env 0) ''app'' (rParams jr) [] (Some demo_config) (demo_world demo_tree) = (Inr j, w')"
    by (fastforce simp: NewJob_def Let_def clean_name_def split: prod.splits)
  moreover have "SendWork demo_pool (j\<lparr>jRebuild := rRebuild jr\<rparr>) = Ret ((0, None), demo_pool\<lparr>pChans := [\<lparr>rcBuf = None, rcClosed = False\<rparr>],
        pQueue := [\<lparr>wiJob = j\<lparr>jRebuild := rRebuild jr\<rparr>, wiResult = 0\<rparr>]\<rparr>)"
    by (simp add: SendWork_def demo_pool_def)
  ultimately show ?thesis
    using assms by (simp add: schedule_job_def demo_http_def) (auto simp: Let_def)
qed

text \<open>The pool of the example from there on: its worker takes the item, and finishes it.\<close>

lemma demo_performs:
  assumes "p0 = demo_pool\<lparr>pChans := [\<lparr>rcBuf = None, rcClosed = False\<rparr>], pQueue := [\<lparr>wiJob = j, wiResult = 0\<rparr>]\<rparr>"
  obtains p p' where "pool_run [Receive 0] p0 = Ret p" and "pWorkers p = [Busy \<lparr>wiJob = j, wiResult = 0\<rparr>]"
    and "work_finish 0 r p = Ret p'" and "pool_run [] p' = Ret p'"
  using assms by (simp add: work_receive_def work_finish_def demo_pool_def)

lemma demo_http_reachable: "reachable 1 2 (sPool demo_http)"
  using reachable.start [OF demo_pool_new] by (simp add: demo_http_def)

theorem HandleNewJob_serves_witness:
  "\<exists>rw s' w'. HandleNewJob (demo_env 0) ([Receive 0] @ Finish 0 \<lparr>wrBuildInfo = Some (demo_info 0), wrErr = None\<rparr> # [])
       demo_http (demo_post []) NewResponseWriter (demo_world demo_tree) = Ret (rw, s', w') \<and>
     wStatus rw = Some 201 \<and> wBody rw = [Doc (marshal_BuildInfo (demo_info 0))]"
proof -
  let ?r = "\<lparr>wrBuildInfo = Some (demo_info 0), wrErr = None\<rparr>"
  have q: "qMethod (demo_post []) = ''POST''" "qQuery (demo_post []) = []"
      "qBody (demo_post []) = Inr (Doc (marshal_JobRequest demo_request))" "rProject demo_request = ''app''" "rGroup demo_request = []"
    by (simp_all add: demo_post_def demo_request_def)
  obtain j w' where a: "schedule_job (demo_env 0) demo_http (demo_post []) NewResponseWriter (demo_world demo_tree) =
     Ret (Awaits j 0 NewResponseWriter, demo_http\<lparr>sPool := demo_pool\<lparr>pChans := [\<lparr>rcBuf = None, rcClosed = False\<rparr>],
        pQueue := [\<lparr>wiJob = j, wiResult = 0\<rparr>]\<rparr>\<rparr>, w')"
    using demo_schedules [OF q(1-3) demo_request_decodes q(4,5)] by blast
  obtain p p' where p: "pool_run [Receive 0] (sPool (demo_http\<lparr>sPool := demo_pool\<lparr>pChans := [\<lparr>rcBuf = None, rcClosed = False\<rparr>],
        pQueue := [\<lparr>wiJob = j, wiResult = 0\<rparr>]\<rparr>\<rparr>)) = Ret p" "pWorkers p = [Busy \<lparr>wiJob = j, wiResult = 0\<rparr>]"
      "work_finish 0 ?r p = Ret p'" "pool_run [] p' = Ret p'"
    by (rule demo_performs [of _ j ?r]) simp_all
  from HandleNewJob_serves [OF demo_http_reachable a p(1) _ _ _ p(3,4)] p(2) show ?thesis by fastforce
qed

text \<open>The status of a request that is answered before any build, and none for one that waits.\<close>

definition early_status :: "'d env \<Rightarrow> 'd HttpServer \<Rightarrow> request \<Rightarrow> 'd world \<Rightarrow> nat option" where
  "early_status env s q w =
     (if qMethod q \<noteq> ''POST'' then Some 405
      else case qBody q of
        Inl _ \<Rightarrow> Some 400
      | Inr body \<Rightarrow>
          (case unmarshal_JobRequest body of
             Inl _ \<Rightarrow> Some 400
           | Inr jr \<Rightarrow>
               (case fst (NewJob env (rProject jr) (rParams jr) (rGroup jr) (Some (sCfg s)) w) of
                  Inl _ \<Rightarrow> Some 500
                | Inr _ \<Rightarrow>
                    if pWaiters (sPool s) = [] \<and> length (pQueue (sPool s)) = nat (pBacklogSize (sPool s)) then Some 503
                    else if ''async'' \<in> set (qQuery q) then Some 201 else None)))"

lemma SendWork_open:
  assumes "pool_inv p" and "\<not> pClosed p"
  shows "\<exists>n err p'. SendWork p j = Ret ((n, err), p') \<and>
     (err \<noteq> None \<longleftrightarrow> pWaiters p = [] \<and> length (pQueue p) = nat (pBacklogSize p)) \<and>
     (err \<noteq> None \<longrightarrow> open_items p' = open_items p)"
  using assms by (cases "pWaiters p") (auto simp: SendWork_def Let_def pool_inv_def open_items_def)

text \<open>
  C22. While the pool is open, a request for a new job never blocks before its job is queued and
  never panics. A wrong method is answered with 405, an unreadable or malformed body with 400, a
  request for which no job can be made with 500, a full backlog with 503 and an accepted
  asynchronous request with 201; a refused request adds nothing to the pool. Every other request
  waits for its build.
\<close>

theorem HandleNewJob_status:
  assumes "reachable n b (sPool s)" and "\<not> pClosed (sPool s)"
  shows "\<exists>x s' w'. schedule_job env s q NewResponseWriter w = Ret (x, s', w') \<and>
     (case early_status env s q w of
        Some code \<Rightarrow> (\<exists>rw. x = Answered rw \<and> wStatus rw = Some code) \<and>
          (code \<noteq> 201 \<longrightarrow> open_items (sPool s') = open_items (sPool s))
      | None \<Rightarrow> (\<exists>j. x = Awaits j (length (pChans (sPool s))) NewResponseWriter))"
proof -
  note inv = reachable_inv [OF assms(1)]
  have e: "wStatus (http_Error msg code NewResponseWriter) = Some code" "wStatus (WriteHeader code NewResponseWriter) = Some code"
    for msg code by (simp_all add: http_Error_def Write_def WriteHeader_def Header_Set_def NewResponseWriter_def Let_def)
  show ?thesis
  proof (cases "early_status env s q w \<in> {Some 405, Some 400, Some 500}")
    case True
    then show ?thesis
      by (auto simp: early_status_def schedule_job_def e split: if_splits sum.splits prod.splits)
  next
    case False
    then obtain body jr j where q: "qMethod q = ''POST''" "qBody q = Inr body" "unmarshal_JobRequest body = Inr jr"
        "fst (NewJob env (rProject jr) (rParams jr) (rGroup jr) (Some (sCfg s)) w) = Inr j"
      by (auto simp: early_status_def split: if_splits sum.splits)
    obtain w1 where N: "NewJob env (rProject jr) (rParams jr) (rGroup jr) (Some (sCfg s)) w = (Inr j, w1)"
      using q(4) by (metis prod.exhaust_sel)
    obtain k err p' where S: "SendWork (sPool s) (j\<lparr>jRebuild := rRebuild jr\<rparr>) = Ret ((k, err), p')"
        "err \<noteq> None \<longleftrightarrow> pWaiters (sPool s) = [] \<and> length (pQueue (sPool s)) = nat (pBacklogSize (sPool s))"
        "err \<noteq> None \<longrightarrow> open_items p' = open_items (sPool s)"
      using SendWork_open [OF inv assms(2)] by metis
    have k: "k = length (pChans (sPool s))"
      using S(1) by (auto simp: SendWork_def Let_def split: if_splits list.splits)
    show ?thesis
      using q N S k e(2) by (cases err) (auto simp: early_status_def schedule_job_def Let_def)
  qed
qed

theorem HandleNewJob_status_witness:
  "\<exists>x s' w' rw. schedule_job (demo_env 0) demo_http ((demo_post [''async''])\<lparr>qMethod := ''PUT''\<rparr>) NewResponseWriter
       (demo_world demo_tree) = Ret (x, s', w') \<and> x = Answered rw \<and> wStatus rw = Some 405"
proof -
  have "reachable 1 2 (sPool demo_http)" "\<not> pClosed (sPool demo_http)"
    using reachable.start [OF demo_pool_new] by (simp_all add: demo_http_def demo_pool_def)
  from HandleNewJob_status [OF this, of "demo_env 0" "(demo_post [''async''])\<lparr>qMethod := ''PUT''\<rparr>" "demo_world demo_tree"]
  show ?thesis by (auto simp: early_status_def demo_post_def)
qed

end
