(* ===== verification/Web_View.thy ===== *)
theory Web_View
  imports Web_Props
begin

text \<open>
  What the web view shows: the list of builds, a single build, and the log of a running one.
\<close>

section \<open>Build information on disk\<close>

definition info_at :: "node \<Rightarrow> path \<Rightarrow> BuildInfo \<Rightarrow> bool" where
  "info_at r p bi \<longleftrightarrow> lookup r (p @ [''build_info.json'']) = Some (File (Doc (marshal_BuildInfo bi))) \<and>
     distinct (map fst (bParams bi))"

lemma ReadJobBuildInfo_info:
  assumes "quiet w" and "info_at (root w) p bi"
  shows "\<exists>w'. ReadJobBuildInfo p False w = Ret (Inr (Some (bi\<lparr>bParams := sort_key fst (bParams bi)\<rparr>)), w') \<and>
           root w' = root w \<and> quiet w'"
proof -
  obtain t w1 where n: "NewBuildInfo w = (t, w1)" by force
  note f = NewBuildInfo_frame [OF n]
  have "os_ReadFile (p @ [''build_info.json'']) w1 = (Inr (Doc (marshal_BuildInfo bi)), w1)"
    using assms f by (simp add: info_at_def os_simps)
  moreover have "unmarshal_BuildInfo (Doc (marshal_BuildInfo bi)) t = Inr (bi\<lparr>bParams := sort_key fst (bParams bi)\<rparr>)"
    using unmarshal_marshal_BuildInfo [of bi t] decoded_new [OF n] assms(2) by (simp add: info_at_def)
  ultimately show ?thesis using n f assms(1) by (simp add: ReadJobBuildInfo_def)
qed

text \<open>A job in the list stands for a build directory and shows what its build information says.\<close>

definition shows_build :: "node \<Rightarrow> path \<Rightarrow> Job \<Rightarrow> bool" where
  "shows_build r B j \<longleftrightarrow> (\<exists>bi. info_at r (B @ [jProject j, jState j, jID j]) bi \<and>
     jStartedAt j = bStartedAt bi \<and> jBuildInfo j = bi\<lparr>bParams := sort_key fst (bParams bi)\<rparr>)"

abbreviation build_key :: "Job \<Rightarrow> string \<times> string \<times> string" where
  "build_key j \<equiv> (jProject j, jState j, jID j)"

definition entries :: "node \<Rightarrow> path \<Rightarrow> string list" where
  "entries r d = (case lookup r d of Some (Dir ds) \<Rightarrow> map fst (sort_key fst ds) | _ \<Rightarrow> [])"

definition listable :: "node \<Rightarrow> path \<Rightarrow> bool" where
  "listable r d \<longleftrightarrow> is_dir r d \<and> (\<forall>i \<in> set (entries r d). clean_name i \<and> (\<exists>bi. info_at r (d @ [i]) bi))"

lemma append_jobs_ok:
  assumes "quiet w" and "\<forall>i \<in> set ids. clean_name i \<and> (\<exists>bi. info_at (root w) (B @ [p, st, i]) bi)"
  shows "\<exists>js' w'. append_jobs (B @ [p, st]) p st ids js w = Ret (Inr (js @ js'), w') \<and> root w' = root w \<and> quiet w' \<and>
     map build_key js' = map (\<lambda>i. (p, st, i)) ids \<and> (\<forall>j \<in> set js'. shows_build (root w) B j)"
  using assms
proof (induction ids arbitrary: js w)
  case (Cons i ids)
  obtain bi where bi: "info_at (root w) (B @ [p, st, i]) bi" "clean_name i" using Cons.prems(2) by auto
  let ?bi = "bi\<lparr>bParams := sort_key fst (bParams bi)\<rparr>"
  let ?j = "zero_Job\<lparr>jID := i, jProject := p, jStartedAt := bStartedAt ?bi, jState := st, jBuildInfo := ?bi\<rparr>"
  obtain w1 where w1: "ReadJobBuildInfo (B @ [p, st, i]) False w = Ret (Inr (Some ?bi), w1)" "root w1 = root w" "quiet w1"
    using ReadJobBuildInfo_info [OF Cons.prems(1) bi(1)] by blast
  have g: "getJob (B @ [p, st]) i p st w = Ret (Inr ?j, w1)"
    using w1(1) bi(2) by (simp add: getJob_def)
  obtain js' w' where r: "append_jobs (B @ [p, st]) p st ids (js @ [?j]) w1 = Ret (Inr ((js @ [?j]) @ js'), w')"
      "root w' = root w" "quiet w'" "map build_key js' = map (\<lambda>i. (p, st, i)) ids"
      "\<forall>j \<in> set js'. shows_build (root w) B j"
    using Cons.IH [OF w1(3), of "js @ [?j]"] Cons.prems(2) w1(2) by auto
  have "shows_build (root w) B ?j" using bi(1) by (auto simp: shows_build_def)
  with r g show ?case by (intro exI [of _ "?j # js'"]) auto
qed simp

text \<open>The builds of the given projects, pending ones first.\<close>

definition builds_of :: "node \<Rightarrow> path \<Rightarrow> string list \<Rightarrow> (string \<times> string \<times> string) list" where
  "builds_of r B ps = concat (map (\<lambda>p. map (\<lambda>i. (p, ''pending'', i)) (entries r (B @ [p, ''pending''])) @
     map (\<lambda>i. (p, ''ready'', i)) (entries r (B @ [p, ''ready'']))) ps)"

lemma scan_listable:
  assumes "quiet w" and "listable (root w) d"
  shows "path_exists st d w = (Inr True, w)" "scan_state p st d old True w = (Inr (entries (root w) d), w)"
  using assms by (auto simp: listable_def is_dir_iff path_exists_def scan_state_def entries_def os_simps)

lemma project_jobs_step:
  assumes "quiet w" and "clean_name p" and "listable (root w) (B @ [p, ''pending''])" and "listable (root w) (B @ [p, ''ready''])"
  shows "\<exists>js' w'. project_jobs B (p # ps) pj rj js w =
       project_jobs B ps (entries (root w) (B @ [p, ''pending''])) (entries (root w) (B @ [p, ''ready''])) (js @ js') w' \<and>
     root w' = root w \<and> quiet w' \<and> map build_key js' = builds_of (root w) B [p] \<and> (\<forall>j \<in> set js'. shows_build (root w) B j)"
proof -
  have j: "Join (Join B p) ''pending'' = B @ [p, ''pending'']" "Join (Join B p) ''ready'' = B @ [p, ''ready'']"
    using assms(2) by simp_all
  let ?P = "entries (root w) (B @ [p, ''pending''])" and ?R = "entries (root w) (B @ [p, ''ready''])"
  have "\<forall>i \<in> set ?P. clean_name i \<and> (\<exists>bi. info_at (root w) (B @ [p, ''pending'', i]) bi)"
    using assms(3) by (simp add: listable_def)
  then obtain js1 w1 where a: "append_jobs (B @ [p, ''pending'']) p ''pending'' ?P js w = Ret (Inr (js @ js1), w1)"
      "root w1 = root w" "quiet w1" "map build_key js1 = map (\<lambda>i. (p, ''pending'', i)) ?P" "\<forall>j \<in> set js1. shows_build (root w) B j"
    using append_jobs_ok [OF assms(1), of ?P B p "''pending''" js] by auto
  have "\<forall>i \<in> set ?R. clean_name i \<and> (\<exists>bi. info_at (root w1) (B @ [p, ''ready'', i]) bi)"
    using assms(4) a(2) by (simp add: listable_def)
  then obtain js2 w2 where b: "append_jobs (B @ [p, ''ready'']) p ''ready'' ?R (js @ js1) w1 = Ret (Inr ((js @ js1) @ js2), w2)"
      "root w2 = root w" "quiet w2" "map build_key js2 = map (\<lambda>i. (p, ''ready'', i)) ?R" "\<forall>j \<in> set js2. shows_build (root w) B j"
    using append_jobs_ok [OF a(3), of ?R B p "''ready''" "js @ js1"] a(2) by auto
  show ?thesis
    using a b scan_listable [OF assms(1,3)] scan_listable [OF assms(1,4)]
    by (intro exI [of _ "js1 @ js2"] exI [of _ w2]) (auto simp: j builds_of_def)
qed

lemma project_jobs_ok:
  assumes "quiet w" and "\<forall>p \<in> set ps. clean_name p \<and> listable (root w) (B @ [p, ''pending'']) \<and> listable (root w) (B @ [p, ''ready''])"
  shows "\<exists>js' w'. project_jobs B ps pj rj js w = Ret (Inr (js @ js'), w') \<and> root w' = root w \<and> quiet w' \<and>
     map build_key js' = builds_of (root w) B ps \<and> (\<forall>j \<in> set js'. shows_build (root w) B j)"
  using assms
proof (induction ps arbitrary: pj rj js w)
  case Nil
  then show ?case by (simp add: builds_of_def)
next
  case (Cons p ps)
  let ?P = "entries (root w) (B @ [p, ''pending''])" and ?R = "entries (root w) (B @ [p, ''ready''])"
  obtain js1 w1 where a: "project_jobs B (p # ps) pj rj js w = project_jobs B ps ?P ?R (js @ js1) w1"
      "root w1 = root w" "quiet w1" "map build_key js1 = builds_of (root w) B [p]" "\<forall>j \<in> set js1. shows_build (root w) B j"
    using project_jobs_step [OF Cons.prems(1), of p B ps pj rj js] Cons.prems(2) by auto
  obtain js2 w2 where b: "project_jobs B ps ?P ?R (js @ js1) w1 = Ret (Inr ((js @ js1) @ js2), w2)"
      "root w2 = root w" "quiet w2" "map build_key js2 = builds_of (root w) B ps" "\<forall>j \<in> set js2. shows_build (root w) B j"
    using Cons.IH [OF a(3), of ?P ?R "js @ js1"] Cons.prems(2) a(2) by auto
  show ?case
    using a b by (intro exI [of _ "js1 @ js2"] exI [of _ w2]) (auto simp: builds_of_def simp del: project_jobs.simps)
qed

section \<open>The list of builds\<close>

text \<open>
  C33. The list of builds is complete and exact: when every directory in the build directory is
  that of a project with its pending and ready builds, \<open>HandleIndex\<close> answers 200 with one entry
  for each pending and each ready build and no other entry. An entry carries the state, the
  start time and the build information of its build, and the entries come in the order of
  decreasing start time. The file system is not changed.
\<close>

theorem HandleIndex_lists:
  assumes "quiet w" and "qMethod q = ''GET''" and "lookup (root w) (build_dir (sCfg s)) = Some (Dir es)"
    and "\<forall>e \<in> set es. IsDir (snd e) \<longrightarrow> clean_name (fst e) \<and>
       listable (root w) (build_dir (sCfg s) @ [fst e, ''pending'']) \<and> listable (root w) (build_dir (sCfg s) @ [fst e, ''ready''])"
  shows "\<exists>js rw w'. HandleIndex s q NewResponseWriter w = Ret (rw, w') \<and> root w' = root w \<and>
     wStatus rw = Some 200 \<and> wBody rw = [Doc (JArr (map Job_MarshalJSON js))] \<and>
     mset (map build_key js) =
       mset (builds_of (root w) (build_dir (sCfg s)) (map fst (filter (\<lambda>e. IsDir (snd e)) (sort_key fst es)))) \<and>
     (\<forall>j \<in> set js. shows_build (root w) (build_dir (sCfg s)) j) \<and>
     sorted_wrt (\<lambda>j l. jStartedAt l \<le> jStartedAt j) js"
proof -
  let ?B = "build_dir (sCfg s)" and ?ps = "map fst (filter (\<lambda>e. IsDir (snd e)) (sort_key fst es))"
  have "\<forall>p \<in> set ?ps. clean_name p \<and> listable (root w) (?B @ [p, ''pending'']) \<and> listable (root w) (?B @ [p, ''ready''])"
    using assms(4) by auto
  then obtain js w' where j: "project_jobs ?B ?ps [] [] [] w = Ret (Inr js, w')" "root w' = root w"
      "map build_key js = builds_of (root w) ?B ?ps" "\<forall>j \<in> set js. shows_build (root w) ?B j"
    using project_jobs_ok [OF assms(1), of ?ps ?B "[]" "[]" "[]"] by auto
  then have g: "getJobs (sCfg s) w = Ret (Inr js, w')"
    using assms(1,3) by (simp add: getJobs_def os_simps)
  let ?js = "sort_key (\<lambda>j. - jStartedAt j) js"
  have "sorted (map (\<lambda>j. - jStartedAt j) ?js)" by simp
  then have s: "sorted_wrt (\<lambda>j l. jStartedAt l \<le> jStartedAt j) ?js" by (simp add: sorted_wrt_map)
  have m: "mset (map build_key ?js) = mset (builds_of (root w) ?B ?ps)"
    unfolding j(3) [symmetric] by simp
  have all: "\<forall>j \<in> set ?js. shows_build (root w) ?B j" using j(4) by simp
  have "\<exists>rw. HandleIndex s q NewResponseWriter w = Ret (rw, w') \<and> wStatus rw = Some 200 \<and>
      wBody rw = [Doc (JArr (map Job_MarshalJSON ?js))]"
    using assms(2) g
    by (simp add: HandleIndex_def Let_def NewResponseWriter_def WriteHeader_def Write_def Header_Set_def)
  with s m all j(2) show ?thesis by blast
qed

definition demo_get :: "string \<Rightarrow> request" where
  "demo_get p = \<lparr>qMethod = ''GET'', qPath = p, qQuery = [], qContentType = ''application/json'', qBody = Inr (Text [])\<rparr>"

lemma demo_listable:
  "listable (demo_built 0) [''build'', ''app'', ''pending'']" "listable (demo_built 0) [''build'', ''app'', ''ready'']"
  by (auto simp: listable_def entries_def demo_built_def is_dir_def info_at_def clean_name_def demo_info_def)

lemma demo_built_entry:
  "\<exists>nd. lookup (demo_built 0) [''build''] = Some (Dir [(''app'', nd)]) \<and> IsDir nd"
  by (simp add: demo_built_def)

theorem HandleIndex_lists_witness:
  "\<exists>js rw w'. HandleIndex demo_server (demo_get ''/index'') NewResponseWriter (demo_world (demo_built 0)) = Ret (rw, w') \<and>
     wBody rw = [Doc (JArr (map Job_MarshalJSON js))] \<and> map build_key js = [(''app'', ''ready'', ''abcdef01'')]"
proof -
  obtain nd where nd: "lookup (demo_built 0) [''build''] = Some (Dir [(''app'', nd)])" "IsDir nd"
    using demo_built_entry by blast
  have e: "entries (demo_built 0) [''build'', ''app'', ''pending''] = []" "entries (demo_built 0) [''build'', ''app'', ''ready''] = [''abcdef01'']"
    by (simp_all add: entries_def demo_built_def)
  obtain js rw w' where h: "HandleIndex demo_server (demo_get ''/index'') NewResponseWriter (demo_world (demo_built 0)) = Ret (rw, w')"
      "wBody rw = [Doc (JArr (map Job_MarshalJSON js))]"
      and "mset (map build_key js) = mset (builds_of (demo_built 0) [''build''] (map fst (filter (\<lambda>e. IsDir (snd e)) (sort_key fst [(''app'', nd)]))))"
    using HandleIndex_lists [of "demo_world (demo_built 0)" "demo_get ''/index''" demo_server "[(''app'', nd)]"] nd demo_listable
    by (auto simp: demo_get_def clean_name_def)
  moreover have "builds_of (demo_built 0) [''build''] (map fst (filter (\<lambda>e. IsDir (snd e)) (sort_key fst [(''app'', nd)]))) =
      [(''app'', ''ready'', ''abcdef01'')]"
    using nd(2) e by (simp add: builds_of_def)
  ultimately have "mset (map build_key js) = {#(''app'', ''ready'', ''abcdef01'')#}" by simp
  then have "map build_key js = [(''app'', ''ready'', ''abcdef01'')]" by (simp only: mset_single_iff)
  with h show ?thesis by (intro exI [of _ js] exI [of _ rw] exI [of _ w']) simp
qed

text \<open>
  The variables that hold the builds of a project survive into the next one. So an empty
  directory in the build directory after a project with builds makes the whole list fail: the
  builds of the project are looked up in the empty directory, and \<open>HandleIndex\<close> answers 500.
\<close>

theorem HandleIndex_stale_entries:
  assumes "quiet w" and "qMethod q = ''GET''"
    and "lookup (root w) (build_dir (sCfg s)) = Some (Dir [(p, Dir es), (e, Dir [])])" and "p < e"
    and "clean_name p" and "clean_name e"
    and "listable (root w) (build_dir (sCfg s) @ [p, ''pending''])" and "listable (root w) (build_dir (sCfg s) @ [p, ''ready''])"
    and "entries (root w) (build_dir (sCfg s) @ [p, ''pending'']) = i # ids"
  shows "\<exists>rw w'. HandleIndex s q NewResponseWriter w = Ret (rw, w') \<and> wStatus rw = Some 500 \<and> wBody rw = []"
proof -
  let ?B = "build_dir (sCfg s)" and ?R = "entries (root w) (build_dir (sCfg s) @ [p, ''ready''])"
  have pe: "p \<noteq> e" using assms(4) by simp
  obtain js w1 where a: "project_jobs ?B [p, e] [] [] [] w = project_jobs ?B [e] (i # ids) ?R js w1"
      "root w1 = root w" "quiet w1"
    using project_jobs_step [OF assms(1,5,7,8), of "[e]" "[]" "[]" "[]"] assms(9) by auto
  have E: "lookup (root w1) (?B @ [e]) = Some (Dir [])" using assms(3) pe a(2) by (simp add: lookup_snoc)
  then have E': "is_dir (root w1) (?B @ [e])" "lookup (root w1) ((?B @ [e]) @ [c]) = None" for c
    by (auto simp: is_dir_iff lookup_append simp del: append_assoc)
  have st: "path_exists st ((?B @ [e]) @ [c]) w1 = (Inr False, w1)" for st c
    unfolding path_exists_def using os_Stat_missing [OF a(3) E'] by simp
  have jn: "Join (Join ?B e) ''pending'' = (?B @ [e]) @ [''pending'']" "Join (Join ?B e) ''ready'' = (?B @ [e]) @ [''ready'']"
    using assms(6) by simp_all
  have "clean_name i" using assms(7,9) by (simp add: listable_def)
  then have ji: "Join (Join ((?B @ [e]) @ [''pending'']) i) BuildInfoFname = (?B @ [e]) @ ''pending'' # [i, ''build_info.json'']"
    by (simp add: BuildInfoFname_def clean_name_def)
  obtain t w2 where n: "NewBuildInfo w1 = (t, w2)" by force
  note f = NewBuildInfo_frame [OF n]
  have "fs_stat max_links True ((?B @ [e]) @ ''pending'' # [i, ''build_info.json'']) (root w2) = Inl ENOENT"
    using fs_stat_missing_above [of "root w2" "?B @ [e]" "''pending''" "[i, ''build_info.json'']" max_links True] E' f(1) by simp
  then have "\<exists>err. getJob ((?B @ [e]) @ [''pending'']) i e ''pending'' w1 = Ret (Inl err, w2)"
    using f(2) a(3) unfolding getJob_def ReadJobBuildInfo_def n ji by (simp add: os_ReadFile_def os_simps)
  then have "\<exists>err. project_jobs ?B [e] (i # ids) ?R js w1 = Ret (Inl err, w2)"
    using st unfolding project_jobs.simps Let_def jn by (auto simp: scan_state_def)
  moreover have "map fst (filter (\<lambda>f. IsDir (snd f)) (sort_key fst [(p, Dir es), (e, Dir [])])) = [p, e]"
    using less_imp_le [OF assms(4)] by simp
  ultimately have "\<exists>err. getJobs (sCfg s) w = Ret (Inl err, w2)"
    using assms(1,3) a(1) by (simp add: getJobs_def os_simps)
  then show ?thesis
    using assms(2) by (auto simp: HandleIndex_def WriteHeader_def NewResponseWriter_def)
qed

definition demo_lost :: node where
  "demo_lost = Dir
     [(''projects'', Dir [(''app'', demo_project)]),
      (''build'', Dir [(''app'', Dir [(''pending'', Dir [(''abcdef01'', Dir
         [(''build_info.json'', File (Doc (marshal_BuildInfo (demo_info 0))))])]), (''ready'', Dir [])]),
        (''lost+found'', Dir [])])]"

theorem HandleIndex_stale_entries_witness:
  "\<exists>rw w'. HandleIndex demo_server (demo_get ''/index'') NewResponseWriter (demo_world demo_lost) = Ret (rw, w') \<and>
     wStatus rw = Some 500"
proof -
  obtain es where "lookup demo_lost [''build''] = Some (Dir [(''app'', Dir es), (''lost+found'', Dir [])])"
    by (simp add: demo_lost_def)
  moreover have "''app'' < ''lost+found''" by simp
  moreover have "clean_name ''app''" "clean_name ''lost+found''" by (simp_all add: clean_name_def)
  moreover have "entries demo_lost [''build'', ''app'', ''pending''] = [''abcdef01'']"
    by (simp add: entries_def demo_lost_def)
  moreover have "listable demo_lost [''build'', ''app'', ''pending'']" "listable demo_lost [''build'', ''app'', ''ready'']"
    by (auto simp: listable_def entries_def demo_lost_def is_dir_def info_at_def clean_name_def demo_info_def)
  ultimately show ?thesis
    using HandleIndex_stale_entries [of "demo_world demo_lost" "demo_get ''/index''" demo_server "''app''" es "''lost+found''" "''abcdef01''" "[]"]
    by (auto simp: demo_get_def)
qed

section \<open>A single build\<close>

lemma GetState_ready:
  assumes "quiet w" and "clean_name p" and "clean_name i" and "is_dir (root w) (B @ [p, ''pending''])"
    and "lookup (root w) (B @ [p, ''pending'', i]) = None" and "is_dir (root w) (B @ [p, ''ready'', i])"
  shows "GetState B p i w = (Inr ''ready'', w)"
  using assms os_Stat_missing [of w "B @ [p, ''pending'']" i]
  by (auto simp: GetState_def is_dir_iff os_simps)

lemma GetState_pending:
  assumes "quiet w" and "clean_name p" and "clean_name i" and "is_dir (root w) (B @ [p, ''pending'', i])"
  shows "GetState B p i w = (Inr ''pending'', w)"
  using assms by (auto simp: GetState_def is_dir_iff os_simps)

lemma path_parts_job:
  assumes "qPath q = ''/job/'' @ p @ ''/'' @ i" and "clean_name p" and "clean_name i"
  shows "path_parts q = Some (p, i)"
proof -
  have "split_on (CHR ''/'') (qPath q) = [[], ''job'', p, i]"
    using assms split_on_append [of "CHR ''/''" p i] by (simp add: clean_name_def)
  then show ?thesis by (simp add: path_parts_def)
qed

lemma HandleShowJob_stored:
  assumes "quiet w" and "qMethod q = ''GET''" and "qPath q = ''/job/'' @ p @ ''/'' @ i"
    and "qContentType q = ''application/json''" and "clean_name p" and "clean_name i"
    and "is_dir (root w) (build_dir (sCfg s) @ [p, ''pending''])" and "lookup (root w) (build_dir (sCfg s) @ [p, ''pending'', i]) = None"
    and "stored (build_dir (sCfg s) @ [p, ''ready'', i]) bi c (root w)"
    and "j = zero_Job\<lparr>jBuildInfo := read_back bi c, jID := i, jProject := p, jState := ''ready''\<rparr>"
  shows "\<exists>rw w'. HandleShowJob page s q NewResponseWriter w = Ret (rw, w') \<and> root w' = root w \<and>
     wStatus rw = Some 200 \<and> wSent rw = [(''Content-Type'', ''application/json'')] \<and> wBody rw = [Doc (shown_json j)]"
proof -
  let ?B = "build_dir (sCfg s)"
  have d: "is_dir (root w) (?B @ [p, ''ready'', i])" using stored_dir [OF assms(9)] by (auto simp: is_dir_iff)
  have g: "GetState ?B p i w = (Inr ''ready'', w)" using assms(1,5-8) d by (rule_tac GetState_ready)
  obtain w' where r: "ReadJobBuildInfo (?B @ [p, ''ready'', i]) True w = Ret (Inr (Some (read_back bi c)), w')" "root w' = root w"
    using ReadJobBuildInfo_stored(1) [OF assms(1,9)] by blast
  have jn: "Join (Join (Join ?B p) ''ready'') i = ?B @ [p, ''ready'', i]" using assms(5,6) by simp
  have "HandleShowJob page s q NewResponseWriter w =
      Ret (Write (Doc (shown_json j)) (Header_Set ''Content-Type'' ''application/json'' NewResponseWriter), w')"
    using assms(2,4) g r path_parts_job [OF assms(3,5,6)] jn by (simp add: HandleShowJob_def Let_def assms(10))
  with r(2) show ?thesis by (simp add: Write_def WriteHeader_def Header_Set_def NewResponseWriter_def Let_def)
qed

text \<open>
  The page of a finished build, requested as JSON, is answered with 200 and with the ID, the
  project, the state, the build information and the log of the build. But the answer does not
  have the form of \<open>Job.MarshalJSON\<close>, as the list of builds has: \<open>Job.UnmarshalJSON\<close> fails on it,
  because the start time is not in the format it expects.
\<close>

theorem HandleShowJob_json:
  assumes "quiet w" and "qMethod q = ''GET''" and "qPath q = ''/job/'' @ p @ ''/'' @ i"
    and "qContentType q = ''application/json''" and "clean_name p" and "clean_name i"
    and "is_dir (root w) (build_dir (sCfg s) @ [p, ''pending''])" and "lookup (root w) (build_dir (sCfg s) @ [p, ''pending'', i]) = None"
    and "stored (build_dir (sCfg s) @ [p, ''ready'', i]) bi c (root w)"
  shows "\<exists>rw w' j. HandleShowJob page s q NewResponseWriter w = Ret (rw, w') \<and> root w' = root w \<and>
     wStatus rw = Some 200 \<and> wSent rw = [(''Content-Type'', ''application/json'')] \<and> wBody rw = [Doc (shown_json j)] \<and>
     build_key j = (p, ''ready'', i) \<and> jBuildInfo j = read_back bi c \<and>
     (\<exists>e l'. Job_UnmarshalJSON (Doc (shown_json j)) l = Ret (Some e, l'))"
proof -
  let ?j = "zero_Job\<lparr>jBuildInfo := read_back bi c, jID := i, jProject := p, jState := ''ready''\<rparr>"
  have keys: "lower ''ID'' = ''id''" "lower ''Project'' = ''project''" "lower ''Rebuild'' = ''rebuild''"
    "lower ''RootBuildPath'' = ''rootbuildpath''" "lower ''PendingBuildPath'' = ''pendingbuildpath''"
    "lower ''ReadyBuildPath'' = ''readybuildpath''" "lower ''LatestBuildPath'' = ''latestbuildpath''"
    "lower ''ReadyDataPath'' = ''readydatapath''" "lower ''ProjectPath'' = ''projectpath''"
    "lower ''BuildLogPath'' = ''buildlogpath''" "lower ''BuildInfoFilePath'' = ''buildinfofilepath''"
    "lower ''Image'' = ''image''" "lower ''ImageTar'' = ''imagetar''" "lower ''Container'' = ''container''"
    "lower ''StartedAt'' = ''startedat''" "lower ''BuildInfo'' = ''buildinfo''" "lower ''State'' = ''state''"
    "lower ''Log'' = ''log''" "lower ''Params'' = ''params''" "lower ''Group'' = ''group''"
    by code_simp+
  obtain b where b: "unmarshal_BuildInfo (Doc (marshal_BuildInfo (read_back bi c))) zero_BuildInfo = Inr b"
    using unmarshal_marshal_BuildInfo [of "read_back bi c" zero_BuildInfo] assms(9)
    by (simp add: read_back_def stored_def zero_BuildInfo_def)
  obtain kvs where kvs: "marshal_BuildInfo (read_back bi c) = JObj kvs" by (simp add: marshal_BuildInfo_def)
  have "\<exists>e l'. Job_UnmarshalJSON (Doc (shown_json ?j)) l = Ret (Some e, l')"
    using b kvs by (simp add: Job_UnmarshalJSON_def shown_json_def unmarshal_struct_def set_JobData_field_def keys Let_def)
  moreover have "build_key ?j = (p, ''ready'', i)" "jBuildInfo ?j = read_back bi c" by simp_all
  ultimately show ?thesis using HandleShowJob_stored [OF assms refl, of page] by blast
qed

theorem HandleShowJob_json_witness:
  "\<exists>rw w' j. HandleShowJob (\<lambda>_. Inr []) demo_server (demo_get ''/job/app/abcdef01'') NewResponseWriter (demo_world (demo_built 0)) = Ret (rw, w') \<and>
     wBody rw = [Doc (shown_json j)] \<and> jBuildInfo j = read_back (demo_info 0) (Text ''log'')"
proof -
  have "clean_name ''app''" "clean_name ''abcdef01''" by (simp_all add: clean_name_def)
  moreover have "is_dir (demo_built 0) [''build'', ''app'', ''pending'']" "lookup (demo_built 0) [''build'', ''app'', ''pending'', ''abcdef01''] = None"
    by (simp_all add: is_dir_def demo_built_def)
  ultimately show ?thesis
    using HandleShowJob_json [of "demo_world (demo_built 0)" "demo_get ''/job/app/abcdef01''" "''app''" "''abcdef01''" demo_server
        "demo_info 0" "Text ''log''" "\<lambda>_. Inr []" "demo_job []"] demo_stored [of 0]
    by (fastforce simp: demo_get_def)
qed

section \<open>Following a log\<close>

lemma path_parts_log:
  assumes "qPath q = ''/log/'' @ p @ ''/'' @ i" and "clean_name p" and "clean_name i"
  shows "path_parts q = Some (p, i)"
proof -
  have "split_on (CHR ''/'') (qPath q) = [[], ''log'', p, i]"
    using assms split_on_append [of "CHR ''/''" p i] by (simp add: clean_name_def)
  then show ?thesis by (simp add: path_parts_def)
qed

lemma push_messages_simps [simp]:
  "push_messages [] rw = rw"
  "push_messages (m # ms) rw = push_messages ms (Write (Text (''data: '' @ m @ [CHR 0x0A, CHR 0x0A])) rw)"
  by (simp_all add: push_messages_def)

lemma Write_sel [simp]:
  "wBody (Write c rw) = wBody rw @ [c]"
  "wStatus (Write c rw) = (case wStatus rw of None \<Rightarrow> Some 200 | Some code \<Rightarrow> Some code)"
  "wSent (Write c rw) = (case wStatus rw of None \<Rightarrow> wHeader rw | Some code \<Rightarrow> wSent rw)"
  by (auto simp: Write_def WriteHeader_def Let_def split: option.splits)

lemma push_messages_body:
  "wBody (push_messages msgs rw) = wBody rw @ map (\<lambda>m. Text (''data: '' @ m @ [CHR 0x0A, CHR 0x0A])) msgs"
  by (induction msgs arbitrary: rw) auto

lemma push_messages_sent:
  "wStatus rw = Some c \<Longrightarrow> wStatus (push_messages msgs rw) = Some c \<and> wSent (push_messages msgs rw) = wSent rw"
  by (induction msgs arbitrary: rw) auto

lemma push_messages_first:
  "wStatus rw = None \<Longrightarrow> msgs \<noteq> [] \<Longrightarrow>
     wStatus (push_messages msgs rw) = Some 200 \<and> wSent (push_messages msgs rw) = wHeader rw"
  by (cases msgs) (auto simp: push_messages_sent)


definition demo_running :: node where
  "demo_running = Dir [(''build'', Dir [(''app'', Dir [(''pending'', Dir [(''abcdef01'', Dir [(''out.log'', File (Text ''a''))])])])])]"


end
