(* ===== verification/Work_Cases.thy ===== *)
theory Work_Cases
  imports Work_Props
begin

text \<open>
  The less common paths through \<open>Work\<close>: a failed build is restarted, a job that is being built
  elsewhere is waited for, a leftover pending directory stops a job, an error of the container
  start is forgotten by the cache; and what all paths do to the metrics.
\<close>

section \<open>Restarting a failed build\<close>

lemma Work_failed_removed:
  assumes "quiet w" and "\<not> enqueued (sJq s) (jID j)" and "stored (jReadyBuildPath j) bi c (root w)"
    and "bExitCode bi \<noteq> 0" and "cFileSystem (sCfg s) = PlainFS env'"
  obtains start s1 j1 w1 where "Work env evs s j w = unqueue j1 (work_fresh env s1 j1 start w1)"
    and "work_begin s j w = (start, s1\<lparr>sJq := sJq s\<rparr>, j1, snd (snd (snd (work_begin s j w))))"
    and "sCfg s1 = sCfg s" and "sPq s1 = sPq s" and "same_job j j1" and "quiet w1"
    and "root w1 = del (jReadyBuildPath j) (root w)" and "dockerd w1 = dockerd w"
proof -
  obtain start s1 j1 w1 where W: "Work env evs s j w = unqueue j1 (work_cache env s1 j1 start w1)"
    and b: "work_begin s j w = (start, s1\<lparr>sJq := sJq s\<rparr>, j1, w1)"
    and f: "sCfg s1 = sCfg s" "sPq s1 = sPq s" "same_job j j1" "root w1 = root w" "faults w1 = faults w"
      "dockerd w1 = dockerd w"
    using assms(2) by (rule Work_builder)
  note sel = same_job_sel [OF f(3)]
  obtain es where es: "lookup (root w) (jReadyBuildPath j) = Some (Dir es)"
    using stored_dir [OF assms(3)] by blast
  then have st: "os_Stat (jReadyBuildPath j) w1 = (Inr (Dir es), w1)"
    using assms(1) f by (simp add: os_simps)
  obtain w2 where r: "ReadJobBuildInfo (jReadyBuildPath j) True w1 = Ret (Inr (Some (read_back bi c)), w2)"
      "root w2 = root w" "quiet w2" "dockerd w2 = dockerd w"
    using ReadJobBuildInfo_stored(1) [of w1 "jReadyBuildPath j" bi c] assms(1,3) f by auto
  let ?w = "w2\<lparr>root := del (jReadyBuildPath j) (root w)\<rparr>"
  have "PlainFS_Remove (jReadyBuildPath j) w2 = (None, ?w)"
    using plainfs.remove_found [OF r(3)] es r(2) by auto
  then have "work_cache env s1 j1 start w1 = work_fresh env s1 j1 start ?w"
    using st r(1) assms(4,5) sel f(1) by (simp add: work_cache_def read_back_def)
  then show ?thesis
    using that [of j1 s1 start ?w] W b f r by simp
qed

lemma Work_rebuilds:
  assumes "quiet w" and "\<not> enqueued (sJq s) (jID j)" and "stored (jReadyBuildPath j) old c (root w)"
    and "bExitCode old \<noteq> 0" and "can_build env s j (del (jReadyBuildPath j) (root w))"
  shows "\<exists>bi err s' j' w'. Work env evs s j w = Ret ((Some bi, err), s', j', w') \<and> quiet w' \<and>
           finished j (err = None \<and> bExitCode bi = 0) bi (del (jReadyBuildPath j) (root w)) (root w') \<and>
           bErrBuild bi = (case err of None \<Rightarrow> [] | Some e \<Rightarrow> Error e) \<and> request_of bi = job_request j \<and>
           (keeps_dirs env \<longrightarrow> base_at (jReadyBuildPath j) (root w')) \<and>
           (bIncremental bi \<longleftrightarrow> \<not> no_base j (del (jReadyBuildPath j) (root w)))"
proof -
  have fs: "cFileSystem (sCfg s) = PlainFS env" using assms(5) by (simp add: can_build_def)
  obtain start s1 j1 w1 where W: "Work env evs s j w = unqueue j1 (work_fresh env s1 j1 start w1)"
    and b: "work_begin s j w = (start, s1\<lparr>sJq := sJq s\<rparr>, j1, snd (snd (snd (work_begin s j w))))"
    and f: "sCfg s1 = sCfg s" "sPq s1 = sPq s" "same_job j j1" "quiet w1"
      "root w1 = del (jReadyBuildPath j) (root w)"
    by (rule Work_failed_removed [OF assms(1-4) fs])
  have ne: "jReadyBuildPath j \<noteq> []" using assms(5) by (simp add: can_build_def wf_job_def)
  have cb: "can_build env s1 j1 (root w1)" "lookup (root w1) (jReadyBuildPath j1) = None"
    using assms(5) f ne same_job_sel [OF f(3)] same_job_can_build [OF f(3,1,2)] by simp_all
  obtain bi err s' j' w' where "work_fresh env s1 j1 start w1 = Ret ((Some bi, err), s', j', w')" "quiet w'"
      "finished j (err = None \<and> bExitCode bi = 0) bi (del (jReadyBuildPath j) (root w)) (root w')"
      "bErrBuild bi = (case err of None \<Rightarrow> [] | Some e \<Rightarrow> Error e)" "request_of bi = job_request j"
      "keeps_dirs env \<longrightarrow> base_at (jReadyBuildPath j1) (root w')"
      "bIncremental bi = (bIncremental (jBuildInfo j1) \<or> \<not> no_base j1 (del (jReadyBuildPath j) (root w)))"
    using work_fresh_builds [OF cb(1) f(4) cb(2), of start]
    unfolding finished_same_job [OF f(3)] f(5) work_begin_info(1,2) [OF b] by blast
  then show ?thesis
    using W same_job_sel [OF f(3)] work_begin_info(4) [OF b] by (simp add: unqueue_def no_base_def)
qed

text \<open>
  C23. When the ready directory holds a build whose container failed, \<open>Work\<close> removes it and
  builds again: the result is that of a fresh build on the file system without the failed build,
  and it replaces the old one.
\<close>

theorem Work_restarts_failed:
  assumes "quiet w" and "\<not> enqueued (sJq s) (jID j)" and "stored (jReadyBuildPath j) old c (root w)"
    and "bExitCode old \<noteq> 0" and "can_build env s j (del (jReadyBuildPath j) (root w))"
  shows "\<exists>bi err s' j' w'. Work env evs s j w = Ret ((Some bi, err), s', j', w') \<and>
           finished j (err = None \<and> bExitCode bi = 0) bi (del (jReadyBuildPath j) (root w)) (root w') \<and>
           bErrBuild bi = (case err of None \<Rightarrow> [] | Some e \<Rightarrow> Error e) \<and> request_of bi = job_request j"
  using Work_rebuilds [OF assms] by blast

lemma demo_can_rebuild: "can_build (demo_env 0) demo_server (demo_job []) (del (jReadyBuildPath (demo_job [])) (demo_built 1))"
  by (simp add: can_build_def demo_facts buildable_def layout_def dir_or_new_def is_dir_def demo_built_def
      demo_project_def clean_name_def) (simp add: demo_job_def latest_path_def clean_name_def)

theorem Work_restarts_failed_witness:
  "\<exists>bi err s' j' w'. Work (demo_env 0) [] demo_server (demo_job []) (demo_world (demo_built 1)) =
       Ret ((Some bi, err), s', j', w') \<and>
     finished (demo_job []) (err = None \<and> bExitCode bi = 0) bi
       (del (jReadyBuildPath (demo_job [])) (demo_built 1)) (root w')"
  using Work_restarts_failed [of "demo_world (demo_built 1)" demo_server "demo_job []" "demo_info 1" "Text ''log''"
      "demo_env 0" "[]"] demo_stored [of 1] demo_can_rebuild
  by (fastforce simp: demo_info_def)

section \<open>Waiting for another worker\<close>

definition not_ready :: "Job \<Rightarrow> node \<Rightarrow> bool" where
  "not_ready j r \<longleftrightarrow> fs_stat max_links True (jReadyBuildPath j) r = Inl ENOENT"

lemma coalesce_tick:
  assumes "quiet w" and "not_ready j r"
  shows "coalesce s j (Tick r # evs) w = coalesce s j evs (w\<lparr>root := r\<rparr>)"
  using assms by (simp add: os_Stat_def os_simps not_ready_def)

lemma coalesce_ticks:
  assumes "quiet w" and "\<forall>r \<in> set rs. not_ready j r"
  shows "coalesce s j (map Tick rs @ evs) w = coalesce s j evs (w\<lparr>root := last (root w # rs)\<rparr>)"
  using assms
proof (induction rs arbitrary: w)
  case (Cons r rs)
  have "coalesce s j (map Tick (r # rs) @ evs) w = coalesce s j (map Tick rs @ evs) (w\<lparr>root := r\<rparr>)"
    using coalesce_tick [of w j r s "map Tick rs @ evs"] Cons.prems by simp
  also have "\<dots> = coalesce s j evs (w\<lparr>root := last (r # rs)\<rparr>)"
    using Cons.IH [of "w\<lparr>root := r\<rparr>"] Cons.prems by simp
  finally show ?case by simp
qed simp

lemma join_result_stored:
  assumes "quiet w" and "stored (jReadyBuildPath j) bi c (root w)"
  shows "\<exists>w'. join_result s j w =
           Ret ((Some ((jBuildInfo j)\<lparr>bExitCode := bExitCode bi, bCoalesced := True\<rparr>), None),
                record_metrics (RecordBuildCoalesced (jProject j)) s,
                set_info (\<lambda>b. b\<lparr>bExitCode := bExitCode bi, bCoalesced := True\<rparr>) j, w') \<and>
           root w' = root w \<and> dockerd w' = dockerd w \<and> quiet w'"
  using ReadJobBuildInfo_stored(2) [OF assms] by (auto simp: join_result_def ExitCode_def)

text \<open>The build may be gone again: it had failed, and another request has removed it to repeat it.\<close>

lemma join_result_missing:
  assumes "quiet w" and "wf_job j" and "layout j (root w)" and "lookup (root w) (jReadyBuildPath j) = None"
  shows "\<exists>err w'. join_result s j w = Ret ((Some (jBuildInfo j), Some err), s, j, w') \<and> root w' = root w \<and> quiet w'"
proof -
  obtain bi w1 where n: "NewBuildInfo w = (bi, w1)" by force
  have f: "quiet w1" "root w1 = root w" using NewBuildInfo_frame [OF n] assms(1) by simp_all
  have "os_ReadFile (jReadyBuildPath j @ [BuildInfoFname]) w1 =
      (Inl (PathError ''open'' (jReadyBuildPath j @ [BuildInfoFname]) ENOENT), w1)"
    using fs_stat_ready_missing [OF assms(2-4)] f by (simp add: os_ReadFile_def os_simps)
  then show ?thesis
    using n f by (simp add: join_result_def ExitCode_def ReadJobBuildInfo_def BuildInfoFname_def clean_name_def)
qed

lemma coalesce_stored:
  assumes "quiet w" and "stored (jReadyBuildPath j) bi c r"
  shows "\<exists>w'. coalesce s j (Tick r # evs) w =
           Ret ((Some ((jBuildInfo j)\<lparr>bExitCode := bExitCode bi, bCoalesced := True\<rparr>), None),
                record_metrics (RecordBuildCoalesced (jProject j)) s,
                set_info (\<lambda>b. b\<lparr>bExitCode := bExitCode bi, bCoalesced := True\<rparr>) j, w') \<and>
           root w' = r \<and> dockerd w' = dockerd w \<and> quiet w'"
proof -
  obtain es where "lookup r (jReadyBuildPath j) = Some (Dir es)" using stored_dir [OF assms(2)] by blast
  then have st: "os_Stat (jReadyBuildPath j) (w\<lparr>root := r\<rparr>) = (Inr (Dir es), w\<lparr>root := r\<rparr>)"
    using assms(1) by (simp add: os_simps)
  then show ?thesis using join_result_stored [of "w\<lparr>root := r\<rparr>" j bi c s] assms by simp
qed

text \<open>
  C24. A job that another worker is building is not built a second time: \<open>Work\<close> looks for the
  ready directory at every tick, and at the first tick at which it is there, it returns the exit
  code of that build, marked as coalesced, without any Docker call and without touching the job
  queue, the project mutexes or the file system that the builder left.
\<close>

theorem Work_coalesces:
  assumes "enqueued (sJq s) (jID j)" and "quiet w" and "\<forall>r \<in> set rs. not_ready j r"
    and "stored (jReadyBuildPath j) bi c r"
  shows "\<exists>bi' s' j' w'. Work env (map Tick rs @ Tick r # evs) s j w = Ret ((Some bi', None), s', j', w') \<and>
           bExitCode bi' = bExitCode bi \<and> bCoalesced bi' \<and> root w' = r \<and> dockerd w' = dockerd w \<and>
           sJq s' = sJq s \<and> sPq s' = sPq s"
proof -
  obtain s1 j1 w1 where W: "Work env (map Tick rs @ Tick r # evs) s j w = coalesce s1 j1 (map Tick rs @ Tick r # evs) w1"
    and f: "same_queues s s1" "same_job j j1" "faults w1 = faults w" "dockerd w1 = dockerd w"
    using assms(1) by (rule Work_waiter)
  note sel = same_job_sel [OF f(2)]
  have "\<forall>r \<in> set rs. not_ready j1 r" using assms(3) sel by (simp add: not_ready_def)
  then have "coalesce s1 j1 (map Tick rs @ Tick r # evs) w1 =
      coalesce s1 j1 (Tick r # evs) (w1\<lparr>root := last (root w1 # rs)\<rparr>)"
    using assms(2) f(3) by (intro coalesce_ticks) simp_all
  moreover have "stored (jReadyBuildPath j1) bi c r" using assms(4) sel by simp
  moreover have "quiet (w1\<lparr>root := last (root w1 # rs)\<rparr>)" using assms(2) f(3) by simp
  ultimately show ?thesis
    using coalesce_stored [of "w1\<lparr>root := last (root w1 # rs)\<rparr>" j1 bi c r s1 evs] W f
    by (fastforce simp: same_queues_def)
qed

definition demo_busy :: "nat Server" where
  "demo_busy = demo_server\<lparr>sJq := snd (Add NewJobQueue (demo_job []))\<rparr>"

lemma demo_busy_enqueued: "enqueued (sJq demo_busy) (jID (demo_job []))"
  by (simp add: demo_busy_def jq.taken_claim)

lemma demo_not_ready_yet: "not_ready (demo_job []) demo_tree"
  unfolding not_ready_def by code_simp

theorem Work_coalesces_witness:
  "\<exists>bi' s' j' w'. Work (demo_env 0) (map Tick [demo_tree, demo_tree] @ Tick (demo_built 3) # [])
       demo_busy (demo_job []) (demo_world demo_tree) = Ret ((Some bi', None), s', j', w') \<and>
     bExitCode bi' = 3 \<and> bCoalesced bi' \<and> dockerd w' = 0"
  using Work_coalesces [OF demo_busy_enqueued, of "demo_world demo_tree" "[demo_tree, demo_tree]"
      "demo_info 3" "Text ''log''" "demo_built 3" "demo_env 0" "[]"]
    demo_not_ready_yet demo_stored [of 3]
  by (fastforce simp: demo_info_def)

text \<open>
  As long as the ready directory does not appear, a coalesced job keeps waiting: after any
  number of ticks without it, \<open>Work\<close> has not returned. (The workers pass a context that is never
  cancelled, so this is also what happens when the builder gave up before it had a pending
  directory to move.)
\<close>

theorem Work_waits:
  assumes "enqueued (sJq s) (jID j)" and "quiet w" and "\<forall>r \<in> set rs. not_ready j r"
  shows "Work env (map Tick rs) s j w = Blocked"
proof -
  obtain s1 j1 w1 where W: "Work env (map Tick rs) s j w = coalesce s1 j1 (map Tick rs) w1"
    and f: "same_job j j1" "faults w1 = faults w"
    using assms(1) by (rule Work_waiter)
  have "\<forall>r \<in> set rs. not_ready j1 r" using assms(3) same_job_sel [OF f(1)] by (simp add: not_ready_def)
  then show ?thesis
    using coalesce_ticks [of w1 rs j1 s1 "[]"] assms(2) f(2) W by simp
qed

theorem Work_waits_witness:
  "Work (demo_env 0) (map Tick [demo_tree, demo_tree]) demo_busy (demo_job []) (demo_world demo_tree) = Blocked"
  using Work_waits [OF demo_busy_enqueued, of "demo_world demo_tree" "[demo_tree, demo_tree]" "demo_env 0"]
    demo_not_ready_yet by simp

section \<open>A leftover pending directory\<close>

lemma BootstrapBuildDir_stale:
  assumes "quiet w" and "wf_job j" and "no_base j (root w)"
    and "jGroup j \<noteq> [] \<longrightarrow> is_dir (root w) (jRootBuildPath j @ [''groups''])"
    and "lookup (root w) (jPendingBuildPath j) = Some nd"
  shows "BootstrapBuildDir (PlainFS env) j w =
     (Some (workErr ''could not create pending build path''
        (Some (PathError ''mkdir'' (jPendingBuildPath j) EEXIST))), j, w)"
  using assms CloneSrcPath_no_base [OF assms(1-4)]
  by (simp add: BootstrapBuildDir_def PlainFS_Create_def os_simps)

text \<open>
  A pending directory that an earlier, interrupted build has left is not cleaned up: \<open>Work\<close>
  returns an error, the leftover is still there, and there is no ready directory. The same
  request fails again until the server is restarted (which prunes the pending builds), and
  requests that are coalesced with it never find a ready directory.
\<close>

theorem Work_stale_pending:
  assumes "quiet w" and "\<not> enqueued (sJq s) (jID j)" and "\<not> held (sPq s) (jProject j)"
    and "wf_job j" and "layout j (root w)" and "no_base j (root w)"
    and "cFileSystem (sCfg s) = PlainFS env'"
    and "is_dir (root w) (Join (projects_dir (sCfg s)) (jProject j))"
    and "lookup (root w) (jPendingBuildPath j) = Some nd" and "lookup (root w) (jReadyBuildPath j) = None"
  shows "\<exists>bi s' j' w'. Work env evs s j w = Ret ((Some bi, Some
             (workErr ''could not bootstrap build dir'' (Some (workErr ''could not create pending build path''
               (Some (PathError ''mkdir'' (jPendingBuildPath j) EEXIST)))))), s', j', w') \<and>
           lookup (root w') (jPendingBuildPath j) = Some nd \<and> lookup (root w') (jReadyBuildPath j) = None"
proof -
  obtain start s1 j1 w1 where W: "Work env evs s j w = unqueue j1 (work_cache env s1 j1 start w1)"
    and f: "sCfg s1 = sCfg s" "sPq s1 = sPq s" "same_job j j1" "root w1 = root w" "faults w1 = faults w"
    using assms(2) by (rule Work_builder)
  note sel = same_job_sel [OF f(3)]
  have wf1: "wf_job j1" using assms(4) same_job_wf [OF f(3)] by simp
  have lay1: "layout j1 (root w1)" using assms(5) same_job_pre(4) [OF f(3,1)] f(4) by simp
  have rdy: "os_Stat (jReadyBuildPath j1) w1 = (Inl (PathError ''stat'' (jReadyBuildPath j1) ENOENT), w1)"
    by (rule os_Stat_ready_missing) (use assms f wf1 lay1 sel in simp_all)
  obtain es where prj: "os_Stat (Join (projects_dir (sCfg s1)) (jProject j1)) w1 = (Inr (Dir es), w1)"
    using assms(1,8) f sel by (auto simp: is_dir_iff os_simps)
  obtain s2 r2 where bp: "BootstrapProject s1 j1 w1 = Ret (None, s2, w1\<lparr>root := r2\<rparr>)" "bootstrapped j1 (root w1) r2"
    using BootstrapProject_ok [of w1 j1 s1] assms(1,3) f lay1 wf1 sel by (auto simp: wf_job_def)
  note low = bootstrapped_lookup [OF wf1 bp(2)]
  have "BootstrapBuildDir (PlainFS env') j1 (w1\<lparr>root := r2\<rparr>) =
     (Some (workErr ''could not create pending build path''
        (Some (PathError ''mkdir'' (jPendingBuildPath j1) EEXIST))), j1, w1\<lparr>root := r2\<rparr>)"
  proof (rule BootstrapBuildDir_stale)
    show "no_base j1 (root (w1\<lparr>root := r2\<rparr>))"
      using assms(6) bootstrapped_base(1) [OF wf1 bp(2)] f(4) sel by (simp add: no_base_def)
    show "jGroup j1 \<noteq> [] \<longrightarrow> is_dir (root (w1\<lparr>root := r2\<rparr>)) (jRootBuildPath j1 @ [''groups''])"
      using bp(2) by (simp add: bootstrapped_def)
    show "lookup (root (w1\<lparr>root := r2\<rparr>)) (jPendingBuildPath j1) = Some nd"
      using low assms(9) f(4) sel by simp
  qed (use assms(1) f wf1 in simp_all)
  moreover have "cFileSystem (sCfg s2) = PlainFS env'"
    using BootstrapProject_locks [OF bp(1)] assms(7) f(1) by (simp add: same_locks_def)
  ultimately have "work_cache env s1 j1 start w1 = Ret ((Some (jBuildInfo j1), Some
       (workErr ''could not bootstrap build dir'' (Some (workErr ''could not create pending build path''
         (Some (PathError ''mkdir'' (jPendingBuildPath j1) EEXIST)))))), s2, j1, w1\<lparr>root := r2\<rparr>)"
    using rdy prj bp(1) by (simp add: work_cache_def work_fresh_def)
  then show ?thesis
    using W low assms(9,10) f(4) sel by (simp add: unqueue_def)
qed

definition demo_stale :: node where
  "demo_stale = Dir
     [(''projects'', Dir [(''app'', demo_project)]),
      (''build'', Dir [(''app'', Dir [(''pending'', Dir [(''abcdef01'', Dir [])]), (''ready'', Dir [])])])]"

theorem Work_stale_pending_witness:
  "\<exists>bi e s' j' w'. Work (demo_env 0) [] demo_server (demo_job []) (demo_world demo_stale) =
       Ret ((Some bi, Some e), s', j', w') \<and>
     lookup (root w') (jPendingBuildPath (demo_job [])) = Some (Dir [])"
proof -
  have "layout (demo_job []) demo_stale" "is_dir demo_stale [''projects'', ''app'']"
    "lookup demo_stale (jPendingBuildPath (demo_job [])) = Some (Dir [])"
    "lookup demo_stale (jReadyBuildPath (demo_job [])) = None"
    by (simp_all add: layout_def dir_or_new_def is_dir_def demo_stale_def demo_project_def)
      (simp add: demo_job_def latest_path_def)
  moreover have "Join [''projects''] ''app'' = [''projects'', ''app'']" by (simp add: clean_name_def)
  ultimately show ?thesis
    using Work_stale_pending [of "demo_world demo_stale" demo_server "demo_job []" "demo_env 0" "Dir []" "demo_env 0" "[]"]
      demo_wf_job by (fastforce simp: no_base_def)
qed

section \<open>An error that the cache forgets\<close>

text \<open>
  C40. When the Docker daemon builds the image but refuses to create the container, \<open>Work\<close> returns
  an error, yet the exit code it persists is 0, the code of success. The next request for the
  same job is therefore answered from the cache, without an error and with exit code 0, although
  nothing was ever run.
\<close>

theorem Work_failed_start_is_cached:
  assumes "can_build env s j (root w)" and "quiet w" and "\<not> enqueued (sJq s) (jID j)"
    and "lookup (root w) (jReadyBuildPath j) = None" and "docker_ends env True 0"
  shows "\<exists>bi e s' j' w' bi'' s'' j'' w''.
           Work env evs s j w = Ret ((Some bi, Some e), s', j', w') \<and>
           Work env evs' s' j w' = Ret ((Some bi'', None), s'', j'', w'') \<and>
           bCached bi'' \<and> bExitCode bi'' = 0 \<and> bErrBuild bi'' = Error e \<and> dockerd w'' = dockerd w'"
proof -
  obtain bi err s' j' w' where r: "Work env evs s j w = Ret ((Some bi, err), s', j', w')" "quiet w'"
      "finished j (err = None \<and> bExitCode bi = 0) bi (root w) (root w')"
      "bErrBuild bi = (case err of None \<Rightarrow> [] | Some e \<Rightarrow> Error e)" "request_of bi = job_request j"
      "err \<noteq> None" "bExitCode bi = 0"
    using Work_builds [OF assms(1-4), of evs True 0] assms(5) by blast
  then obtain e where e: "err = Some e" by auto
  have "bParams bi = jParams j" using r(5) by (simp add: request_of_def job_request_def)
  then obtain c where c: "stored (jReadyBuildPath j) (without_logs bi) c (root w')"
    using finished_stored [OF r(3)] assms(1) by (auto simp: can_build_def wf_job_def)
  have "\<not> enqueued (sJq s') (jID j)" using Work_gives_back [OF r(1)] assms(3) by blast
  moreover have "bExitCode (without_logs bi) = 0" using r(7) by (simp add: without_logs_def)
  ultimately obtain s'' j'' w'' where "Work env evs' s' j w' =
      Ret ((Some ((read_back (without_logs bi) c)\<lparr>bCached := True\<rparr>), None), s'', j'', w'')" "dockerd w'' = dockerd w'"
    using Work_hits [OF r(2) _ c, of s' env evs'] by blast
  then show ?thesis
    using r(1,4,7) e by (auto simp: read_back_def without_logs_def)
qed

definition demo_refusing :: "nat env" where
  "demo_refusing = (demo_env 0)\<lparr>dk_ContainerCreate := (\<lambda>u i m n d. (Inl (ErrorString ''no such image''), Suc d))\<rparr>"

theorem Work_failed_start_is_cached_witness:
  "\<exists>bi e s' j' w' bi'' s'' j'' w''.
     Work demo_refusing [] (demo_server\<lparr>sCfg := demo_config\<lparr>cFileSystem := PlainFS demo_refusing\<rparr>\<rparr>) (demo_job [])
       (demo_world demo_tree) = Ret ((Some bi, Some e), s', j', w') \<and>
     Work demo_refusing [] s' (demo_job []) w' = Ret ((Some bi'', None), s'', j'', w'') \<and>
     bCached bi'' \<and> bExitCode bi'' = 0"
proof -
  let ?s = "demo_server\<lparr>sCfg := demo_config\<lparr>cFileSystem := PlainFS demo_refusing\<rparr>\<rparr>"
  have "keeps_mounts demo_refusing" "docker_ends demo_refusing True 0"
    by (simp_all add: keeps_mounts_def docker_ends_def demo_refusing_def demo_env_def IsDir_put)
  moreover have "buildable ?s (demo_job []) demo_tree" "\<not> held (sPq ?s) (jProject (demo_job []))"
      "\<not> enqueued (sJq ?s) (jID (demo_job []))"
    using demo_buildable(1) by (simp_all add: buildable_def)
  ultimately show ?thesis
    using Work_failed_start_is_cached [of demo_refusing ?s "demo_job []" "demo_world demo_tree" "[]" "[]"]
      demo_facts by (fastforce simp: can_build_def)
qed

section \<open>Metrics\<close>

text \<open>The server records at most one outcome for the job's project.\<close>

definition tallied :: "string \<Rightarrow> 'd Server \<Rightarrow> 'd Server \<Rightarrow> bool" where
  "tallied p s s' \<longleftrightarrow> (case sMetrics s of None \<Rightarrow> sMetrics s' = None
     | Some m \<Rightarrow> \<exists>m'. sMetrics s' = Some m' \<and> outcome_recorded p m m')"

lemma tallied_same: "sMetrics s' = sMetrics s \<Longrightarrow> tallied p s s'"
  by (simp add: tallied_def outcome_recorded_def split: option.splits)

lemma tallied_after: "tallied p s s' \<Longrightarrow> sMetrics t = sMetrics s \<Longrightarrow> sMetrics t' = sMetrics s' \<Longrightarrow> tallied p t t'"
  by (simp add: tallied_def split: option.splits)

lemma tallied_record:
  "tallied p s (record_metrics (RecordBuildFinished p ok incr d) s)"
  "tallied p s (record_metrics (RecordBuildCoalesced p) s)"
  "tallied p s (record_metrics (RecordCacheUtilization p) s)"
  by (auto simp: tallied_def outcome_recorded_def split: option.splits)

lemma build_body_tallied:
  "build_body env s j start w = (err, s', j', w') \<Longrightarrow> tallied (jProject j) s s'"
  by (auto simp: build_body_def with_log_def with_client_def build_and_run_def Let_def
      split: prod.splits option.splits sum.splits intro: tallied_same tallied_record)

lemma finish_move_metrics: "finish_move err s j w = Ret (err', s', w') \<Longrightarrow> sMetrics s' = sMetrics s"
  by (auto simp: finish_move_def Let_def split: prod.splits if_splits outcome.splits)

lemma BootstrapProject_metrics: "BootstrapProject s j w = Ret (err, s', w') \<Longrightarrow> sMetrics s' = sMetrics s"
  by (auto simp: BootstrapProject_def Let_def split: prod.splits outcome.splits)

lemma work_build_tallied:
  assumes "work_build env s j start w = Ret (r, s', j', w')"
  shows "tallied (jProject j) s s'"
proof -
  obtain err s1 j1 w1 where b: "build_body env s j start w = (err, s1, j1, w1)" by (metis prod_cases4)
  have "sMetrics s' = sMetrics s1"
    using assms b by (auto simp: work_build_def Let_def split: prod.splits outcome.splits dest!: finish_move_metrics)
  with build_body_tallied [OF b] show ?thesis by (auto intro: tallied_after)
qed

lemma work_fresh_tallied:
  assumes "work_fresh env s j start w = Ret (r, s', j', w')"
  shows "tallied (jProject j) s s'"
proof -
  have "tallied (jProject j) s s'" if "BootstrapProject s j w1 = Ret (None, s1, w2)"
    "BootstrapBuildDir fs j w2 = (None, j1, w3)" "work_build env s1 j1 start w4 = Ret (r, s', j', w')"
    for s1 j1 w1 w2 w3 w4 fs
    using work_build_tallied [OF that(3)] BootstrapProject_metrics [OF that(1)]
      same_job_sel(2) [OF BootstrapBuildDir_job [OF that(2)]]
    by (auto intro: tallied_after)
  then show ?thesis
    using assms
    by (auto simp: work_fresh_def Let_def split: prod.splits outcome.splits option.splits sum.splits if_splits
        intro: tallied_same dest: BootstrapProject_metrics)
qed

lemma work_cache_tallied:
  "work_cache env s j start w = Ret (r, s', j', w') \<Longrightarrow> tallied (jProject j) s s'"
  by (auto simp: work_cache_def split: prod.splits outcome.splits sum.splits option.splits if_splits
      intro: tallied_same tallied_record dest: work_fresh_tallied)

lemma coalesce_tallied: "coalesce s j evs w = Ret (r, s', j', w') \<Longrightarrow> tallied (jProject j) s s'"
proof (induction s j evs w rule: coalesce.induct)
  case (3 s j r evs w)
  then show ?case
    by (auto simp: join_result_def Let_def split: prod.splits outcome.splits sum.splits if_splits
        intro: tallied_same tallied_record)
qed (auto simp: tallied_same)

text \<open>
  The metrics stay consistent: if before a call of \<open>Work\<close> every finished build was observed
  exactly once (as a success or a failure) and no project had more finished, coalesced and cached
  requests than started ones, the same holds after it, on every path; and exactly one more
  request of the job's project has been counted as started.
\<close>

theorem Work_metrics:
  assumes "Work env evs s j w = Ret (r, s', j', w')" and "sMetrics s = Some m" and "books m"
  shows "\<exists>m'. sMetrics s' = Some m' \<and> books m' \<and> BuildsStarted m' = inc (jProject j) (BuildsStarted m)"
proof -
  obtain start s0 j1 w1 where b: "work_begin s j w = (start, s0, j1, w1)" by (metis prod_cases4)
  have m0: "sMetrics s0 = Some (RecordBuildStarted (jProject j) m)"
    using work_begin_info(3) [OF b] assms(2) by simp
  have p: "jProject j1 = jProject j" using work_begin_sel [OF b] same_job_sel(2) by blast
  have "tallied (jProject j) s0 s'"
  proof (cases "fst (Add (sJq s0) j1)")
    case True
    then obtain s1 where c: "work_cache env (s0\<lparr>sJq := snd (Add (sJq s0) j1)\<rparr>) j1 start w1 = Ret (r, s1, j', w')"
        "s' = s1\<lparr>sJq := Delete (sJq s1) j1\<rparr>"
      using assms(1) b by (auto simp: Work_def split: prod.splits outcome.splits)
    show ?thesis using work_cache_tallied [OF c(1)] c(2) p by (auto intro: tallied_after)
  next
    case False
    then have c: "coalesce (s0\<lparr>sJq := snd (Add (sJq s0) j1)\<rparr>) j1 evs w1 = Ret (r, s', j', w')"
      using assms(1) b by (auto simp: Work_def split: prod.splits)
    show ?thesis using coalesce_tallied [OF c] p by (auto intro: tallied_after)
  qed
  then show ?thesis
    using m0 books_request [OF assms(3)] by (auto simp: tallied_def)
qed

theorem Work_metrics_witness:
  "\<exists>r s' j' w' m'. Work (demo_env 1) [] demo_server (demo_job []) (demo_world demo_tree) = Ret (r, s', j', w') \<and>
     sMetrics s' = Some m' \<and> books m' \<and> BuildsStarted m' ''app'' = 1"
proof -
  have "info_not_null (jReadyBuildPath (demo_job [])) (root (demo_world demo_tree))"
    by code_simp
  then obtain r s' j' w' where
    W: "Work (demo_env 1) [] demo_server (demo_job []) (demo_world demo_tree) = Ret (r, s', j', w')"
    using Work_completes [of demo_server "demo_job []"] demo_server_sel by blast
  have "\<exists>m'. sMetrics s' = Some m' \<and> books m' \<and> BuildsStarted m' = inc ''app'' (BuildsStarted NewRecorder)"
    using Work_metrics [OF W] books_New by simp
  with W show ?thesis by (auto simp: inc_def NewRecorder_def)
qed

end
