(* ===== verification/Store.thy ===== *)
theory Store
  imports Work_Cases
begin

text \<open>
  What the server is for, as an abstract machine: a store of build results, by project and ID,
  with the latest successful build of every project and of every group. A request is answered
  from the store if it holds a successful result, and otherwise by building and storing; a build
  of a group starts from the latest build of the group. \<open>Work\<close> (\<open>cmd/mistryd/worker.go\<close>) refines
  this machine (theory \<open>Requests\<close>).
\<close>

section \<open>The abstract machine\<close>

type_synonym build_key = "string \<times> string"

record store =
  results :: "build_key \<rightharpoonup> BuildInfo"
  latest :: "string \<times> string \<rightharpoonup> string"

text \<open>The latest build is kept by project and group; the builds without a group have their own.\<close>

text \<open>Build information as it is kept: without the logs, the parameters in key order.\<close>

definition kept_info :: "BuildInfo \<Rightarrow> BuildInfo" where
  "kept_info bi = bi\<lparr>bParams := sort_key fst (bParams bi), bContainerStdouterr := [], bContainerStderr := []\<rparr>"

definition succeeded :: "work_ret \<Rightarrow> bool" where
  "succeeded rep \<longleftrightarrow> (case rep of (Some bi, None) \<Rightarrow> bExitCode bi = 0 | _ \<Rightarrow> False)"

text \<open>
  One request: which answers are allowed, and the store after it. A build is incremental if and
  only if it has a group of which there is a latest build.
\<close>

definition hit :: "store \<Rightarrow> build_key \<Rightarrow> BuildInfo option" where
  "hit st k = (case results st k of Some bi \<Rightarrow> if bExitCode bi = 0 then Some bi else None | None \<Rightarrow> None)"

definition store_request :: "store \<Rightarrow> build_key \<Rightarrow> work_ret \<Rightarrow> store option" where
  "store_request st k rep =
     (case rep of
        (None, _) \<Rightarrow> None
      | (Some bi, err) \<Rightarrow>
          (case hit st k of
             Some old \<Rightarrow> if err = None \<and> kept_info bi = old\<lparr>bCached := True\<rparr> then Some st else None
           | None \<Rightarrow>
               if bCached bi \<or> bIncremental bi \<noteq> (bGroup bi \<noteq> [] \<and> latest st (fst k, bGroup bi) \<noteq> None) then None
               else Some (st\<lparr>results := (results st)(k \<mapsto> kept_info bi),
                             latest := (if succeeded rep then (latest st)((fst k, bGroup bi) \<mapsto> snd k) else latest st)\<rparr>)))"

fun store_run :: "store \<Rightarrow> (build_key \<times> work_ret) list \<Rightarrow> store option" where
  "store_run st [] = Some st"
| "store_run st ((k, rep) # es) = (case store_request st k rep of None \<Rightarrow> None | Some st \<Rightarrow> store_run st es)"

section \<open>Runs of the machine\<close>

lemma kept_info_idem [simp]: "kept_info (kept_info bi) = kept_info bi"
  by (simp add: kept_info_def sort_key_id_if_sorted)

lemma kept_info_sel [simp]:
  "bExitCode (kept_info bi) = bExitCode bi" "bCached (kept_info bi) = bCached bi"
  by (simp_all add: kept_info_def)

lemma kept_info_cached:
  assumes "kept_info a = (kept_info b)\<lparr>bCached := True\<rparr>"
  shows "bCached a" "bExitCode a = bExitCode b"
  using arg_cong [OF assms, of bCached] arg_cong [OF assms, of bExitCode] by simp_all

lemma store_run_append:
  "store_run st (es @ fs) = (case store_run st es of None \<Rightarrow> None | Some st \<Rightarrow> store_run st fs)"
  by (induction st es rule: store_run.induct) (auto split: option.splits)

text \<open>A successful result stays, and every further request for it is answered from it.\<close>

lemma store_request_hit:
  assumes "store_request st k rep = Some st'" and "hit st l = Some bi"
  shows "hit st' l = Some bi" "k = l \<Longrightarrow> \<exists>bi'. rep = (Some bi', None) \<and> kept_info bi' = bi\<lparr>bCached := True\<rparr>"
  using assms
  by (auto simp: store_request_def hit_def split: prod.splits option.splits if_splits)

lemma store_run_hit:
  assumes "store_run st es = Some st'" and "hit st k = Some bi" and "(k, rep) \<in> set es"
  shows "\<exists>bi'. rep = (Some bi', None) \<and> kept_info bi' = bi\<lparr>bCached := True\<rparr>"
  using assms
proof (induction st es rule: store_run.induct)
  case (2 st l rp es)
  then obtain st1 where s: "store_request st l rp = Some st1" "store_run st1 es = Some st'"
    by (auto split: option.splits)
  show ?case
    using 2 s store_request_hit [OF s(1) "2.prems"(2)] by auto
qed simp

lemma store_request_success:
  assumes "store_request st k (Some bi, None) = Some st'" and "bExitCode bi = 0"
  shows "\<exists>b. hit st' k = Some b \<and> b\<lparr>bCached := True\<rparr> = (kept_info bi)\<lparr>bCached := True\<rparr>"
  using assms
  by (auto simp: store_request_def hit_def succeeded_def split: option.splits if_splits)

text \<open>So in every run a successful build is never repeated.\<close>

lemma store_builds_once:
  assumes "store_run st (es @ (k, (Some bi, None)) # fs) = Some st'" and "bExitCode bi = 0" and "(k, rep) \<in> set fs"
  shows "\<exists>bi'. rep = (Some bi', None) \<and> kept_info bi' = (kept_info bi)\<lparr>bCached := True\<rparr>"
proof -
  obtain st1 st2 where s: "store_request st1 k (Some bi, None) = Some st2" "store_run st2 fs = Some st'"
    using assms(1) by (auto simp: store_run_append split: option.splits)
  obtain b where b: "hit st2 k = Some b" "b\<lparr>bCached := True\<rparr> = (kept_info bi)\<lparr>bCached := True\<rparr>"
    using store_request_success [OF s(1) assms(2)] by blast
  show ?thesis using store_run_hit [OF s(2) b(1) assms(3)] b(2) by simp
qed

section \<open>The contract of a server of requests\<close>

text \<open>
  The requests are served one after the other; the answers are collected.
\<close>

fun serve_all :: "('s \<Rightarrow> 'j \<Rightarrow> (work_ret \<times> 's) outcome) \<Rightarrow> 's \<Rightarrow> 'j list \<Rightarrow> (work_ret list \<times> 's) outcome" where
  "serve_all serve s [] = Ret ([], s)"
| "serve_all serve s (j # js) =
     (case serve s j of
        Ret (rep, s) \<Rightarrow>
          (case serve_all serve s js of
             Ret (reps, s) \<Rightarrow> Ret (rep # reps, s)
           | Blocked \<Rightarrow> Blocked
           | Panic m \<Rightarrow> Panic m)
      | Blocked \<Rightarrow> Blocked
      | Panic m \<Rightarrow> Panic m)"

text \<open>
  A concrete server whose requests are related to those of the machine: \<open>serve\<close> answers a
  request and yields the next state, \<open>abs\<close> is the store a state stands for, \<open>inv\<close> holds
  between requests, and \<open>admissible\<close> says which requests are considered.
\<close>

locale store_refinement =
  fixes serve :: "'s \<Rightarrow> 'j \<Rightarrow> (work_ret \<times> 's) outcome"
    and abs :: "'s \<Rightarrow> store"
    and inv :: "'s \<Rightarrow> bool"
    and key :: "'j \<Rightarrow> build_key"
    and admissible :: "'s \<Rightarrow> 'j \<Rightarrow> bool"
  assumes serve_step: "inv s \<Longrightarrow> admissible s j \<Longrightarrow>
      \<exists>rep s'. serve s j = Ret (rep, s') \<and> inv s' \<and> (\<forall>i. admissible s i \<longrightarrow> admissible s' i) \<and>
        store_request (abs s) (key j) rep = Some (abs s')"
begin

lemma serve_all_refines:
  assumes "inv s" and "\<forall>j \<in> set js. admissible s j"
  shows "\<exists>reps s'. serve_all serve s js = Ret (reps, s') \<and> length reps = length js \<and> inv s' \<and>
     store_run (abs s) (zip (map key js) reps) = Some (abs s')"
  using assms
proof (induction js arbitrary: s)
  case (Cons j js)
  then obtain rep s1 where s1: "serve s j = Ret (rep, s1)" "inv s1" "\<forall>i. admissible s i \<longrightarrow> admissible s1 i"
      "store_request (abs s) (key j) rep = Some (abs s1)"
    using serve_step [of s j] by auto
  with Cons obtain reps s' where "serve_all serve s1 js = Ret (reps, s')" "length reps = length js" "inv s'"
      "store_run (abs s1) (zip (map key js) reps) = Some (abs s')"
    by (metis list.set_intros(2))
  with s1 show ?case by simp
qed simp

text \<open>A request that was answered with a success is never built again.\<close>

lemma serve_all_once:
  assumes "inv s" and "\<forall>j \<in> set js. admissible s j" and "serve_all serve s js = Ret (reps, s')"
    and "m < n" and "n < length js" and "key (js ! m) = key (js ! n)" and "reps ! m = (Some bi, None)" and "bExitCode bi = 0"
  shows "\<exists>bi'. reps ! n = (Some bi', None) \<and> kept_info bi' = (kept_info bi)\<lparr>bCached := True\<rparr>"
proof -
  let ?es = "zip (map key js) reps"
  have r: "length reps = length js" "store_run (abs s) ?es = Some (abs s')"
    using serve_all_refines [OF assms(1,2)] assms(3) by auto
  have es: "?es = take m ?es @ ?es ! m # drop (Suc m) ?es"
    using assms(4,5) r(1) by (intro id_take_nth_drop) simp
  have "?es ! n = drop (Suc m) ?es ! (n - Suc m)" using assms(4,5) r(1) by simp
  then have "?es ! n \<in> set (drop (Suc m) ?es)"
    using assms(4,5) r(1) by (simp only: in_set_conv_nth) (rule exI [of _ "n - Suc m"], simp)
  then have "(key (js ! m), reps ! n) \<in> set (drop (Suc m) ?es)" using assms(4-6) r(1) by simp
  moreover have "?es ! m = (key (js ! m), (Some bi, None))" using assms(4,5,7) r(1) by simp
  ultimately show ?thesis
    using store_builds_once [of "abs s" "take m ?es" "key (js ! m)" bi "drop (Suc m) ?es"] r(2) es assms(8) by metis
qed

end

end
