(* ===== verification/Group_Builds.thy ===== *)
theory Group_Builds
  imports Work_Cases
begin

text \<open>
  The builds of a group follow one another, each on a copy of the one before
  (\<open>CloneSrcPath\<close> and \<open>BootstrapBuildDir\<close> of \<open>cmd/mistryd/job.go\<close>, used by \<open>Work\<close>).
\<close>

section \<open>What a build of a group starts from\<close>

text \<open>
  C11. An incremental build starts from its base: if the latest link of the group points at a
  finished build, \<open>BootstrapBuildDir\<close> makes a pending directory with every file of that build,
  its cache and its artifacts included, but none of its parameters; the build information says
  that the build is incremental, and nothing outside the pending directory changes.
\<close>

theorem BootstrapBuildDir_copies_base:
  assumes "quiet w" and "wf_job j" and "is_dir (root w) (jRootBuildPath j @ [''pending''])"
    and "based_on j i (root w)" and "lookup (root w) (jPendingBuildPath j) = None" and "cp_copies env"
  shows "\<exists>r. BootstrapBuildDir (PlainFS env) j w =
             (None, j\<lparr>jBuildInfo := (jBuildInfo j)\<lparr>bIncremental := True\<rparr>\<rparr>, w\<lparr>root := r\<rparr>) \<and>
           (\<forall>q c. lookup (root w) (jRootBuildPath j @ ''ready'' # i # q) = Some (File c) \<and> \<not> prefix [''data'', ''params''] q \<longrightarrow>
              lookup r (jPendingBuildPath j @ q) = Some (File c)) \<and>
           (\<forall>k. lookup r (jPendingBuildPath j @ [''data'', ''params'', k]) = None) \<and>
           (\<forall>q. \<not> prefix (jPendingBuildPath j) q \<longrightarrow> \<not> prefix q (jPendingBuildPath j) \<longrightarrow> lookup r q = lookup (root w) q)"
  using BootstrapBuildDir_clone [OF assms] by (auto simp: set_info_def staged_def below_def)

section \<open>One build after another\<close>

text \<open>Two jobs of one group, whose project lies outside the build directory.\<close>

definition siblings :: "'d Config \<Rightarrow> Job \<Rightarrow> Job \<Rightarrow> bool" where
  "siblings cfg i k \<longleftrightarrow>
     wf_job k \<and> plain_params k \<and> jRootBuildPath k = jRootBuildPath i \<and> jProject k = jProject i \<and>
     jGroup k = jGroup i \<and> jGroup i \<noteq> [] \<and> jID k \<noteq> jID i \<and> (\<forall>c \<in> set (jRootBuildPath i). clean_name c) \<and>
     \<not> prefix (jRootBuildPath i) (Join (projects_dir cfg) (jProject i)) \<and>
     \<not> prefix (Join (projects_dir cfg) (jProject i)) (jRootBuildPath i)"

lemma sibling_can_build:
  assumes "can_build env s i r" and "siblings (sCfg s) i k" and "finished i True bi r r'" and "base_at (jReadyBuildPath i) r'"
    and "cp_copies env" and "lookup r (jPendingBuildPath k) = None" and "lookup r (jReadyBuildPath k) = None"
    and "sCfg s' = sCfg s" and "\<not> held (sPq s') (jProject k)"
  shows "can_build env s' k r'" and "based_on k (jID i) r'" and "lookup r' (jReadyBuildPath k) = None"
proof -
  let ?R = "jRootBuildPath i" and ?P = "Join (projects_dir (sCfg s)) (jProject i)"
  have wi: "wf_job i" and wk: "wf_job k" using assms(1,2) by (simp_all add: can_build_def siblings_def)
  have g: "jGroup k = jGroup i" "jGroup i \<noteq> []" "jRootBuildPath k = ?R" "jID k \<noteq> jID i" "jProject k = jProject i"
    using assms(2) by (simp_all add: siblings_def)
  have PI: "jPendingBuildPath i = ?R @ [''pending'', jID i]" "jReadyBuildPath i = ?R @ [''ready'', jID i]"
      "jLatestBuildPath i = ?R @ [''groups'', jGroup i]"
    using wi g(2) by (simp_all add: wf_job_def)
  have PK: "jPendingBuildPath k = ?R @ [''pending'', jID k]" "jReadyBuildPath k = ?R @ [''ready'', jID k]"
      "jLatestBuildPath k = ?R @ [''groups'', jGroup i]"
    using wk g by (simp_all add: wf_job_def)
  have dirs: "set (project_dirs i) = {?R, ?R @ [''pending''], ?R @ [''ready''], ?R @ [''groups'']}"
    using g(2) by (auto simp: project_dirs_def clean_name_def)
  have same: "lookup r' q = lookup r q"
    if "\<forall>d \<in> {jPendingBuildPath i, jReadyBuildPath i, jLatestBuildPath i}. \<not> prefix d q \<and> \<not> prefix q d"
      "\<forall>d \<in> set (project_dirs i). \<not> prefix q d" for q
    using assms(3) that by (simp add: finished_def)
  have k: "lookup r' (jPendingBuildPath k) = None" "lookup r' (jReadyBuildPath k) = None"
    using assms(6,7) same [of "jPendingBuildPath k"] same [of "jReadyBuildPath k"] g(4) by (simp_all add: PI PK dirs)
  then show "lookup r' (jReadyBuildPath k) = None" by simp
  have l: "lookup r' (jLatestBuildPath k) = Some (Symlink (jReadyBuildPath i))"
    using assms(3) by (simp add: finished_def PI PK)
  have d: "is_dir r' (?R @ [''pending''])" "is_dir r' (jReadyBuildPath i @ [''data''])" using assms(3) by (simp_all add: finished_def)
  have "is_dir r' (?R @ [''ready''])" using d(2) by (auto simp: PI intro: is_dir_prefix)
  moreover have "is_dir r' ?R" "is_dir r' (butlast ?R)"
    using d(1) prefixeq_butlast [of ?R] by (auto intro: is_dir_prefix prefix_order.trans)
  moreover have "is_dir r' (?R @ [''groups''])"
    using l lookup_snoc_dir [of r' "?R @ [''groups'']" "jGroup i"] by (simp add: PK)
  ultimately have lay: "layout k r'" using d(1) l g by (simp add: layout_def dir_or_new_def)
  have P: "\<not> prefix ?P (?R @ x)" for x
    using assms(2) prefix_same_cases [of ?P "?R @ x" ?R] by (auto simp: siblings_def)
  moreover have "\<not> prefix (?R @ x) ?P" for x using assms(2) append_prefixD by (fastforce simp: siblings_def)
  moreover have "\<not> prefix ?P ?R" using P [of "[]"] by simp
  ultimately have "lookup r' ?P = lookup r ?P" by (intro same) (simp_all only: PI dirs ball_simps simp_thms)
  then have pr: "is_dir r' ?P" using assms(1) by (simp add: can_build_def buildable_def is_dir_def)
  show b: "based_on k (jID i) r'"
    using assms(2,4) l wi g PI by (auto simp: based_on_def base_at_def siblings_def wf_job_def)
  show "can_build env s' k r'"
    using assms(1,2,5,8,9) lay pr k b g(5) by (auto simp: can_build_def buildable_def has_base_def siblings_def)
qed

lemma sibling_builds:
  assumes "can_build env s i (root w)" and "quiet w" and "\<not> enqueued (sJq s) (jID i)"
    and "lookup (root w) (jReadyBuildPath i) = None" and "keeps_dirs env" and "cp_copies env"
    and "Work env evs s i w = Ret ((Some a, None), s1, i', w1)" and "bExitCode a = 0"
    and "siblings (sCfg s) i k" and "\<not> enqueued (sJq s) (jID k)"
    and "lookup (root w) (jPendingBuildPath k) = None" and "lookup (root w) (jReadyBuildPath k) = None"
  shows "based_on k (jID i) (root w1) \<and>
     (\<exists>b err s2 k' w2. Work env evs' s1 k w1 = Ret ((Some b, err), s2, k', w2) \<and> bIncremental b \<and> request_of b = job_request k \<and>
        (docker_ends env failed code \<longrightarrow> bExitCode b = code) \<and>
        finished k (err = None \<and> bExitCode b = 0) b (root w1) (root w2))"
proof -
  have f: "quiet w1" "finished i True a (root w) (root w1)" "base_at (jReadyBuildPath i) (root w1)"
    using Work_builds [OF assms(1-4), of evs] assms(5,7,8) by auto
  note gives = Work_gives_back [OF assms(7)]
  have "\<not> held (sPq s1) (jProject k)" using gives assms(1,9) by (simp add: can_build_def siblings_def)
  note S = sibling_can_build [OF assms(1,9) f(2,3) assms(6,11,12) _ this]
  have sib: "can_build env s1 k (root w1)" "based_on k (jID i) (root w1)" "lookup (root w1) (jReadyBuildPath k) = None"
    using S gives by blast+
  have "\<not> enqueued (sJq s1) (jID k)" using gives assms(10) by blast
  moreover have "\<not> no_base k (root w1)" using sib(2) by (simp add: based_on_def no_base_def)
  ultimately show ?thesis using Work_builds [OF sib(1) f(1) _ sib(3), of evs'] sib(2) by blast
qed


section \<open>Examples\<close>

definition demo_second :: Job where
  "demo_second = (demo_job ''g'')\<lparr>jID := ''abcdef02'', jPendingBuildPath := [''build'', ''app'', ''pending'', ''abcdef02''],
     jReadyBuildPath := [''build'', ''app'', ''ready'', ''abcdef02''],
     jBuildLogPath := [''build'', ''app'', ''pending'', ''abcdef02'', ''out.log''],
     jBuildInfoFilePath := [''build'', ''app'', ''pending'', ''abcdef02'', ''build_info.json'']\<rparr>"

lemma demo_second_sel [simp]:
  "jID demo_second = ''abcdef02''" "jProject demo_second = ''app''" "jGroup demo_second = ''g''"
  "jRootBuildPath demo_second = [''build'', ''app'']"
  "jPendingBuildPath demo_second = [''build'', ''app'', ''pending'', ''abcdef02'']"
  "jReadyBuildPath demo_second = [''build'', ''app'', ''ready'', ''abcdef02'']"
  "jLatestBuildPath demo_second = [''build'', ''app'', ''groups'', ''g'']"
  by (simp_all add: demo_second_def) (simp add: demo_job_def latest_path_def clean_name_def)

lemma demo_wf_second: "wf_job demo_second"
  using demo_wf_job(2) unfolding demo_second_def by (simp add: wf_job_def clean_name_def)

lemma demo_siblings: "siblings demo_config (demo_job ''g'') demo_second"
  using demo_wf_second by (simp add: siblings_def plain_params_def clean_name_def) (simp add: demo_second_def)

lemma demo_keeps_dirs: "keeps_dirs (demo_env code)"
proof -
  have a: "dir_or_new (put [''artifacts'', ''out.txt''] x nd) [''cache'']" if "dir_or_new nd [''cache'']" for nd x
    using that by (simp add: dir_or_new_def is_dir_def lookup_put_other)
  have b: "dir_or_new (put [''artifacts'', ''out.txt''] x nd) [''artifacts'']" if "dir_or_new nd [''artifacts'']" for nd x
    using that lookup_put_above [of "[''artifacts'']" "''out.txt''" "[]" x nd]
    by (auto simp: dir_or_new_def is_dir_def intro: IsDir_put split: option.splits)
  show ?thesis using a b by (simp add: keeps_dirs_def demo_env_def)
qed

lemma demo_group_can_build: "can_build (demo_env 0) demo_server (demo_job ''g'') demo_tree"
proof -
  have "has_base (demo_env 0) (demo_job ''g'') demo_tree"
    by (simp add: has_base_def no_base_def) (simp add: demo_job_def latest_path_def demo_tree_def clean_name_def)
  then show ?thesis by (simp add: can_build_def demo_facts)
qed

lemma demo_follows:
  "\<exists>a s1 i' w1. Work (demo_env 0) [] demo_server (demo_job ''g'') (demo_world demo_tree) = Ret ((Some a, None), s1, i', w1) \<and>
     bExitCode a = 0 \<and> request_of a = job_request (demo_job ''g'') \<and>
     lookup demo_tree (jPendingBuildPath demo_second) = None \<and> lookup demo_tree (jReadyBuildPath demo_second) = None"
proof -
  have "lookup demo_tree (jPendingBuildPath demo_second) = None" "lookup demo_tree (jReadyBuildPath demo_second) = None"
    by (simp_all add: demo_tree_def)
  then show ?thesis
    using Work_builds [of "demo_env 0" demo_server "demo_job ''g''" "demo_world demo_tree" "[]"]
      demo_group_can_build demo_not_ready demo_docker_ends [of 0] by fastforce
qed


definition demo_grouped :: node where
  "demo_grouped = Dir [(''build'', Dir [(''app'', Dir [(''pending'', Dir []),
     (''ready'', Dir [(''abcdef01'', Dir [(''data'', Dir [(''cache'', Dir [(''lib'', File (Text ''x''))])])])]),
     (''groups'', Dir [(''g'', Symlink [''build'', ''app'', ''ready'', ''abcdef01''])])])])]"

theorem BootstrapBuildDir_copies_base_witness:
  "\<exists>j' w'. BootstrapBuildDir (PlainFS (demo_env 0)) demo_second (demo_world demo_grouped) = (None, j', w') \<and>
     bIncremental (jBuildInfo j') \<and>
     lookup (root w') [''build'', ''app'', ''pending'', ''abcdef02'', ''data'', ''cache'', ''lib''] = Some (File (Text ''x''))"
proof -
  have "based_on demo_second ''abcdef01'' demo_grouped"
    by (simp add: based_on_def demo_grouped_def base_tree_def dir_or_new_def file_or_new_def is_dir_def clean_name_def)
  moreover have "is_dir demo_grouped (jRootBuildPath demo_second @ [''pending''])"
      "lookup demo_grouped (jPendingBuildPath demo_second) = None"
      "lookup demo_grouped (jRootBuildPath demo_second @ ''ready'' # ''abcdef01'' # [''data'', ''cache'', ''lib'']) = Some (File (Text ''x''))"
    by (simp_all add: demo_grouped_def is_dir_def)
  ultimately show ?thesis
    using BootstrapBuildDir_copies_base [of "demo_world demo_grouped" demo_second "''abcdef01''" "demo_env 0"]
      demo_wf_second demo_cp_copies [of 0] by fastforce
qed

end
