(* ===== verification/Footprint.thy ===== *)
theory Footprint
  imports Store Group_Builds
begin

text \<open>
  The files of the projects in the build directory, the store of results they stand for, and what
  a call of \<open>Work\<close> for one job may change of them: the files of other projects, of other IDs and
  the latest links of other groups stay, and so does the store of results at other keys.
\<close>

section \<open>Where the files of a job are\<close>

text \<open>The latest link of a group in the directory of its project; \<open>[]\<close> is no group.\<close>

definition link_name :: "string \<Rightarrow> path" where
  "link_name g = (if g = [] then [''latest''] else [''groups'', g])"

lemma link_name_eq [simp]: "link_name g = link_name h \<longleftrightarrow> g = h"
  by (simp add: link_name_def)

text \<open>A job whose files are in the build directory \<open>B\<close>.\<close>

definition job_in :: "path \<Rightarrow> Job \<Rightarrow> bool" where
  "job_in B j \<longleftrightarrow> wf_job j \<and> jRootBuildPath j = B @ [jProject j]"

definition job_key :: "Job \<Rightarrow> build_key" where
  "job_key j = (jProject j, jID j)"

lemma job_in_paths:
  assumes "job_in B j"
  shows "jPendingBuildPath j = B @ [jProject j, ''pending'', jID j]" "jReadyBuildPath j = B @ [jProject j, ''ready'', jID j]"
    "jLatestBuildPath j = B @ jProject j # link_name (jGroup j)"
    "project_dirs j = [B @ [jProject j], B @ [jProject j, ''pending''], B @ [jProject j, ''ready'']] @
       (if jGroup j = [] then [] else [B @ [jProject j, ''groups'']])"
    "link_dir j = (if jGroup j = [] then B @ [jProject j] else B @ [jProject j, ''groups''])"
  using assms by (auto simp: job_in_def wf_job_def project_dirs_def clean_name_def link_name_def link_dir_def)

text \<open>The link and the directories of a job, and a path below none of them.\<close>

lemma link_name_apart [simp]:
  "\<not> prefix (link_name g) (''pending'' # q)" "\<not> prefix (''pending'' # q) (link_name g)"
  "\<not> prefix (link_name g) (''ready'' # q)" "\<not> prefix (''ready'' # q) (link_name g)"
  "link_name g \<noteq> []" "link_name g \<noteq> ''pending'' # q" "link_name g \<noteq> ''ready'' # q" "link_name g \<noteq> [''groups'']"
  "prefix (link_name g) (link_name h) \<longleftrightarrow> g = h"
  by (auto simp: link_name_def)

section \<open>What a call may touch\<close>

definition footprint :: "Job \<Rightarrow> node \<Rightarrow> node \<Rightarrow> bool" where
  "footprint j r r' \<longleftrightarrow>
     (\<forall>q. is_dir r q \<longrightarrow> \<not> prefix (jPendingBuildPath j) q \<longrightarrow> \<not> prefix (jReadyBuildPath j) q \<longrightarrow> is_dir r' q) \<and>
     (\<forall>d \<in> set (project_dirs j). dir_or_new r d \<longrightarrow> dir_or_new r' d) \<and>
     (\<forall>q. (\<forall>d \<in> {jPendingBuildPath j, jReadyBuildPath j, jLatestBuildPath j}. \<not> prefix d q \<and> \<not> prefix q d) \<longrightarrow>
        (\<forall>d \<in> set (project_dirs j). \<not> prefix q d) \<longrightarrow> lookup r' q = lookup r q)"

lemma footprint_refl [simp]: "footprint j r r"
  by (simp add: footprint_def)

lemma dir_or_new_cong: "lookup r' p = lookup r p \<Longrightarrow> dir_or_new r' p = dir_or_new r p"
  by (simp add: dir_or_new_def is_dir_def)

lemma footprint_in:
  assumes "footprint j r r'" and "job_in B j"
  shows "p \<noteq> jProject j \<Longrightarrow> lookup r' (B @ p # q) = lookup r (B @ p # q)"
    "i \<noteq> jID j \<Longrightarrow> lookup r' (B @ jProject j # ''pending'' # i # q) = lookup r (B @ jProject j # ''pending'' # i # q)"
    "i \<noteq> jID j \<Longrightarrow> lookup r' (B @ jProject j # ''ready'' # i # q) = lookup r (B @ jProject j # ''ready'' # i # q)"
    "g \<noteq> jGroup j \<Longrightarrow> lookup r' (B @ jProject j # link_name g) = lookup r (B @ jProject j # link_name g)"
    "d \<in> {[], [''pending''], [''ready''], [''groups'']} \<Longrightarrow> dir_or_new r (B @ jProject j # d) \<Longrightarrow> dir_or_new r' (B @ jProject j # d)"
proof -
  note P = job_in_paths [OF assms(2)]
  have F: "lookup r' q = lookup r q"
    if "\<forall>d \<in> {jPendingBuildPath j, jReadyBuildPath j, jLatestBuildPath j}. \<not> prefix d q \<and> \<not> prefix q d"
      "\<forall>d \<in> set (project_dirs j). \<not> prefix q d" for q
    using assms(1) that by (simp add: footprint_def)
  show "p \<noteq> jProject j \<Longrightarrow> lookup r' (B @ p # q) = lookup r (B @ p # q)"
    "i \<noteq> jID j \<Longrightarrow> lookup r' (B @ jProject j # ''pending'' # i # q) = lookup r (B @ jProject j # ''pending'' # i # q)"
    "i \<noteq> jID j \<Longrightarrow> lookup r' (B @ jProject j # ''ready'' # i # q) = lookup r (B @ jProject j # ''ready'' # i # q)"
    by (rule F; auto simp: P link_name_def)+
  show "g \<noteq> jGroup j \<Longrightarrow> lookup r' (B @ jProject j # link_name g) = lookup r (B @ jProject j # link_name g)"
    by (rule F; auto simp: P link_name_def)
  show "dir_or_new r' (B @ jProject j # d)"
    if d: "d \<in> {[], [''pending''], [''ready''], [''groups'']}" "dir_or_new r (B @ jProject j # d)"
  proof (cases "d = [''groups''] \<and> jGroup j = []")
    case True
    then have "lookup r' (B @ jProject j # d) = lookup r (B @ jProject j # d)" by (intro F) (auto simp: P link_name_def)
    then show ?thesis using d(2) dir_or_new_cong by blast
  next
    case False
    then show ?thesis using assms(1) d by (auto simp: footprint_def P)
  qed
qed

lemma footprint_dir:
  "footprint j r r' \<Longrightarrow> is_dir r q \<Longrightarrow> \<not> prefix (jPendingBuildPath j) q \<Longrightarrow> \<not> prefix (jReadyBuildPath j) q \<Longrightarrow> is_dir r' q"
  by (simp add: footprint_def)

text \<open>The steps that change the tree.\<close>

lemma footprint_bootstrapped:
  assumes "job_in B j" and "bootstrapped j r r'"
  shows "footprint j r r'"
proof -
  have "\<forall>d \<in> set (project_dirs j). is_dir r' d"
    using assms(2) by (auto simp: bootstrapped_def job_in_paths [OF assms(1)] assms(1) [unfolded job_in_def] intro: is_dir_prefix)
  then show ?thesis using assms(2) by (simp add: footprint_def bootstrapped_def dir_or_new_def)
qed

lemma footprint_below:
  assumes "job_in B j" and "below (jPendingBuildPath j) r r'"
  shows "footprint j r r'"
proof -
  have "dir_or_new r' d" if "d \<in> set (project_dirs j)" "dir_or_new r d" for d
  proof (cases "prefix d (jPendingBuildPath j)")
    case True
    then show ?thesis using assms(2) by (auto simp: below_def dir_or_new_def intro: is_dir_prefix)
  next
    case False
    moreover have "\<not> prefix (jPendingBuildPath j) d" using that(1) by (auto simp: job_in_paths [OF assms(1)] split: if_splits)
    ultimately have "lookup r' d = lookup r d" using below_lookup [OF assms(2)] by blast
    then show ?thesis using that(2) by (simp add: dir_or_new_def is_dir_def)
  qed
  then show ?thesis using assms(2) below_is_dir [OF assms(2)] by (simp add: footprint_def below_lookup)
qed

lemma footprint_published:
  assumes "job_in B j" and "published j l nd r r'" and "lookup r' (jReadyBuildPath j) \<noteq> None" and "is_dir r (link_dir j)"
    and "\<forall>q. is_dir r q \<longrightarrow> \<not> prefix (jPendingBuildPath j) q \<longrightarrow> is_dir r' q"
  shows "footprint j r r'"
proof -
  note P = job_in_paths [OF assms(1)]
  have "is_dir r' (B @ [jProject j, ''ready''])"
    using assms(3) lookup_snoc_dir [of r' "B @ [jProject j, ''ready'']" "jID j"] by (simp add: P)
  moreover from this have "is_dir r' (B @ [jProject j])" by (auto intro: is_dir_prefix)
  moreover have "is_dir r' (B @ [jProject j, ''pending''])"
    using assms(1,2) by (simp add: published_def job_in_def)
  moreover have "is_dir r' (link_dir j)" using assms(2,4) by (simp add: published_def)
  ultimately have "\<forall>d \<in> set (project_dirs j). is_dir r' d" by (simp add: P split: if_splits)
  then show ?thesis using assms(2,5) by (simp add: footprint_def published_def dir_or_new_def)
qed

lemma footprint_link:
  assumes "job_in B j" and "is_dir r (link_dir j)" and "\<forall>q. is_dir r q \<longrightarrow> is_dir r' q"
    and "\<forall>q. \<not> prefix (jLatestBuildPath j) q \<longrightarrow> \<not> prefix q (jLatestBuildPath j) \<longrightarrow> lookup r' q = lookup r q"
  shows "footprint j r r'"
proof -
  note P = job_in_paths [OF assms(1)]
  have "dir_or_new r' d" if "d \<in> set (project_dirs j)" "dir_or_new r d" for d
  proof (cases "prefix d (link_dir j)")
    case True
    then show ?thesis using assms(2,3) by (auto simp: dir_or_new_def intro: is_dir_prefix)
  next
    case False
    then have "lookup r' d = lookup r d" using that(1) assms(4) by (auto simp: P link_name_def split: if_splits)
    then show ?thesis using that(2) by (simp add: dir_or_new_def is_dir_def)
  qed
  then show ?thesis using assms(3,4) by (simp add: footprint_def)
qed

lemma footprint_removed:
  assumes "job_in B j" and "is_dir r (jReadyBuildPath j)"
  shows "footprint j r (del (jReadyBuildPath j) r)"
proof -
  note P = job_in_paths [OF assms(1)]
  have R: "is_dir r (B @ [jProject j])" "is_dir r (B @ [jProject j, ''ready''])"
    using assms(2) by (auto simp: P intro: is_dir_prefix)
  have dir: "is_dir (del (jReadyBuildPath j) r) q" if "is_dir r q" "\<not> prefix (jReadyBuildPath j) q" for q
    using that by (rule is_dir_del)
  have "lookup (del (jReadyBuildPath j) r) (B @ [jProject j, ''pending'']) = lookup r (B @ [jProject j, ''pending''])"
    "lookup (del (jReadyBuildPath j) r) (B @ [jProject j, ''groups'']) = lookup r (B @ [jProject j, ''groups''])"
    by (intro lookup_del_other; simp add: P)+
  then have "\<forall>d \<in> set (project_dirs j). dir_or_new r d \<longrightarrow> dir_or_new (del (jReadyBuildPath j) r) d"
    using dir R by (auto simp: P dir_or_new_def is_dir_def split: if_splits)
  then show ?thesis using dir by (simp add: footprint_def lookup_del_other)
qed

lemma footprint_finished:
  assumes "job_in B j" and "finished j l bi r r'"
    and "case lookup r (jLatestBuildPath j) of None \<Rightarrow> True | Some nd \<Rightarrow> is_link nd"
  shows "footprint j r r'"
proof -
  note P = job_in_paths [OF assms(1)]
  have "is_dir r' (jReadyBuildPath j @ [''data''])" "is_dir r' (B @ [jProject j, ''pending''])" "is_dir r' (link_dir j)"
    using assms(1,2) by (simp_all add: finished_def job_in_def)
  then have D: "is_dir r' d" if "d \<in> set (project_dirs j)" for d
    using that by (auto simp: P split: if_splits intro: is_dir_prefix)
  have "is_dir r' q" if q: "is_dir r q" "\<not> prefix (jPendingBuildPath j) q" "\<not> prefix (jReadyBuildPath j) q" for q
  proof (cases "\<exists>d \<in> set (project_dirs j). prefix q d")
    case True
    then show ?thesis using D is_dir_prefix by blast
  next
    case False
    have "\<not> is_dir r (jLatestBuildPath j)" using assms(3) by (auto simp: is_dir_iff)
    then have "\<not> prefix (jLatestBuildPath j) q" using q(1) is_dir_prefix by blast
    moreover have "\<not> prefix q d" if d: "d \<in> {jPendingBuildPath j, jReadyBuildPath j, jLatestBuildPath j}" for d
    proof
      assume pr: "prefix q d"
      obtain e c where e: "e \<in> set (project_dirs j)" "d = e @ [c]"
        using d by (auto simp: P link_name_def split: if_splits)
      then have "q = d" using pr False by (auto simp: prefix_snoc)
      then show False using d q \<open>\<not> is_dir r (jLatestBuildPath j)\<close> by auto
    qed
    ultimately have "lookup r' q = lookup r q" using assms(2) q False by (auto simp: finished_def)
    then show ?thesis using q(1) by (simp add: is_dir_def)
  qed
  then show ?thesis using D assms(2) by (simp add: footprint_def finished_def dir_or_new_def)
qed

section \<open>The files of a project\<close>

text \<open>A result on disk, which another build can start from if the container keeps its directories.\<close>

definition result_at :: "'d env \<Rightarrow> path \<Rightarrow> node \<Rightarrow> bool" where
  "result_at env p r \<longleftrightarrow> (\<exists>bi c. stored p bi c r) \<and> (keeps_dirs env \<longrightarrow> base_at p r)"

definition success_at :: "path \<Rightarrow> node \<Rightarrow> bool" where
  "success_at p r \<longleftrightarrow> (\<exists>bi c. stored p bi c r \<and> bExitCode bi = 0)"

text \<open>A latest link is missing, or points at a successful build of its project.\<close>

definition link_ok :: "path \<Rightarrow> string \<Rightarrow> node \<Rightarrow> bool" where
  "link_ok R g r \<longleftrightarrow>
     (case lookup r (R @ link_name g) of
        None \<Rightarrow> True
      | Some nd \<Rightarrow> \<exists>i. nd = Symlink (R @ [''ready'', i]) \<and> clean_name i \<and> success_at (R @ [''ready'', i]) r)"

text \<open>
  The files of a project, while the builds in \<open>busy\<close> may have a pending directory: real
  directories, results in the ready directory, and links to successful ones.
\<close>

definition project_files :: "'d env \<Rightarrow> 'd Config \<Rightarrow> build_key set \<Rightarrow> node \<Rightarrow> string \<Rightarrow> bool" where
  "project_files env cfg busy r p \<longleftrightarrow>
     (let R = build_dir cfg @ [p] in
      clean_name p \<and> is_dir r (projects_dir cfg @ [p]) \<and> \<not> prefix (build_dir cfg) (projects_dir cfg @ [p]) \<and>
      is_dir r (build_dir cfg) \<and> dir_or_new r R \<and> dir_or_new r (R @ [''pending'']) \<and> dir_or_new r (R @ [''ready'']) \<and>
      dir_or_new r (R @ [''groups'']) \<and> (\<forall>g. link_ok R g r) \<and>
      (\<forall>i. (p, i) \<notin> busy \<longrightarrow> lookup r (R @ [''pending'', i]) = None) \<and>
      (\<forall>i. lookup r (R @ [''ready'', i]) = None \<or> result_at env (R @ [''ready'', i]) r))"

abbreviation good_project :: "'d env \<Rightarrow> 'd Config \<Rightarrow> node \<Rightarrow> string \<Rightarrow> bool" where
  "good_project env cfg \<equiv> project_files env cfg {}"

lemma stored_cong:
  assumes "\<And>c. lookup r' (p @ [c]) = lookup r (p @ [c])"
  shows "stored p bi c r' = stored p bi c r"
  using assms by (simp add: stored_def)

lemma result_cong:
  assumes "\<And>q. lookup r' (p @ q) = lookup r (p @ q)"
  shows "result_at env p r' = result_at env p r" "success_at p r' = success_at p r"
  using assms assms [of "[]"] by (simp_all add: result_at_def success_at_def base_at_def stored_cong [of r' p r])

lemma success_at_found: "success_at p r \<Longrightarrow> lookup r p \<noteq> None"
  using stored_dir by (fastforce simp: success_at_def)

lemma link_ok_is_link:
  "link_ok R g r \<Longrightarrow> case lookup r (R @ link_name g) of None \<Rightarrow> True | Some nd \<Rightarrow> is_link nd"
  by (auto simp: link_ok_def split: option.splits)

lemma link_ok_cong:
  assumes "lookup r' (R @ link_name g) = lookup r (R @ link_name g)"
    and "\<And>i. success_at (R @ [''ready'', i]) r \<Longrightarrow> success_at (R @ [''ready'', i]) r'" and "link_ok R g r"
  shows "link_ok R g r'"
  using assms by (auto simp: link_ok_def split: option.splits)

lemma footprint_files:
  assumes "job_in (build_dir cfg) j" and "footprint j r r'" and "project_files env cfg busy r p"
    and "\<forall>k. k \<noteq> job_key j \<longrightarrow> k \<in> busy \<longrightarrow> k \<in> busy'"
    and "job_key j \<notin> busy' \<longrightarrow> lookup r' (jPendingBuildPath j) = None"
    and "lookup r' (jReadyBuildPath j) = None \<or> result_at env (jReadyBuildPath j) r'"
    and "success_at (jReadyBuildPath j) r \<longrightarrow> success_at (jReadyBuildPath j) r'"
    and "link_ok (jRootBuildPath j) (jGroup j) r'"
  shows "project_files env cfg busy' r' p"
proof -
  let ?B = "build_dir cfg" and ?R = "build_dir cfg @ [p]"
  note F = footprint_in [OF assms(2,1)]
  note P = job_in_paths [OF assms(1)]
  have R: "jRootBuildPath j = ?B @ [jProject j]" using assms(1) by (simp add: job_in_def)
  have "\<not> prefix (?B @ x) (projects_dir cfg @ [p])" for x
    using assms(3) append_prefixD [of ?B x "projects_dir cfg @ [p]"] by (auto simp: project_files_def Let_def)
  then have "is_dir r' (projects_dir cfg @ [p])" "is_dir r' ?B"
    using footprint_dir [OF assms(2), of "projects_dir cfg @ [p]"] footprint_dir [OF assms(2), of ?B] assms(3)
    by (simp_all add: P project_files_def Let_def del: prefix_snoc)
  moreover have dirs: "dir_or_new r' (?B @ p # d)"
    if "dir_or_new r (?B @ p # d)" "d \<in> {[], [''pending''], [''ready''], [''groups'']}" for d
    using that F(5) [of d] dir_or_new_cong [OF F(1)] by (cases "p = jProject j") auto
  moreover have "lookup r' (?B @ [p, ''pending'', i]) = None" if "(p, i) \<notin> busy'" for i
  proof (cases "(p, i) = job_key j")
    case True
    then show ?thesis using assms(5) that by (auto simp: P job_key_def)
  next
    case False
    moreover from this have "lookup r (?B @ [p, ''pending'', i]) = None"
      using assms(3,4) that by (auto simp: project_files_def Let_def)
    ultimately show ?thesis using F(1) [of p "[''pending'', i]"] F(2) [of i "[]"]
      by (cases "p = jProject j") (auto simp: job_key_def)
  qed
  moreover have same: "lookup r' ((?R @ [''ready'', i]) @ q) = lookup r ((?R @ [''ready'', i]) @ q)" if "(p, i) \<noteq> job_key j" for i q
    using that F(1) F(3) by (cases "p = jProject j") (auto simp: job_key_def)
  moreover have "lookup r' (?R @ [''ready'', i]) = None \<or> result_at env (?R @ [''ready'', i]) r'" for i
  proof (cases "(p, i) = job_key j")
    case True
    then show ?thesis using assms(6) by (simp add: P job_key_def)
  next
    case False
    have "result_at env (?R @ [''ready'', i]) r' = result_at env (?R @ [''ready'', i]) r"
      by (rule result_cong(1)) (rule same [OF False])
    then show ?thesis using same [OF False, of "[]"] assms(3) by (auto simp: project_files_def Let_def)
  qed
  moreover have win: "success_at (?R @ [''ready'', i]) r'" if "success_at (?R @ [''ready'', i]) r" for i
    using that assms(7) result_cong(2) [OF same, of i] by (cases "(p, i) = job_key j") (auto simp: P job_key_def)
  have "link_ok ?R g r'" for g
  proof (cases "p = jProject j \<and> g = jGroup j")
    case True
    then show ?thesis using assms(8) R by simp
  next
    case False
    then have "lookup r' (?R @ link_name g) = lookup r (?R @ link_name g)"
      using F(1) [of p "link_name g"] F(4) [of g] by (cases "p = jProject j") auto
    moreover have "link_ok ?R g r" using assms(3) by (simp add: project_files_def Let_def)
    ultimately show ?thesis using win by (rule_tac link_ok_cong)
  qed
  ultimately show ?thesis
    using assms(3) dirs [of "[]"] dirs [of "[''pending'']"] dirs [of "[''ready'']"] dirs [of "[''groups'']"]
    by (simp add: project_files_def Let_def)
qed

lemma job_link: "job_in B j \<Longrightarrow> jLatestBuildPath j = jRootBuildPath j @ link_name (jGroup j)"
  by (simp add: job_in_paths) (simp add: job_in_def)

text \<open>The link of the job itself stays good when neither it nor a success of the job changes.\<close>

lemma footprint_link_ok:
  assumes "job_in B j" and "footprint j r r'" and "lookup r' (jLatestBuildPath j) = lookup r (jLatestBuildPath j)"
    and "success_at (jReadyBuildPath j) r \<longrightarrow> success_at (jReadyBuildPath j) r'" and "link_ok (jRootBuildPath j) (jGroup j) r"
  shows "link_ok (jRootBuildPath j) (jGroup j) r'"
proof -
  have R: "jRootBuildPath j = B @ [jProject j]" "jReadyBuildPath j = jRootBuildPath j @ [''ready'', jID j]"
    using assms(1) by (simp_all add: job_in_def wf_job_def)
  have "success_at (jRootBuildPath j @ [''ready'', i]) r'" if "success_at (jRootBuildPath j @ [''ready'', i]) r" for i
  proof (cases "i = jID j")
    case False
    have "success_at (jRootBuildPath j @ [''ready'', i]) r' = success_at (jRootBuildPath j @ [''ready'', i]) r"
      by (rule result_cong(2)) (use footprint_in(3) [OF assms(2,1) False] R(1) in simp)
    then show ?thesis using that by simp
  qed (use that assms(4) R(2) in simp)
  then show ?thesis using assms(3,5) unfolding job_link [OF assms(1)] by (rule_tac link_ok_cong)
qed

section \<open>The store on disk\<close>

definition store_of :: "'d Config \<Rightarrow> node \<Rightarrow> store" where
  "store_of cfg r =
     \<lparr>results = (\<lambda>(p, i). case lookup r (build_dir cfg @ [p, ''ready'', i, ''build_info.json'']) of
          Some (File c) \<Rightarrow> (case unmarshal_BuildInfo c zero_BuildInfo of Inr bi \<Rightarrow> Some (kept_info bi) | Inl _ \<Rightarrow> None)
        | _ \<Rightarrow> None),
      latest = (\<lambda>(p, g). case lookup r (build_dir cfg @ p # link_name g) of
          Some (Symlink t) \<Rightarrow> Some (last t) | _ \<Rightarrow> None)\<rparr>"

text \<open>The store changes at the key and at the group of the job only.\<close>

lemma footprint_store:
  assumes "job_in (build_dir cfg) j" and "footprint j r r'"
  shows "store_of cfg r' =
     \<lparr>results = (results (store_of cfg r))(job_key j := results (store_of cfg r') (job_key j)),
      latest = (latest (store_of cfg r))((jProject j, jGroup j) := latest (store_of cfg r') (jProject j, jGroup j))\<rparr>"
proof -
  note F = footprint_in [OF assms(2,1)]
  have "results (store_of cfg r') k = ((results (store_of cfg r))(job_key j := results (store_of cfg r') (job_key j))) k" for k
    using F(1) [of "fst k"] F(3) [of "snd k"]
    by (cases k; cases "fst k = jProject j"; cases "snd k = jID j") (simp_all add: store_of_def job_key_def)
  then have R: "results (store_of cfg r') = (results (store_of cfg r))(job_key j := results (store_of cfg r') (job_key j))"
    by (rule ext)
  have "latest (store_of cfg r') k =
      ((latest (store_of cfg r))((jProject j, jGroup j) := latest (store_of cfg r') (jProject j, jGroup j))) k" for k
    using F(1) [of "fst k" "link_name (snd k)"] F(4) [of "snd k"]
    by (cases k; cases "fst k = jProject j"; cases "snd k = jGroup j") (simp_all add: store_of_def)
  then have L: "latest (store_of cfg r') =
      (latest (store_of cfg r))((jProject j, jGroup j) := latest (store_of cfg r') (jProject j, jGroup j))"
    by (rule ext)
  show ?thesis
    by (rule store.equality; unfold store.select_convs) (rule R, rule L, simp)
qed

lemma same_result: "lookup r' (jReadyBuildPath j @ [''build_info.json'']) = lookup r (jReadyBuildPath j @ [''build_info.json'']) \<Longrightarrow>
    job_in (build_dir cfg) j \<Longrightarrow> results (store_of cfg r') (job_key j) = results (store_of cfg r) (job_key j)"
  by (simp add: store_of_def job_key_def job_in_paths)

lemma no_result: "lookup r (jReadyBuildPath j) = None \<Longrightarrow> job_in (build_dir cfg) j \<Longrightarrow> results (store_of cfg r) (job_key j) = None"
  using lookup_append [of r "jReadyBuildPath j" "[''build_info.json'']"] by (simp add: store_of_def job_key_def job_in_paths)

lemma same_latest: "lookup r' (jLatestBuildPath j) = lookup r (jLatestBuildPath j) \<Longrightarrow>
    job_in (build_dir cfg) j \<Longrightarrow> latest (store_of cfg r') (jProject j, jGroup j) = latest (store_of cfg r) (jProject j, jGroup j)"
  by (simp add: store_of_def job_in_paths)

lemma linked_latest: "lookup r (jLatestBuildPath j) = Some (Symlink t) \<Longrightarrow>
    job_in (build_dir cfg) j \<Longrightarrow> latest (store_of cfg r) (jProject j, jGroup j) = Some (last t)"
  by (simp add: store_of_def job_in_paths)

lemma no_latest: "lookup r (jLatestBuildPath j) = None \<Longrightarrow>
    job_in (build_dir cfg) j \<Longrightarrow> latest (store_of cfg r) (jProject j, jGroup j) = None"
  by (simp add: store_of_def job_in_paths)

lemma footprint_store_same:
  assumes "job_in (build_dir cfg) j" and "footprint j r r'"
    and "lookup r' (jReadyBuildPath j @ [''build_info.json'']) = lookup r (jReadyBuildPath j @ [''build_info.json''])"
    and "lookup r' (jLatestBuildPath j) = lookup r (jLatestBuildPath j)"
  shows "store_of cfg r' = store_of cfg r"
  using footprint_store [OF assms(1,2)] same_result [OF assms(3,1)] same_latest [OF assms(4,1)] by simp

text \<open>A stored build is the result at its key.\<close>

lemma stored_at:
  assumes "stored (build_dir cfg @ [p, ''ready'', i]) bi c r"
  shows "results (store_of cfg r) (p, i) = Some (kept_info bi)"
proof -
  have "unmarshal_BuildInfo (Doc (marshal_BuildInfo bi)) zero_BuildInfo = Inr (decoded zero_BuildInfo bi)"
    using assms by (intro unmarshal_marshal_BuildInfo) (simp_all add: stored_def zero_BuildInfo_def)
  moreover have "kept_info (decoded zero_BuildInfo bi) = kept_info bi"
    by (simp add: kept_info_def decoded_def sort_key_id_if_sorted)
  ultimately show ?thesis using assms by (simp add: store_of_def stored_def)
qed

lemma stored_result:
  assumes "job_in (build_dir cfg) j" and "stored (jReadyBuildPath j) bi c r"
  shows "results (store_of cfg r) (job_key j) = Some (kept_info bi)"
  using stored_at assms by (simp add: job_in_paths job_key_def)

lemma success_hit: "success_at (build_dir cfg @ [p, ''ready'', i]) r \<Longrightarrow> hit (store_of cfg r) (p, i) \<noteq> None"
  using stored_at by (fastforce simp: success_at_def hit_def)

lemma failed_no_success:
  assumes "stored p bi c r" and "bExitCode bi \<noteq> 0"
  shows "\<not> success_at p r"
proof
  assume "success_at p r"
  then obtain b d where b: "stored p b d r" "bExitCode b = 0" by (auto simp: success_at_def)
  have "Inr (decoded zero_BuildInfo bi) = (Inr (decoded zero_BuildInfo b) :: goerr + BuildInfo)"
    using unmarshal_marshal_BuildInfo [of bi zero_BuildInfo] unmarshal_marshal_BuildInfo [of b zero_BuildInfo] assms(1) b(1)
    by (simp add: stored_def zero_BuildInfo_def)
  then have "bExitCode (decoded zero_BuildInfo bi) = bExitCode (decoded zero_BuildInfo b)" by simp
  then have "bExitCode bi = bExitCode b" by (simp add: decoded_def)
  then show False using assms(2) b(2) by simp
qed

text \<open>The latest link of a project with good files is a success in the store.\<close>

lemma latest_hit:
  assumes "project_files env cfg busy r p" and "latest (store_of cfg r) (p, g) = Some i"
  shows "hit (store_of cfg r) (p, i) \<noteq> None"
  using assms success_hit [of cfg p i r]
  by (force simp: project_files_def link_ok_def store_of_def Let_def split: option.splits)

end
