(* ===== verification/Requests.thy ===== *)
theory Requests
  imports Footprint
begin

text \<open>
  Requests that are served one after the other: \<open>Work\<close> (\<open>cmd/mistryd/worker.go\<close>) refines the store
  of results, for every sequence of requests, with and without groups.
\<close>

section \<open>Idle servers and their requests\<close>

text \<open>
  The requests considered: jobs of one of the given projects. Jobs of a group need a container
  that leaves the cache and artifacts directories what they are, and a \<open>cp -r\<close> that copies.
\<close>

definition takes_job :: "'d env \<Rightarrow> string set \<Rightarrow> 'd Config \<Rightarrow> Job \<Rightarrow> bool" where
  "takes_job env ps cfg j \<longleftrightarrow> wf_job j \<and> plain_params j \<and> jProject j \<in> ps \<and>
     jRootBuildPath j = build_dir cfg @ [jProject j] \<and> (jGroup j \<noteq> [] \<longrightarrow> keeps_dirs env \<and> cp_copies env)"

abbreviation admits :: "'d env \<Rightarrow> string set \<Rightarrow> 'd Server \<times> 'd world \<Rightarrow> Job \<Rightarrow> bool" where
  "admits env ps sw \<equiv> takes_job env ps (sCfg (fst sw))"

definition serving :: "'d env \<Rightarrow> string set \<Rightarrow> 'd Server \<times> 'd world \<Rightarrow> bool" where
  "serving env ps sw \<longleftrightarrow>
     (case sw of (s, w) \<Rightarrow>
        quiet w \<and> keeps_mounts env \<and> cMounts (sCfg s) = [] \<and> cFileSystem (sCfg s) = PlainFS env \<and>
        (\<forall>i. \<not> enqueued (sJq s) i) \<and> (\<forall>p. \<not> held (sPq s) p) \<and> (\<forall>p \<in> ps. good_project env (sCfg s) (root w) p))"

definition serve_work :: "'d env \<Rightarrow> 'd Server \<times> 'd world \<Rightarrow> Job \<Rightarrow> (work_ret \<times> 'd Server \<times> 'd world) outcome" where
  "serve_work env sw j =
     (case Work env [] (fst sw) j (snd sw) of
        Ret (r, s, _, w) \<Rightarrow> Ret (r, s, w)
      | Blocked \<Rightarrow> Blocked
      | Panic m \<Rightarrow> Panic m)"

lemma takes_job_in: "takes_job env ps cfg j \<Longrightarrow> job_in (build_dir cfg) j"
  by (simp add: takes_job_def job_in_def)

text \<open>What the files of its project offer to a job.\<close>

lemma files_of_job:
  assumes "project_files env cfg busy r (jProject j)" and "takes_job env ps cfg j"
  shows "layout j r" "is_dir r (Join (projects_dir cfg) (jProject j))" "link_ok (jRootBuildPath j) (jGroup j) r"
    "lookup r (jReadyBuildPath j) = None \<or> result_at env (jReadyBuildPath j) r"
    "job_key j \<notin> busy \<Longrightarrow> lookup r (jPendingBuildPath j) = None" "has_base env j r"
    "no_base j r \<longleftrightarrow> jGroup j = [] \<or> latest (store_of cfg r) (jProject j, jGroup j) = None"
proof -
  let ?R = "jRootBuildPath j"
  note P = job_in_paths [OF takes_job_in [OF assms(2)]]
  have R: "?R = build_dir cfg @ [jProject j]" and wf: "wf_job j" using assms(2) by (simp_all add: takes_job_def)
  have files: "project_files env cfg busy r (jProject j)" by (rule assms(1))
  show l: "link_ok ?R (jGroup j) r" "is_dir r (Join (projects_dir cfg) (jProject j))"
    "job_key j \<notin> busy \<Longrightarrow> lookup r (jPendingBuildPath j) = None"
    and res: "lookup r (jReadyBuildPath j) = None \<or> result_at env (jReadyBuildPath j) r"
    using files by (simp_all add: project_files_def R P job_key_def Let_def)
  have L: "jLatestBuildPath j = ?R @ link_name (jGroup j)" by (simp add: P(3) R)
  show "layout j r"
    using files link_ok_is_link [OF l(1)] R L by (simp add: layout_def project_files_def Let_def)
  have link: "lookup r (jLatestBuildPath j) = None \<or> (\<exists>i. lookup r (jLatestBuildPath j) = Some (Symlink (?R @ [''ready'', i])) \<and>
      clean_name i \<and> success_at (?R @ [''ready'', i]) r)"
    using l(1) by (auto simp: link_ok_def L split: option.splits)
  then show "no_base j r \<longleftrightarrow> jGroup j = [] \<or> latest (store_of cfg r) (jProject j, jGroup j) = None"
    using linked_latest [OF _ takes_job_in [OF assms(2)]] no_latest [OF _ takes_job_in [OF assms(2)]] by (auto simp: no_base_def)
  have base: "based_on j i r" if g: "jGroup j \<noteq> []"
    and i: "lookup r (jLatestBuildPath j) = Some (Symlink (?R @ [''ready'', i]))" "clean_name i" "success_at (?R @ [''ready'', i]) r" for i
  proof -
    have "lookup r (?R @ [''ready'', i]) = None \<or> result_at env (?R @ [''ready'', i]) r"
      using files R by (simp add: project_files_def Let_def)
    then have "result_at env (?R @ [''ready'', i]) r" using success_at_found [OF i(3)] by simp
    then have "base_at (?R @ [''ready'', i]) r" using assms(2) g by (simp add: result_at_def takes_job_def)
    moreover have "clean_name (jProject j)" using files by (simp add: project_files_def Let_def)
    moreover have "\<forall>c \<in> set (build_dir cfg). clean_name c" unfolding fpath_def by (rule Join_clean) simp
    ultimately have "base_at (?R @ [''ready'', i]) r" "\<forall>c \<in> set ?R. clean_name c" unfolding R by auto
    then show ?thesis using g i by (simp add: based_on_def base_at_def)
  qed
  show "has_base env j r"
  proof (cases "no_base j r")
    case False
    then obtain i where "based_on j i r" using link base by (auto simp: no_base_def)
    then show ?thesis using False assms(2) by (auto simp: has_base_def no_base_def takes_job_def)
  qed (simp add: has_base_def)
qed

lemma good_can_build:
  assumes "serving env ps (s, w)" and "admits env ps (s, w) j" and "good_project env (sCfg s) r (jProject j)"
  shows "can_build env s j r"
  using assms files_of_job [OF assms(3), of ps]
  by (simp add: serving_def takes_job_def can_build_def buildable_def)

lemma request_params: "request_of bi = job_request j \<Longrightarrow> bParams bi = jParams j \<and> bGroup bi = jGroup j \<and> \<not> bCached bi"
  by (simp add: request_of_def job_request_def)

section \<open>Every request is a step of the machine\<close>

text \<open>What a build leaves, from the tree \<open>r\<close> without a result.\<close>

lemma built_files:
  assumes "takes_job env ps cfg j" and "finished j l bi r r'" and "distinct (map fst (bParams bi))"
    and "l \<longrightarrow> bExitCode bi = 0" and "keeps_dirs env \<longrightarrow> base_at (jReadyBuildPath j) r'"
    and "project_files env cfg busy r (jProject j)" and "lookup r (jReadyBuildPath j) = None"
  shows "project_files env cfg busy r p \<Longrightarrow> project_files env cfg busy r' p"
    "store_of cfg r' = (store_of cfg r)\<lparr>results := (results (store_of cfg r))(job_key j \<mapsto> kept_info bi),
       latest := (if l then (latest (store_of cfg r))((jProject j, jGroup j) \<mapsto> jID j) else latest (store_of cfg r))\<rparr>"
proof -
  note ji = takes_job_in [OF assms(1)]
  note lk = files_of_job(3) [OF assms(6,1)]
  have fp: "footprint j r r'"
    by (rule footprint_finished [OF ji assms(2)]) (use link_ok_is_link [OF lk] job_link [OF ji] in simp)
  obtain c where st: "stored (jReadyBuildPath j) (without_logs bi) c r'" using finished_stored [OF assms(2,3)] by blast
  then have ok: "l \<longrightarrow> success_at (jReadyBuildPath j) r'" using assms(4) by (auto simp: success_at_def without_logs_def)
  have no: "\<not> success_at (jReadyBuildPath j) r" using success_at_found assms(7) by blast
  have fin: "lookup r' (jPendingBuildPath j) = None"
    "lookup r' (jLatestBuildPath j) = (if l then Some (Symlink (jReadyBuildPath j)) else lookup r (jLatestBuildPath j))"
    using assms(2) by (simp_all add: finished_def)
  have wf: "jReadyBuildPath j = jRootBuildPath j @ [''ready'', jID j]" "clean_name (jID j)"
    using assms(1) by (simp_all add: takes_job_def wf_job_def)
  have "link_ok (jRootBuildPath j) (jGroup j) r'"
  proof (cases l)
    case True
    then show ?thesis using fin(2) ok wf job_link [OF ji] by (simp add: link_ok_def)
  next
    case False
    then show ?thesis using footprint_link_ok [OF ji fp _ _ lk] fin(2) no by simp
  qed
  then show "project_files env cfg busy r p \<Longrightarrow> project_files env cfg busy r' p"
    by (rule_tac footprint_files [OF ji fp]) (use fin(1) st assms(5) no in \<open>auto simp: result_at_def\<close>)
  have "kept_info (without_logs bi) = kept_info bi" by (simp add: kept_info_def without_logs_def)
  then show "store_of cfg r' = (store_of cfg r)\<lparr>results := (results (store_of cfg r))(job_key j \<mapsto> kept_info bi),
       latest := (if l then (latest (store_of cfg r))((jProject j, jGroup j) \<mapsto> jID j) else latest (store_of cfg r))\<rparr>"
    using footprint_store [OF ji fp] stored_result [OF ji st] linked_latest [of r' j "jReadyBuildPath j", OF _ ji]
      same_latest [of r' j r, OF _ ji] fin(2) wf(1) by (cases l) simp_all
qed

text \<open>What remains when the failed build of a job is removed.\<close>

lemma removed_files:
  assumes "takes_job env ps cfg j" and "stored (jReadyBuildPath j) bi c r" and "bExitCode bi \<noteq> 0"
    and "project_files env cfg busy r (jProject j)"
  shows "project_files env cfg busy r p \<Longrightarrow> project_files env cfg busy (del (jReadyBuildPath j) r) p"
    "store_of cfg (del (jReadyBuildPath j) r) = (store_of cfg r)\<lparr>results := (results (store_of cfg r))(job_key j := None)\<rparr>"
    "lookup (del (jReadyBuildPath j) r) (jReadyBuildPath j) = None"
    "lookup (del (jReadyBuildPath j) r) (jPendingBuildPath j) = lookup r (jPendingBuildPath j)"
    "lookup (del (jReadyBuildPath j) r) (jLatestBuildPath j) = lookup r (jLatestBuildPath j)"
    "footprint j r (del (jReadyBuildPath j) r)"
    "link_ok (jRootBuildPath j) (jGroup j) (del (jReadyBuildPath j) r)"
proof -
  let ?r = "del (jReadyBuildPath j) r"
  note ji = takes_job_in [OF assms(1)]
  note P = job_in_paths [OF ji]
  show gone: "lookup ?r (jReadyBuildPath j) = None" using assms(1) by (simp add: takes_job_def wf_job_def)
  show other: "lookup ?r (jPendingBuildPath j) = lookup r (jPendingBuildPath j)"
    "lookup ?r (jLatestBuildPath j) = lookup r (jLatestBuildPath j)"
    by (rule lookup_del_other; simp add: P)+
  show fp: "footprint j r ?r"
    by (rule footprint_removed [OF ji]) (use stored_dir [OF assms(2)] in \<open>auto simp: is_dir_def\<close>)
  have no: "\<not> success_at (jReadyBuildPath j) r" by (rule failed_no_success [OF assms(2,3)])
  show lk: "link_ok (jRootBuildPath j) (jGroup j) ?r"
    using footprint_link_ok [OF ji fp other(2) _ files_of_job(3) [OF assms(4,1)]] no by simp
  show "project_files env cfg busy r p \<Longrightarrow> project_files env cfg busy ?r p"
    using files_of_job(5) [OF assms(4,1)] by (rule_tac footprint_files [OF ji fp]) (use other gone no lk in auto)
  show "store_of cfg ?r = (store_of cfg r)\<lparr>results := (results (store_of cfg r))(job_key j := None)\<rparr>"
    using footprint_store [OF ji fp] no_result [OF gone ji] same_latest [OF other(2) ji] by simp
qed

lemma built_step:
  assumes "serving env ps (s, w)" and "admits env ps (s, w) j"
    and "Work env [] s j w = Ret ((Some bi, err), s', j', w')" and "quiet w'"
    and "finished j (err = None \<and> bExitCode bi = 0) bi r (root w')" and "request_of bi = job_request j"
    and "keeps_dirs env \<longrightarrow> base_at (jReadyBuildPath j) (root w')" and "bIncremental bi \<longleftrightarrow> \<not> no_base j r"
    and "\<forall>p \<in> ps. good_project env (sCfg s) r p" and "lookup r (jReadyBuildPath j) = None"
    and "hit (store_of (sCfg s) (root w)) (job_key j) = None"
    and "(results (store_of (sCfg s) r))(job_key j := None) = (results (store_of (sCfg s) (root w)))(job_key j := None)"
    and "latest (store_of (sCfg s) r) = latest (store_of (sCfg s) (root w))"
  shows "serving env ps (s', w') \<and>
     store_request (store_of (sCfg s) (root w)) (job_key j) (Some bi, err) = Some (store_of (sCfg s) (root w'))"
proof -
  let ?l = "err = None \<and> bExitCode bi = 0"
  note req = request_params [OF assms(6)]
  have tk: "takes_job env ps (sCfg s) j" using assms(2) by simp
  have d: "distinct (map fst (bParams bi))" using req tk by (simp add: takes_job_def wf_job_def)
  have fj: "good_project env (sCfg s) r (jProject j)" using assms(9) tk by (simp add: takes_job_def)
  note B = built_files [OF tk assms(5) d _ assms(7) fj assms(10)]
  have "store_of (sCfg s) (root w') = (store_of (sCfg s) (root w))\<lparr>
      results := (results (store_of (sCfg s) (root w)))(job_key j \<mapsto> kept_info bi),
      latest := (if ?l then (latest (store_of (sCfg s) (root w)))((jProject j, jGroup j) \<mapsto> jID j)
                 else latest (store_of (sCfg s) (root w)))\<rparr>"
    using B(2) arg_cong [OF assms(12), of "\<lambda>f. f(job_key j \<mapsto> kept_info bi)"] assms(13) by simp
  moreover have "succeeded (Some bi, err) \<longleftrightarrow> ?l"
    by (auto simp: succeeded_def split: option.splits)
  moreover have "bIncremental bi \<longleftrightarrow> bGroup bi \<noteq> [] \<and> latest (store_of (sCfg s) (root w)) (fst (job_key j), bGroup bi) \<noteq> None"
    using assms(8,13) files_of_job(7) [OF fj tk] req by (simp add: job_key_def)
  ultimately have "store_request (store_of (sCfg s) (root w)) (job_key j) (Some bi, err) = Some (store_of (sCfg s) (root w'))"
    using assms(11) req by (simp add: store_request_def job_key_def)
  moreover have "\<forall>p \<in> ps. good_project env (sCfg s) (root w') p" using assms(9) B(1) by blast
  ultimately show ?thesis
    using assms(1,4) Work_gives_back [OF assms(3)] by (auto simp: serving_def)
qed

lemma serve_work_step:
  assumes "serving env ps (s, w)" and "admits env ps (s, w) j"
  shows "\<exists>rep s' j' w'. Work env [] s j w = Ret (rep, s', j', w') \<and> serving env ps (s', w') \<and>
     store_request (store_of (sCfg s) (root w)) (job_key j) rep = Some (store_of (sCfg s) (root w'))"
proof -
  let ?cfg = "sCfg s" and ?y = "jReadyBuildPath j"
  have tk: "takes_job env ps ?cfg j" using assms(2) by simp
  note ji = takes_job_in [OF tk]
  have q: "quiet w" "\<not> enqueued (sJq s) (jID j)" and gp: "\<forall>p \<in> ps. good_project env ?cfg (root w) p" and jp: "jProject j \<in> ps"
    using assms by (simp_all add: serving_def takes_job_def)
  have fj: "good_project env ?cfg (root w) (jProject j)" using gp jp by blast
  consider "lookup (root w) ?y = None" | bi c where "stored ?y bi c (root w)" "bExitCode bi = 0"
      | bi c where "stored ?y bi c (root w)" "bExitCode bi \<noteq> 0"
    using files_of_job(4) [OF fj tk] by (auto simp: result_at_def)
  then show ?thesis
  proof cases
    case 1
    obtain bi err s' j' w' where W: "Work env [] s j w = Ret ((Some bi, err), s', j', w')" "quiet w'"
        "finished j (err = None \<and> bExitCode bi = 0) bi (root w) (root w')" "request_of bi = job_request j"
        "keeps_dirs env \<longrightarrow> base_at ?y (root w')" "bIncremental bi \<longleftrightarrow> \<not> no_base j (root w)"
      using Work_builds [OF good_can_build [OF assms fj] q 1, of "[]"] by blast
    have "hit (store_of ?cfg (root w)) (job_key j) = None" using no_result [OF 1 ji] by (simp add: hit_def)
    with built_step [OF assms W(1-6) gp 1] W(1) show ?thesis by blast
  next
    case (2 bi c)
    obtain s' j' w' where W: "Work env [] s j w = Ret ((Some ((read_back bi c)\<lparr>bCached := True\<rparr>), None), s', j', w')"
        "root w' = root w" "quiet w'"
      using Work_hits [OF q 2] by blast
    have "hit (store_of ?cfg (root w)) (job_key j) = Some (kept_info bi)"
      using stored_result [OF ji 2(1)] 2(2) by (simp add: hit_def)
    moreover have "kept_info ((read_back bi c)\<lparr>bCached := True\<rparr>) = (kept_info bi)\<lparr>bCached := True\<rparr>"
      by (simp add: kept_info_def read_back_def sort_key_id_if_sorted)
    ultimately show ?thesis
      using W Work_gives_back [OF W(1)] assms(1) by (simp add: store_request_def serving_def)
  next
    case (3 bi c)
    let ?r = "del ?y (root w)"
    note D = removed_files [OF tk 3 fj]
    have gr: "\<forall>p \<in> ps. good_project env ?cfg ?r p" using D(1) gp by blast
    then have fr: "good_project env ?cfg ?r (jProject j)" using jp by blast
    obtain bi' err s' j' w' where W: "Work env [] s j w = Ret ((Some bi', err), s', j', w')" "quiet w'"
        "finished j (err = None \<and> bExitCode bi' = 0) bi' ?r (root w')" "request_of bi' = job_request j"
        "keeps_dirs env \<longrightarrow> base_at ?y (root w')" "bIncremental bi' \<longleftrightarrow> \<not> no_base j ?r"
      using Work_rebuilds [OF q 3 good_can_build [OF assms fr]] by blast
    have "hit (store_of ?cfg (root w)) (job_key j) = None"
      using stored_result [OF ji 3(1)] 3(2) by (simp add: hit_def)
    with built_step [OF assms W(1-6) gr D(3)] W(1) D(2) show ?thesis by fastforce
  qed
qed

interpretation served: store_refinement "serve_work env" "\<lambda>sw. store_of (sCfg (fst sw)) (root (snd sw))" "serving env ps"
    job_key "admits env ps" for env ps
proof unfold_locales
  fix sw :: "'a Server \<times> 'a world" and j
  assume a: "serving env ps sw" "admits env ps sw j"
  obtain s w where sw: "sw = (s, w)" by force
  obtain rep s' j' w' where W: "Work env [] s j w = Ret (rep, s', j', w')" "serving env ps (s', w')"
      "store_request (store_of (sCfg s) (root w)) (job_key j) rep = Some (store_of (sCfg s) (root w'))"
    using serve_work_step a unfolding sw by blast
  have "sCfg s' = sCfg s" using Work_gives_back [OF W(1)] by blast
  then show "\<exists>rep s'. serve_work env sw j = Ret (rep, s') \<and> serving env ps s' \<and>
      (\<forall>i. admits env ps sw i \<longrightarrow> admits env ps s' i) \<and>
      store_request (store_of (sCfg (fst sw)) (root (snd sw))) (job_key j) rep = Some (store_of (sCfg (fst s')) (root (snd s')))"
    using W by (auto simp: serve_work_def sw)
qed

section \<open>Histories\<close>

text \<open>
  C12. \<open>Work\<close> implements the store of results. From every state in which the server is idle and
  its files are in order, every sequence of requests (for jobs of any of the projects, with and
  without groups, in any order and with repetitions) is answered completely, whatever the Docker
  daemon does: no request blocks or panics. The answers and the files at the end are those of a
  run of the abstract machine: each request is answered from the store if it holds a successful
  result, and otherwise by a build, which is incremental if and only if its group has a latest
  build; the result replaces what was stored and becomes the latest one of its project and group
  if it was successful. Afterwards the server is idle and its files are in order.
\<close>

theorem Work_refines_store:
  assumes "serving env ps (s, w)" and "\<forall>j \<in> set js. admits env ps (s, w) j"
  shows "\<exists>reps s' w'. serve_all (serve_work env) (s, w) js = Ret (reps, (s', w')) \<and> length reps = length js \<and>
     serving env ps (s', w') \<and>
     store_run (store_of (sCfg s) (root w)) (zip (map job_key js) reps) = Some (store_of (sCfg s') (root w'))"
  using served.serve_all_refines [OF assms] by auto

lemma demo_serving: "serving (demo_env 0) {''app''} (demo_server, demo_world demo_tree)"
  by (simp add: serving_def demo_keeps_mounts project_files_def link_ok_def link_name_def clean_name_def dir_or_new_def is_dir_def
      demo_tree_def demo_project_def)

lemma demo_admits:
  "admits (demo_env 0) {''app''} (demo_server, demo_world demo_tree) (demo_job [])"
  "admits (demo_env 0) {''app''} (demo_server, demo_world demo_tree) (demo_job ''g'')"
  "admits (demo_env 0) {''app''} (demo_server, demo_world demo_tree) demo_second"
  using demo_siblings
  by (simp_all add: takes_job_def demo_wf_job demo_plain_params demo_keeps_dirs demo_cp_copies siblings_def)

theorem Work_refines_store_witness:
  "\<exists>reps s' w'. serve_all (serve_work (demo_env 0)) (demo_server, demo_world demo_tree) [demo_job ''g'', demo_second] =
       Ret (reps, (s', w')) \<and> length reps = 2 \<and>
     store_run (store_of demo_config demo_tree) (zip [(''app'', ''abcdef01''), (''app'', ''abcdef02'')] reps) =
       Some (store_of (sCfg s') (root w'))"
  using Work_refines_store [OF demo_serving, of "[demo_job ''g'', demo_second]"] demo_admits
  by (fastforce simp: job_key_def)

text \<open>
  A successful build is never repeated: in every such sequence of requests, when a request
  was answered without an error and with the exit code 0, every later request for the same
  project and ID is answered from the cache with the same build information.
\<close>

theorem Work_builds_once:
  assumes "serving env ps (s, w)" and "\<forall>j \<in> set js. admits env ps (s, w) j"
    and "serve_all (serve_work env) (s, w) js = Ret (reps, sw')"
    and "m < n" and "n < length js" and "job_key (js ! m) = job_key (js ! n)"
    and "reps ! m = (Some bi, None)" and "bExitCode bi = 0"
  shows "\<exists>bi'. reps ! n = (Some bi', None) \<and> bCached bi' \<and> kept_info bi' = (kept_info bi)\<lparr>bCached := True\<rparr>"
  using served.serve_all_once [OF assms] kept_info_cached(1) by blast

theorem Work_builds_once_witness:
  "\<exists>bi bi' sw'. serve_all (serve_work (demo_env 0)) (demo_server, demo_world demo_tree) [demo_job [], demo_job []] =
       Ret ([(Some bi, None), (Some bi', None)], sw') \<and> bCached bi' \<and> bExitCode bi' = 0"
proof -
  let ?js = "[demo_job [], demo_job []]"
  obtain bi s' j' w' where b:
    "Work (demo_env 0) [] demo_server (demo_job []) (demo_world demo_tree) = Ret ((Some bi, None), s', j', w')"
    "bExitCode bi = 0"
    using demo_build_succeeds by blast
  have ok: "\<forall>j \<in> set ?js. admits (demo_env 0) {''app''} (demo_server, demo_world demo_tree) j" using demo_admits by simp
  obtain reps sw' where r: "serve_all (serve_work (demo_env 0)) (demo_server, demo_world demo_tree) ?js = Ret (reps, sw')"
      "length reps = 2"
    using served.serve_all_refines [OF demo_serving ok] by auto
  then have r0: "reps ! 0 = (Some bi, None)"
    using b(1) by (auto simp: serve_work_def split: outcome.splits)
  obtain bi' where b': "reps ! 1 = (Some bi', None)" "bCached bi'" "kept_info bi' = (kept_info bi)\<lparr>bCached := True\<rparr>"
    using Work_builds_once [OF demo_serving ok r(1), of 0 1 bi] r0 b(2) by auto
  have "bExitCode bi' = 0" using kept_info_cached(2) [OF b'(3)] b(2) by simp
  moreover have "reps = [(Some bi, None), (Some bi', None)]"
    using r(2) r0 b'(1) by (auto simp: length_Suc_conv numeral_2_eq_2)
  ultimately show ?thesis using r(1) b'(2) by blast
qed

end
