(* ===== verification/Steps.thy ===== *)
theory Steps
  imports Requests
begin

text \<open>
  Calls of \<open>Work\<close> (\<open>cmd/mistryd/worker.go\<close>) that run at the same time on one server and one file
  system. A call is cut into steps where it meets other calls: its claim on the job, the look at
  the result cache, the directories of the project (made under the mutex), its pending
  directory, the build inside it, the move to the ready directory, the removal of the old latest
  link (with the mutex, which it keeps), the new link (after which it gives the mutex back), and
  the release of the claim. Other calls of the group may look at the link between the two steps.
  The steps of one call in a row are \<open>Work\<close>.
\<close>

section \<open>The steps of a call\<close>

text \<open>Where a call is, with the variables it still needs.\<close>

datatype thread =
    Enters Job
  | Joins Job
  | Collects Job
  | Checks int Job
  | Prepares int Job
  | Stages int Job
  | Builds int Job
  | Moves "goerr option" Job
  | Links Job
  | Relinks Job
  | Leaves work_ret Job
  | Done work_ret Job

type_synonym 'd stepped = "('d Server \<times> thread \<times> 'd world) outcome"

definition enter_step :: "'d Server \<Rightarrow> Job \<Rightarrow> 'd world \<Rightarrow> 'd stepped" where
  "enter_step s j w =
     (let (start, s, j, w) = work_begin s j w;
          (added, q) = Add (sJq s) j
      in Ret (s\<lparr>sJq := q\<rparr>, if added then Checks start j else Joins j, w))"

text \<open>
  A tick of a waiting call: it looks for the build, and when that is there it reads the exit code,
  without a claim; meanwhile another call may have removed the build, if it had failed.
\<close>

definition join_step :: "'d Server \<Rightarrow> Job \<Rightarrow> 'd world \<Rightarrow> 'd stepped" where
  "join_step s j w =
     (case os_Stat (jReadyBuildPath j) w of
        (Inr _, w) \<Rightarrow> Ret (s, Collects j, w)
      | (Inl err, w) \<Rightarrow>
          if IsNotExist err then Ret (s, Joins j, w)
          else Ret (s, Done (Some (jBuildInfo j), Some (workErr ''could not coalesce'' (Some err))) j, w))"

definition collect_step :: "'d Server \<Rightarrow> Job \<Rightarrow> 'd world \<Rightarrow> 'd stepped" where
  "collect_step s j w =
     (case join_result s j w of
        Ret (r, s, j, w) \<Rightarrow> Ret (s, Done r j, w)
      | Blocked \<Rightarrow> Blocked
      | Panic m \<Rightarrow> Panic m)"

definition check_step :: "'d Server \<Rightarrow> int \<Rightarrow> Job \<Rightarrow> 'd world \<Rightarrow> 'd stepped" where
  "check_step s start j w =
     (case os_Stat (jReadyBuildPath j) w of
        (Inr _, w) \<Rightarrow>
          (case ReadJobBuildInfo (jReadyBuildPath j) True w of
             Blocked \<Rightarrow> Blocked
           | Panic m \<Rightarrow> Panic m
           | Ret (Inl err, w) \<Rightarrow> Ret (s, Leaves (None, Some err) j, w)
           | Ret (Inr None, w) \<Rightarrow> Panic ''nil pointer dereference''
           | Ret (Inr (Some bi), w) \<Rightarrow>
               if bExitCode bi \<noteq> 0 then
                 (case fsRemove (cFileSystem (sCfg s)) (jReadyBuildPath j) w of
                    (Some err, w) \<Rightarrow>
                      Ret (s, Leaves (Some bi, Some (workErr ''could not remove existing failed build'' (Some err))) j, w)
                  | (None, w) \<Rightarrow> Ret (s, Prepares start j, w))
               else
                 Ret (record_metrics (RecordCacheUtilization (jProject j)) s, Leaves (Some (bi\<lparr>bCached := True\<rparr>), None) j, w))
      | (Inl err, w) \<Rightarrow>
          if IsNotExist err then Ret (s, Prepares start j, w)
          else Ret (s, Leaves (Some (jBuildInfo j), Some (workErr ''could not check for ready path'' (Some err))) j, w))"

definition prepare_step :: "'d Server \<Rightarrow> int \<Rightarrow> Job \<Rightarrow> 'd world \<Rightarrow> 'd stepped" where
  "prepare_step s start j w =
     (let fail = (\<lambda>err s w. Ret (s, Leaves (Some (jBuildInfo j), Some err) j, w))
      in case os_Stat (Join (projects_dir (sCfg s)) (jProject j)) w of
           (Inl err, w) \<Rightarrow>
             if IsNotExist err then fail (workErr ''Unknown project'' None) s w
             else fail (workErr ''could not check for project'' (Some err)) s w
         | (Inr _, w) \<Rightarrow>
             (case BootstrapProject s j w of
                Blocked \<Rightarrow> Blocked
              | Panic m \<Rightarrow> Panic m
              | Ret (Some err, s, w) \<Rightarrow> fail (workErr ''could not bootstrap project'' (Some err)) s w
              | Ret (None, s, w) \<Rightarrow> Ret (s, Stages start j, w)))"

definition stage_step :: "'d Server \<Rightarrow> int \<Rightarrow> Job \<Rightarrow> 'd world \<Rightarrow> 'd stepped" where
  "stage_step s start j w =
     (let fail = (\<lambda>err j w. Ret (s, Leaves (Some (jBuildInfo j), Some err) j, w))
      in case BootstrapBuildDir (cFileSystem (sCfg s)) j w of
           (Some err, j, w) \<Rightarrow> fail (workErr ''could not bootstrap build dir'' (Some err)) j w
         | (None, j, w) \<Rightarrow>
             (case persistBuildInfo j w of
                (Some err, w) \<Rightarrow> fail (workErr ''could not persist build info'' (Some err)) j w
              | (None, w) \<Rightarrow> Ret (s, Builds start j, w)))"

definition build_step :: "'d env \<Rightarrow> 'd Server \<Rightarrow> int \<Rightarrow> Job \<Rightarrow> 'd world \<Rightarrow> 'd stepped" where
  "build_step env s start j w =
     (let (err, s, j, w) = build_body env s j start w;
          (err, j, w) = finish_info err j w
      in Ret (s, Moves err j, w))"

definition move_step :: "'d Server \<Rightarrow> goerr option \<Rightarrow> Job \<Rightarrow> 'd world \<Rightarrow> 'd stepped" where
  "move_step s err j w =
     (let (rerr, w) = os_Rename (jPendingBuildPath j) (jReadyBuildPath j) w;
          err = close_err ''could not move pending path'' rerr err
      in Ret (s, if err = None \<and> bExitCode (jBuildInfo j) = ContainerSuccessExitCode then Links j
                 else Leaves (Some (jBuildInfo j), err) j, w))"

definition link_step :: "'d Server \<Rightarrow> Job \<Rightarrow> 'd world \<Rightarrow> 'd stepped" where
  "link_step s j w =
     (case Lock (sPq s) (jProject j) of
        Blocked \<Rightarrow> Blocked
      | Panic m \<Rightarrow> Panic m
      | Ret q \<Rightarrow>
          (case remove_latest j w of
             (None, w) \<Rightarrow> Ret (s\<lparr>sPq := q\<rparr>, Relinks j, w)
           | (Some err, w) \<Rightarrow>
               (case Unlock q (jProject j) of
                  Blocked \<Rightarrow> Blocked
                | Panic m \<Rightarrow> Panic m
                | Ret q \<Rightarrow> Ret (s\<lparr>sPq := q\<rparr>, Leaves (Some (jBuildInfo j), Some err) j, w))))"

definition relink_step :: "'d Server \<Rightarrow> Job \<Rightarrow> 'd world \<Rightarrow> 'd stepped" where
  "relink_step s j w =
     (let (err, w) = create_latest j w
      in case Unlock (sPq s) (jProject j) of
           Blocked \<Rightarrow> Blocked
         | Panic m \<Rightarrow> Panic m
         | Ret q \<Rightarrow> Ret (s\<lparr>sPq := q\<rparr>, Leaves (Some (jBuildInfo j), err) j, w))"

fun thread_step :: "'d env \<Rightarrow> 'd Server \<Rightarrow> thread \<Rightarrow> 'd world \<Rightarrow> 'd stepped" where
  "thread_step env s (Enters j) w = enter_step s j w"
| "thread_step env s (Joins j) w = join_step s j w"
| "thread_step env s (Collects j) w = collect_step s j w"
| "thread_step env s (Checks start j) w = check_step s start j w"
| "thread_step env s (Prepares start j) w = prepare_step s start j w"
| "thread_step env s (Stages start j) w = stage_step s start j w"
| "thread_step env s (Builds start j) w = build_step env s start j w"
| "thread_step env s (Moves err j) w = move_step s err j w"
| "thread_step env s (Links j) w = link_step s j w"
| "thread_step env s (Relinks j) w = relink_step s j w"
| "thread_step env s (Leaves r j) w = Ret (s\<lparr>sJq := Delete (sJq s) j\<rparr>, Done r j, w)"
| "thread_step env s (Done r j) w = Blocked"

section \<open>One call on its own\<close>

text \<open>At most \<open>n\<close> steps of one call, without steps of others in between.\<close>

fun run_alone :: "'d env \<Rightarrow> nat \<Rightarrow> 'd Server \<Rightarrow> thread \<Rightarrow> 'd world \<Rightarrow> 'd work_result" where
  "run_alone env n s (Done r j) w = Ret (r, s, j, w)"
| "run_alone env 0 s th w = Blocked"
| "run_alone env (Suc n) s th w =
     (case thread_step env s th w of
        Ret (s, th, w) \<Rightarrow> run_alone env n s th w
      | Blocked \<Rightarrow> Blocked
      | Panic m \<Rightarrow> Panic m)"

lemma run_step:
  "thread_step env s th w = Ret (s', th', w') \<Longrightarrow> run_alone env (Suc n) s th w = run_alone env n s' th' w'"
  by (cases th) simp_all

lemma run_stops:
  "thread_step env s th w = Panic m \<Longrightarrow> run_alone env (Suc n) s th w = Panic m"
  "thread_step env s th w = Blocked \<Longrightarrow> \<forall>r j. th \<noteq> Done r j \<Longrightarrow> run_alone env (Suc n) s th w = Blocked"
  by (cases th; simp)+

text \<open>A waiting call that is not interrupted either goes on waiting or ends as \<open>Work\<close> does at this tick.\<close>

lemma run_joins:
  assumes "thread_step env s (Joins j) w = Ret (s1, th, w1)" and "th \<noteq> Joins j"
  shows "coalesce s j (Tick (root w) # evs) w = run_alone env (Suc (Suc n)) s (Joins j) w"
proof (cases "os_Stat (jReadyBuildPath j) w")
  case (Pair x w2)
  show ?thesis
  proof (cases x)
    case (Inl err)
    then show ?thesis using assms Pair by (auto simp: join_step_def split: if_splits)
  next
    case (Inr nd)
    then have "run_alone env (Suc (Suc n)) s (Joins j) w = run_alone env (Suc n) s (Collects j) w2"
      using Pair by (intro run_step) (simp add: join_step_def)
    then show ?thesis using Pair Inr by (auto simp: collect_step_def split: outcome.splits)
  qed
qed

lemma run_leaves: "run_alone env (Suc n) s (Leaves r j) w = Ret (r, s\<lparr>sJq := Delete (sJq s) j\<rparr>, j, w)"
  by simp

lemma run_links:
  "run_alone env (Suc (Suc (Suc n))) s (Links j) w = unqueue j
     (case Lock (sPq s) (jProject j) of
        Blocked \<Rightarrow> Blocked
      | Panic m \<Rightarrow> Panic m
      | Ret q \<Rightarrow>
          let (err, w) = link_latest j w
          in case Unlock q (jProject j) of
               Blocked \<Rightarrow> Blocked
             | Panic m \<Rightarrow> Panic m
             | Ret q \<Rightarrow> Ret ((Some (jBuildInfo j), err), s\<lparr>sPq := q\<rparr>, j, w))"
proof (cases "Lock (sPq s) (jProject j)")
  case (Ret q)
  obtain e1 w1 where r: "remove_latest j w = (e1, w1)" by force
  obtain e2 w2 where c: "create_latest j w1 = (e2, w2)" by force
  show ?thesis
  proof (cases e1)
    case None
    have "run_alone env (Suc (Suc (Suc n))) s (Links j) w = run_alone env (Suc (Suc n)) (s\<lparr>sPq := q\<rparr>) (Relinks j) w1"
      by (rule run_step) (simp add: link_step_def Ret r None)
    then show ?thesis
      by (auto simp: Ret link_latest_def r None c relink_step_def unqueue_def split: outcome.splits)
  next
    case (Some e)
    then show ?thesis by (auto simp: link_step_def link_latest_def Ret r unqueue_def split: outcome.splits)
  qed
qed (simp_all add: link_step_def unqueue_def)

lemma run_moves:
  "run_alone env (Suc (Suc (Suc (Suc n)))) s (Moves err j) w = unqueue j
     (case finish_move err s j w of
        Blocked \<Rightarrow> Blocked
      | Panic m \<Rightarrow> Panic m
      | Ret (err, s, w) \<Rightarrow> Ret ((Some (jBuildInfo j), err), s, j, w))"
proof -
  let ?n = "Suc (Suc (Suc n))"
  obtain rerr w1 where m: "os_Rename (jPendingBuildPath j) (jReadyBuildPath j) w = (rerr, w1)" by force
  let ?err = "close_err ''could not move pending path'' rerr err"
  show ?thesis
  proof (cases "?err = None \<and> bExitCode (jBuildInfo j) = ContainerSuccessExitCode")
    case True
    have "run_alone env (Suc ?n) s (Moves err j) w = run_alone env ?n s (Links j) w1"
      by (rule run_step) (use True in \<open>simp add: move_step_def m\<close>)
    then show ?thesis
      using True by (simp only: run_links finish_move_def m) (auto simp: unqueue_def Let_def split: outcome.splits prod.splits)
  next
    case False
    have "run_alone env (Suc ?n) s (Moves err j) w = run_alone env ?n s (Leaves (Some (jBuildInfo j), ?err) j) w1"
      by (rule run_step) (use False in \<open>auto simp: move_step_def m\<close>)
    then show ?thesis using False by (auto simp: finish_move_def m unqueue_def)
  qed
qed

lemma Delete_same_job: "same_job j j' \<Longrightarrow> Delete q j' = Delete q j"
  by (simp add: Delete_def same_job_sel(1))

lemma unqueue_same_job: "same_job j j' \<Longrightarrow> unqueue j' r = unqueue j r"
  by (cases r) (auto simp: unqueue_def Delete_same_job)

lemma run_builds:
  "run_alone env (Suc (Suc (Suc (Suc (Suc n))))) s (Builds start j) w = unqueue j (work_build env s j start w)"
proof -
  obtain err1 s1 j1 w1 where b: "build_body env s j start w = (err1, s1, j1, w1)" by (metis prod_cases4)
  obtain err2 j2 w2 where f: "finish_info err1 j1 w1 = (err2, j2, w2)" by (metis prod_cases3)
  have "same_job j j2" using build_body_job [OF b] finish_info_job [OF f] same_job_trans by blast
  moreover have "run_alone env (Suc (Suc (Suc (Suc (Suc n))))) s (Builds start j) w = run_alone env (Suc (Suc (Suc (Suc n)))) s1 (Moves err2 j2) w2"
    by (rule run_step) (simp add: build_step_def b f)
  ultimately show ?thesis
    using unqueue_same_job [of j j2] by (simp only: run_moves) (simp add: work_build_def b f)
qed

text \<open>A step that ends the call early, or fails, does so in \<open>Work\<close> as well.\<close>

lemma run_stages:
  "run_alone env (Suc (Suc (Suc (Suc (Suc (Suc n)))))) s (Stages start j) w = unqueue j
     (case BootstrapBuildDir (cFileSystem (sCfg s)) j w of
        (Some err, j, w) \<Rightarrow> Ret ((Some (jBuildInfo j), Some (workErr ''could not bootstrap build dir'' (Some err))), s, j, w)
      | (None, j, w) \<Rightarrow>
          (case persistBuildInfo j w of
             (Some err, w) \<Rightarrow> Ret ((Some (jBuildInfo j), Some (workErr ''could not persist build info'' (Some err))), s, j, w)
           | (None, w) \<Rightarrow> work_build env s j start w))"
proof -
  obtain e j1 w1 where b: "BootstrapBuildDir (cFileSystem (sCfg s)) j w = (e, j1, w1)" by (metis prod_cases3)
  note u = unqueue_same_job [OF BootstrapBuildDir_job [OF b]]
  obtain e2 w2 where p: "persistBuildInfo j1 w1 = (e2, w2)" by force
  show ?thesis
  proof (cases "e = None \<and> e2 = None")
    case True
    have "run_alone env (Suc (Suc (Suc (Suc (Suc (Suc n)))))) s (Stages start j) w = run_alone env (Suc (Suc (Suc (Suc (Suc n))))) s (Builds start j1) w2"
      by (rule run_step) (use True in \<open>simp add: stage_step_def b p\<close>)
    then show ?thesis using True u by (simp only: run_builds) (simp add: b p)
  next
    case False
    then show ?thesis
      using b p Delete_same_job [OF BootstrapBuildDir_job [OF b]]
      by (cases e; cases e2) (simp_all add: stage_step_def unqueue_def)
  qed
qed

lemma run_prepares:
  "run_alone env (Suc (Suc (Suc (Suc (Suc (Suc (Suc n))))))) s (Prepares start j) w = unqueue j (work_fresh env s j start w)"
proof -
  let ?n = "Suc (Suc (Suc (Suc (Suc (Suc n)))))"
  obtain st w1 where st: "os_Stat (Join (projects_dir (sCfg s)) (jProject j)) w = (st, w1)" by force
  show ?thesis
  proof (cases "\<exists>x s1 w2. st = Inr x \<and> BootstrapProject s j w1 = Ret (None, s1, w2)")
    case True
    then obtain x s1 w2 where t: "st = Inr x" "BootstrapProject s j w1 = Ret (None, s1, w2)" by blast
    have "run_alone env (Suc ?n) s (Prepares start j) w = run_alone env ?n s1 (Stages start j) w2"
      by (rule run_step) (simp add: prepare_step_def st t)
    then show ?thesis by (simp only: run_stages) (simp add: work_fresh_def st t)
  next
    case False
    then show ?thesis
      using st by (auto simp: prepare_step_def work_fresh_def unqueue_def Let_def split: sum.splits outcome.splits option.splits)
  qed
qed

lemma run_checks:
  "run_alone env (Suc (Suc (Suc (Suc (Suc (Suc (Suc (Suc n)))))))) s (Checks start j) w = unqueue j (work_cache env s j start w)"
proof -
  let ?n = "Suc (Suc (Suc (Suc (Suc (Suc (Suc n))))))"
  show ?thesis
  proof (cases "\<exists>w1. check_step s start j w = Ret (s, Prepares start j, w1) \<and> work_cache env s j start w = work_fresh env s j start w1")
    case True
    then obtain w1 where t: "check_step s start j w = Ret (s, Prepares start j, w1)" "work_cache env s j start w = work_fresh env s j start w1"
      by blast
    have "run_alone env (Suc ?n) s (Checks start j) w = run_alone env ?n s (Prepares start j) w1"
      by (rule run_step) (simp add: t)
    then show ?thesis by (simp only: run_prepares t)
  next
    case False
    then show ?thesis
      by (auto simp: check_step_def work_cache_def unqueue_def split: prod.splits sum.splits outcome.splits option.splits if_splits)
  qed
qed

lemma run_uninterrupted:
  assumes "\<not> enqueued (sJq s) (jID j)"
  shows "Work env evs s j w = run_alone env (n + 9) s (Enters j) w"
proof -
  obtain start s1 j1 w1 where W: "Work env evs s j w = unqueue j1 (work_cache env s1 j1 start w1)"
    and b: "work_begin s j w = (start, s1\<lparr>sJq := sJq s\<rparr>, j1, w1)"
    and f: "sJq s1 = snd (Add (sJq s) j)" "same_job j j1"
    using assms by (rule Work_builder)
  have "Add (sJq s) j1 = Add (sJq s) j" using same_job_sel(1) [OF f(2)] by (simp add: Add_def)
  then have "Add (sJq s) j1 = (True, sJq s1)" using assms f(1) by (simp add: prod_eq_iff jq.claim_iff)
  then have "thread_step env s (Enters j) w = Ret (s1, Checks start j1, w1)"
    using b by (simp add: enter_step_def)
  then have "run_alone env (Suc (n + 8)) s (Enters j) w = run_alone env (n + 8) s1 (Checks start j1) w1"
    by (rule run_step)
  moreover have "n + 8 = Suc (Suc (Suc (Suc (Suc (Suc (Suc (Suc n)))))))" "n + 9 = Suc (n + 8)" by simp_all
  ultimately show ?thesis using W by (simp only: run_checks)
qed



end
