(* ===== verification/History.thy ===== *)
theory History
  imports Store
begin

text \<open>
  The abstract store of results under concurrent requests: what calls do to the store, effect
  by effect, and what a history of effects says of the answers.
\<close>

section \<open>The store under concurrent calls\<close>

text \<open>
  The abstract machine, with the effects that concurrent calls have on it one by one: a build
  of a group is started from the latest build there is, or from none; a build is published, a
  failed one is forgotten, a stored success is served; the latest build of a project and group
  is dropped, a stored success becomes the latest one; and the exit code of a stored build is
  reported to a call that waited for it.
\<close>

datatype store_event =
    Starts build_key string "string option"
  | Publishes build_key BuildInfo
  | Forgets build_key
  | Serves build_key BuildInfo
  | Drops string string
  | Points build_key string
  | Reports build_key int
  | Misses build_key

fun store_step :: "store \<Rightarrow> store_event \<Rightarrow> store option" where
  "store_step st (Starts k g base) =
     (if base = (if g = [] then None else latest st (fst k, g)) then Some st else None)"
| "store_step st (Publishes k bi) =
     (if results st k = None then Some (st\<lparr>results := (results st)(k \<mapsto> bi)\<rparr>) else None)"
| "store_step st (Forgets k) =
     (case results st k of
        Some bi \<Rightarrow> if bExitCode bi \<noteq> 0 then Some (st\<lparr>results := (results st)(k := None)\<rparr>) else None
      | None \<Rightarrow> None)"
| "store_step st (Serves k bi) = (if map_option (\<lambda>b. b\<lparr>bCached := True\<rparr>) (hit st k) = Some bi then Some st else None)"
| "store_step st (Drops p g) = (if latest st (p, g) \<noteq> None then Some (st\<lparr>latest := (latest st)((p, g) := None)\<rparr>) else None)"
| "store_step st (Points k g) =
     (if hit st k \<noteq> None then Some (st\<lparr>latest := (latest st)((fst k, g) \<mapsto> snd k)\<rparr>) else None)"
| "store_step st (Reports k code) = (if map_option bExitCode (results st k) = Some code then Some st else None)"
| "store_step st (Misses k) = (if results st k = None then Some st else None)"

text \<open>A history: the effects in their order, with the numbers of the calls that cause them.\<close>

type_synonym history = "(nat \<times> store_event) list"

fun store_history :: "store \<Rightarrow> history \<Rightarrow> store option" where
  "store_history st [] = Some st"
| "store_history st ((n, e) # es) = (case store_step st e of None \<Rightarrow> None | Some st \<Rightarrow> store_history st es)"

text \<open>
  The effects in the history that explain the answer of a call: it was served, or it reports what
  it waited for, or fails because that is gone again, or it built. A build says whether it started from another one, and if it was
  successful it became the latest one of its project and group.
\<close>

definition explained :: "history \<Rightarrow> nat \<Rightarrow> build_key \<Rightarrow> work_ret \<Rightarrow> bool" where
  "explained es n k rep \<longleftrightarrow>
     (case rep of
        (None, _) \<Rightarrow> False
      | (Some bi, err) \<Rightarrow>
          if bCached bi then err = None \<and> (n, Serves k (kept_info bi)) \<in> set es
          else if bCoalesced bi then err = None \<and> (n, Reports k (bExitCode bi)) \<in> set es
          else err \<noteq> None \<and> bExitCode bi = ContainerPendingExitCode \<and> (n, Misses k) \<in> set es \<or>
               (\<exists>base. (n, Starts k (bGroup bi) base) \<in> set es \<and> (bIncremental bi \<longleftrightarrow> base \<noteq> None)) \<and>
               (n, Publishes k (kept_info bi)) \<in> set es \<and>
               (err = None \<and> bExitCode bi = 0 \<longrightarrow> (n, Points k (bGroup bi)) \<in> set es))"

lemma explained_mono: "explained es n k rep \<Longrightarrow> explained (es @ fs) n k rep"
  by (auto simp: explained_def split: prod.splits option.splits if_splits)

lemma explained_ran:
  "explained es n k (Some b, err) \<Longrightarrow> \<not> bCached b \<Longrightarrow> \<not> bCoalesced b \<Longrightarrow> bExitCode b \<noteq> ContainerPendingExitCode \<Longrightarrow>
     (n, Publishes k (kept_info b)) \<in> set es \<and>
     (\<exists>base. (n, Starts k (bGroup b) base) \<in> set es \<and> (bIncremental b \<longleftrightarrow> base \<noteq> None))"
  by (auto simp: explained_def)

lemma explained_success:
  "explained es n k (Some b, err) \<Longrightarrow> \<not> bCached b \<Longrightarrow> \<not> bCoalesced b \<Longrightarrow> bExitCode b = 0 \<Longrightarrow>
     (n, Publishes k (kept_info b)) \<in> set es"
  using explained_ran by (simp add: ContainerPendingExitCode_def)

lemma store_history_append:
  "store_history st (es @ fs) = (case store_history st es of None \<Rightarrow> None | Some st \<Rightarrow> store_history st fs)"
  by (induction st es rule: store_history.induct) (auto split: option.splits)

text \<open>A stored success stays, so a key is successfully published at most once.\<close>

lemma store_step_hit: "store_step st e = Some st' \<Longrightarrow> hit st k = Some bi \<Longrightarrow> hit st' k = Some bi"
  by (cases e) (auto simp: hit_def split: option.splits if_splits)

lemma store_history_hit:
  "store_history st es = Some st' \<Longrightarrow> hit st k = Some bi \<Longrightarrow> (n, Publishes k b) \<notin> set es"
proof (induction st es rule: store_history.induct)
  case (2 st m e es)
  then obtain st1 where s: "store_step st e = Some st1" "store_history st1 es = Some st'"
    by (auto split: option.splits)
  have "e \<noteq> Publishes k b" using s(1) "2.prems"(2) by (auto simp: hit_def split: option.splits if_splits)
  then show ?case using "2.IH" s store_step_hit [OF s(1) "2.prems"(2)] by simp
qed simp

lemma store_publishes_once:
  assumes "store_history st es = Some st'" and "(m, Publishes k a) \<in> set es" and "(n, Publishes k b) \<in> set es"
    and "bExitCode a = 0" and "bExitCode b = 0"
  shows "m = n"
  using assms
proof (induction st es rule: store_history.induct)
  case (2 st l e es)
  then obtain st1 where s: "store_step st e = Some st1" "store_history st1 es = Some st'"
    by (auto split: option.splits)
  have "hit st1 k = Some c" if "e = Publishes k c" "bExitCode c = 0" for c
    using s(1) that by (auto simp: hit_def split: if_splits)
  then have "e = Publishes k c \<Longrightarrow> bExitCode c = 0 \<Longrightarrow> (x, Publishes k d) \<notin> set es" for c d x
    using store_history_hit [OF s(2)] by blast
  then show ?case using 2 s by auto
qed simp

text \<open>
  Every latest build of a project is a stored success, if it is so at the start; so every build
  that started from another one started from a success.
\<close>

definition sound_links :: "string \<Rightarrow> store \<Rightarrow> bool" where
  "sound_links p st \<longleftrightarrow> (\<forall>g i. latest st (p, g) = Some i \<longrightarrow> hit st (p, i) \<noteq> None)"

lemma store_step_latest:
  "store_step st e = Some st' \<Longrightarrow> latest st' (p, g) = Some i \<Longrightarrow> latest st (p, g) = Some i \<or> hit st (p, i) \<noteq> None"
  by (cases e) (auto split: option.splits if_splits)

lemma store_step_links:
  assumes "store_step st e = Some st'" and "sound_links p st"
  shows "sound_links p st'"
  unfolding sound_links_def
proof (intro allI impI)
  fix g i
  assume "latest st' (p, g) = Some i"
  then have "hit st (p, i) \<noteq> None"
    using store_step_latest [OF assms(1)] assms(2) unfolding sound_links_def by blast
  then show "hit st' (p, i) \<noteq> None" using store_step_hit [OF assms(1)] by fastforce
qed

lemma started_from:
  assumes "store_history st es = Some st'" and "sound_links (fst k) st" and "(n, Starts k g (Some i)) \<in> set es"
  shows "hit st' (fst k, i) \<noteq> None"
proof -
  have stays: "store_history st es = Some st' \<Longrightarrow> hit st k \<noteq> None \<Longrightarrow> hit st' k \<noteq> None" for st k es
  proof (induction st es rule: store_history.induct)
    case (2 st m e es)
    then obtain st1 where s: "store_step st e = Some st1" "store_history st1 es = Some st'"
      by (auto split: option.splits)
    then show ?case using "2.IH" "2.prems"(2) store_step_hit [OF s(1)] by fastforce
  qed simp
  show ?thesis
    using assms
  proof (induction st es rule: store_history.induct)
    case (2 st m e es)
    then obtain st1 where s: "store_step st e = Some st1" "store_history st1 es = Some st'"
      by (auto split: option.splits)
    show ?case
    proof (cases "e = Starts k g (Some i)")
      case True
      then have "hit st (fst k, i) \<noteq> None" using s(1) "2.prems"(2) by (auto simp: sound_links_def split: if_splits)
      then show ?thesis using stays [OF "2.prems"(1)] by simp
    next
      case False
      then show ?thesis using "2.IH" [OF s(1,2) store_step_links [OF s(1) "2.prems"(2)]] "2.prems"(3) by auto
    qed
  qed simp
qed

end
