(* ===== verification/Phases.thy ===== *)
theory Phases
  imports Steps History
begin

text \<open>
  What holds for a call of \<open>Work\<close> at each of its steps: its claim and the mutex it holds, what its
  build information says, and what is on disk.
\<close>

section \<open>The calls\<close>

fun thread_job :: "thread \<Rightarrow> Job" where
  "thread_job (Enters j) = j"
| "thread_job (Joins j) = j"
| "thread_job (Collects j) = j"
| "thread_job (Checks start j) = j"
| "thread_job (Prepares start j) = j"
| "thread_job (Stages start j) = j"
| "thread_job (Builds start j) = j"
| "thread_job (Moves err j) = j"
| "thread_job (Links j) = j"
| "thread_job (Relinks j) = j"
| "thread_job (Leaves rep j) = j"
| "thread_job (Done rep j) = j"

abbreviation thread_ID :: "thread \<Rightarrow> string" where
  "thread_ID th \<equiv> jID (thread_job th)"

abbreviation thread_project :: "thread \<Rightarrow> string" where
  "thread_project th \<equiv> jProject (thread_job th)"

text \<open>
  The calls that hold a claim on their job, those with a pending directory, those with the mutex
  of their project, and those about to lock it.
\<close>

fun claiming :: "thread \<Rightarrow> bool" where
  "claiming (Enters j) = False"
| "claiming (Joins j) = False"
| "claiming (Collects j) = False"
| "claiming (Done rep j) = False"
| "claiming _ = True"

fun staging :: "thread \<Rightarrow> bool" where
  "staging (Builds start j) = True"
| "staging (Moves err j) = True"
| "staging _ = False"

fun holding :: "thread \<Rightarrow> bool" where
  "holding (Relinks j) = True"
| "holding _ = False"

fun locking :: "thread \<Rightarrow> bool" where
  "locking (Prepares start j) = True"
| "locking (Links j) = True"
| "locking _ = False"

lemma staging_claiming: "staging th \<Longrightarrow> claiming th"
  by (cases th) simp_all

lemma holding_claiming: "holding th \<Longrightarrow> claiming th"
  by (cases th) simp_all

lemma same_job_takes: "same_job j j' \<Longrightarrow> takes_job env ps cfg j' = takes_job env ps cfg j"
  by (simp add: takes_job_def plain_params_def same_job_wf same_job_sel)

lemma same_job_key: "same_job j j' \<Longrightarrow> job_key j' = job_key j"
  by (simp add: job_key_def same_job_sel)

lemma same_job_request:
  assumes "same_job j j'"
  shows "job_request j' = job_request j"
proof -
  have "jStartedAt j' = jStartedAt (j\<lparr>jBuildInfo := jBuildInfo j'\<rparr>)"
    by (rule arg_cong [of _ _ jStartedAt]) (rule assms [unfolded same_job_def])
  then show ?thesis by (simp add: job_request_def getJobURL_def same_job_sel [OF assms])
qed

section \<open>Claims and locks\<close>

text \<open>
  A table in which the calls that are \<open>on\<close> are registered under their keys, each under its own,
  and what a step of one call may change of it.
\<close>

definition registered :: "(thread \<Rightarrow> bool) \<Rightarrow> (thread \<Rightarrow> string) \<Rightarrow> (string \<Rightarrow> bool) \<Rightarrow> thread list \<Rightarrow> bool" where
  "registered on key T ths \<longleftrightarrow>
     (\<forall>i. T i \<longleftrightarrow> (\<exists>n < length ths. on (ths ! n) \<and> key (ths ! n) = i)) \<and>
     (\<forall>m < length ths. \<forall>n < length ths. on (ths ! m) \<longrightarrow> on (ths ! n) \<longrightarrow> key (ths ! m) = key (ths ! n) \<longrightarrow> m = n)"

definition registers :: "(thread \<Rightarrow> bool) \<Rightarrow> (thread \<Rightarrow> string) \<Rightarrow> (string \<Rightarrow> bool) \<Rightarrow> thread \<Rightarrow> (string \<Rightarrow> bool) \<Rightarrow> thread \<Rightarrow> bool" where
  "registers on key T th T' th' \<longleftrightarrow> key th' = key th \<and> (on th' \<longrightarrow> on th \<or> \<not> T (key th)) \<and>
     (\<forall>i. T' i \<longleftrightarrow> (if i = key th \<and> (on th \<or> on th') then on th' else T i))"

lemma registered_here:
  "registered on key T ths \<Longrightarrow> n < length ths \<Longrightarrow> on (ths ! n) \<Longrightarrow> T (key (ths ! n))"
  by (auto simp: registered_def)

lemma registered_alone:
  "registered on key T ths \<Longrightarrow> m < length ths \<Longrightarrow> n < length ths \<Longrightarrow> on (ths ! m) \<Longrightarrow> on (ths ! n) \<Longrightarrow>
     key (ths ! m) = key (ths ! n) \<Longrightarrow> m = n"
  by (simp add: registered_def)

lemma registered_found:
  "registered on key T ths \<Longrightarrow> T i \<Longrightarrow> \<exists>n < length ths. on (ths ! n) \<and> key (ths ! n) = i"
  by (simp add: registered_def)

lemma registered_call: "registered on key T ths \<Longrightarrow> \<not> on th \<Longrightarrow> registered on key T (ths @ [th])"
  by (auto simp: registered_def nth_append less_Suc_eq)

lemma registered_Nil: "registered on key T [] \<longleftrightarrow> (\<forall>i. \<not> T i)"
  by (simp add: registered_def)

lemma registers_same: "on th' = on th \<Longrightarrow> (on th \<longrightarrow> T (key th)) \<Longrightarrow> key th' = key th \<Longrightarrow> registers on key T th T th'"
  by (auto simp: registers_def)

lemma registered_step:
  assumes "registered on key T ths" and "n < length ths" and "registers on key T (ths ! n) T' th'"
  shows "registered on key T' (ths[n := th'])"
proof -
  let ?th = "ths ! n" and ?k = "key (ths ! n)" and ?ths = "ths[n := th']"
  have Q: "key th' = ?k" "on th' \<longrightarrow> on ?th \<or> \<not> T ?k" "T' i \<longleftrightarrow> (if i = ?k \<and> (on ?th \<or> on th') then on th' else T i)" for i
    using assms(3) by (simp_all add: registers_def)
  have other: "key (ths ! m) \<noteq> ?k" if "m < length ths" "m \<noteq> n" "on (ths ! m)" "on ?th \<or> on th'" for m
    using that registered_alone [OF assms(1), of m n] registered_here [OF assms(1), of m] Q(2) assms(2) by metis
  have nth: "?ths ! m = (if m = n then th' else ths ! m)" if "m < length ths" for m
    using that by simp
  have "T' i \<longleftrightarrow> (\<exists>m < length ?ths. on (?ths ! m) \<and> key (?ths ! m) = i)" for i
  proof (cases "i = ?k \<and> (on ?th \<or> on th')")
    case True
    then have "(\<exists>m < length ?ths. on (?ths ! m) \<and> key (?ths ! m) = i) \<longleftrightarrow> on th'"
      using other assms(2) Q(1) nth length_list_update by metis
    then show ?thesis using True Q(3) [of i] by simp
  next
    case False
    then have "(\<exists>m < length ?ths. on (?ths ! m) \<and> key (?ths ! m) = i) \<longleftrightarrow> (\<exists>m < length ths. on (ths ! m) \<and> key (ths ! m) = i)"
      using assms(2) Q(1) nth length_list_update by metis
    moreover have "T' i = T i" using False Q(3) [of i] by auto
    ultimately show ?thesis using assms(1) by (simp add: registered_def)
  qed
  moreover have "k = m" if "k < length ths" "m < length ths" "on (?ths ! k)" "on (?ths ! m)" "key (?ths ! k) = key (?ths ! m)" for k m
    using that registered_alone [OF assms(1), of k m] other [of k] other [of m] Q(1) nth [of k] nth [of m]
    by (cases "k = n"; cases "m = n") auto
  ultimately show ?thesis by (simp add: registered_def)
qed

section \<open>Where a call is\<close>

text \<open>What the build information of a call says.\<close>

fun knows_request :: "thread \<Rightarrow> bool" where
  "knows_request (Enters j) = True"
| "knows_request (Leaves rep j) = True"
| "knows_request (Done rep j) = True"
| "knows_request th = (request_of (jBuildInfo (thread_job th)) = job_request (thread_job th))"

text \<open>The build was started from the base that its build information tells of.\<close>

definition started :: "history \<Rightarrow> nat \<Rightarrow> Job \<Rightarrow> bool" where
  "started es n j \<longleftrightarrow>
     (\<exists>base. (n, Starts (job_key j) (jGroup j) base) \<in> set es \<and> (bIncremental (jBuildInfo j) \<longleftrightarrow> base \<noteq> None))"

text \<open>The build is in the ready directory, and it was successful.\<close>

definition built :: "history \<Rightarrow> nat \<Rightarrow> node \<Rightarrow> Job \<Rightarrow> bool" where
  "built es n r j \<longleftrightarrow> (\<exists>c. stored (jReadyBuildPath j) (without_logs (jBuildInfo j)) c r) \<and> bExitCode (jBuildInfo j) = 0 \<and>
     is_dir r (link_dir j) \<and> started es n j \<and> (n, Publishes (job_key j) (kept_info (jBuildInfo j))) \<in> set es"

fun phase_ok :: "'d env \<Rightarrow> history \<Rightarrow> nat \<Rightarrow> node \<Rightarrow> thread \<Rightarrow> bool" where
  "phase_ok env es n r (Enters j) = True"
| "phase_ok env es n r (Joins j) = (bExitCode (jBuildInfo j) = ContainerPendingExitCode)"
| "phase_ok env es n r (Collects j) = (bExitCode (jBuildInfo j) = ContainerPendingExitCode)"
| "phase_ok env es n r (Checks start j) = (\<not> bIncremental (jBuildInfo j))"
| "phase_ok env es n r (Prepares start j) = (lookup r (jReadyBuildPath j) = None \<and> \<not> bIncremental (jBuildInfo j))"
| "phase_ok env es n r (Stages start j) =
     (lookup r (jReadyBuildPath j) = None \<and> (\<forall>d \<in> set (project_dirs j). is_dir r d) \<and> \<not> bIncremental (jBuildInfo j))"
| "phase_ok env es n r (Builds start j) =
     (lookup r (jReadyBuildPath j) = None \<and> (\<forall>d \<in> set (project_dirs j). is_dir r d) \<and> persisted (jPendingBuildPath j) r \<and> started es n j)"
| "phase_ok env es n r (Moves err j) =
     (lookup r (jReadyBuildPath j) = None \<and> (\<forall>d \<in> set (project_dirs j). is_dir r d) \<and> furnished env (jPendingBuildPath j) r \<and>
      lookup r (jPendingBuildPath j @ [''build_info.json'']) = Some (File (Doc (marshal_BuildInfo (without_logs (jBuildInfo j))))) \<and>
      started es n j)"
| "phase_ok env es n r (Links j) = built es n r j"
| "phase_ok env es n r (Relinks j) = (built es n r j \<and> lookup r (jLatestBuildPath j) = None)"
| "phase_ok env es n r (Leaves rep j) = (explained es n (job_key j) rep \<and> (\<exists>bi c. stored (jReadyBuildPath j) bi c r))"
| "phase_ok env es n r (Done rep j) = explained es n (job_key j) rep"

lemma phase_mono: "phase_ok env es n r th \<Longrightarrow> phase_ok env (es @ fs) n r th"
  by (cases th) (auto simp: explained_mono started_def built_def)

text \<open>A step of another call keeps it, if it does not move the link behind the back of its holder.\<close>

lemma phase_frame:
  assumes "phase_ok env es n r th" and "footprint j r r'" and "job_in B j" and "job_in B (thread_job th)"
    and "claiming th \<longrightarrow> thread_ID th \<noteq> jID j"
    and "holding th \<longrightarrow> lookup r' (jLatestBuildPath (thread_job th)) = lookup r (jLatestBuildPath (thread_job th))"
  shows "phase_ok env es n r' th"
proof (cases "claiming th")
  case False
  then show ?thesis using assms(1) by (cases th) auto
next
  case True
  let ?i = "thread_job th"
  note F = footprint_in [OF assms(2,3)]
  note P = job_in_paths [OF assms(4)]
  have ne: "jID ?i \<noteq> jID j" using True assms(5) by simp
  have own: "lookup r' (jPendingBuildPath ?i @ q) = lookup r (jPendingBuildPath ?i @ q)"
    "lookup r' (jReadyBuildPath ?i @ q) = lookup r (jReadyBuildPath ?i @ q)" for q
    using F(1) F(2) [OF ne] F(3) [OF ne] unfolding P by (cases "jProject ?i = jProject j"; simp)+
  have dir: "is_dir r d \<Longrightarrow> is_dir r' d" if "d = link_dir ?i \<or> d \<in> set (project_dirs ?i)" for d
    using footprint_dir [OF assms(2)] that assms(3,4) by (auto simp: job_in_paths split: if_splits)
  have "furnished env (jPendingBuildPath ?i) r' = furnished env (jPendingBuildPath ?i) r"
    "stored (jReadyBuildPath ?i) bi c r' = stored (jReadyBuildPath ?i) bi c r"
    "persisted (jPendingBuildPath ?i) r' = persisted (jPendingBuildPath ?i) r" for bi c
    by (simp_all add: persisted_def staged_def furnished_def stored_def is_dir_def dir_or_new_def file_or_new_def own)
  then show ?thesis
    using assms(1,6) dir own own(2) [of "[]"] by (cases th) (simp_all add: built_def)
qed

end
