(* ===== verification/Concurrent.thy ===== *)
theory Concurrent
  imports Phases
begin

text \<open>
  Any number of calls of \<open>Work\<close> at the same time, on one server and one file system, their steps
  interleaved in any order.
\<close>

section \<open>Steps of one call\<close>

text \<open>The server and the files as a call finds them at any time.\<close>

definition site :: "'d env \<Rightarrow> string set \<Rightarrow> build_key set \<Rightarrow> 'd Server \<Rightarrow> 'd world \<Rightarrow> bool" where
  "site env ps busy s w \<longleftrightarrow>
     quiet w \<and> keeps_mounts env \<and> cMounts (sCfg s) = [] \<and> cFileSystem (sCfg s) = PlainFS env \<and>
     (\<forall>p \<in> ps. project_files env (sCfg s) busy (root w) p)"

definition caller :: "'d env \<Rightarrow> string set \<Rightarrow> build_key set \<Rightarrow> history \<Rightarrow> nat \<Rightarrow> 'd Server \<Rightarrow> node \<Rightarrow> thread \<Rightarrow> bool" where
  "caller env ps busy es n s r th \<longleftrightarrow>
     takes_job env ps (sCfg s) (thread_job th) \<and> knows_request th \<and> phase_ok env es n r th \<and>
     (claiming th \<longrightarrow> enqueued (sJq s) (thread_ID th) \<and> (staging th \<or> job_key (thread_job th) \<notin> busy)) \<and>
     (holding th \<longrightarrow> held (sPq s) (thread_project th))"

text \<open>What a step does to the queues and to the files.\<close>

definition queue_effect :: "'d Server \<Rightarrow> thread \<Rightarrow> 'd Server \<Rightarrow> thread \<Rightarrow> bool" where
  "queue_effect s th s' th' \<longleftrightarrow> sCfg s' = sCfg s \<and>
     registers claiming thread_ID (enqueued (sJq s)) th (enqueued (sJq s')) th' \<and>
     registers holding thread_project (held (sPq s)) th (held (sPq s')) th'"

definition file_effect :: "'d env \<Rightarrow> 'd Server \<Rightarrow> node \<Rightarrow> thread \<Rightarrow> node \<Rightarrow> thread \<Rightarrow> bool" where
  "file_effect env s r th r' th' \<longleftrightarrow>
     (let j = thread_job th in
      r' = r \<and> staging th' = staging th \<or>
      claiming th \<and> claiming th' \<and> footprint j r r' \<and> (staging th' \<or> lookup r' (jPendingBuildPath j) = None) \<and>
      (lookup r' (jReadyBuildPath j) = None \<or> result_at env (jReadyBuildPath j) r') \<and>
      (success_at (jReadyBuildPath j) r \<longrightarrow> success_at (jReadyBuildPath j) r') \<and>
      link_ok (jRootBuildPath j) (jGroup j) r' \<and>
      (lookup r' (jLatestBuildPath j) = lookup r (jLatestBuildPath j) \<or> holding th \<or> \<not> held (sPq s) (jProject j)))"

definition steps_to ::
  "'d env \<Rightarrow> history \<Rightarrow> nat \<Rightarrow> 'd Server \<Rightarrow> thread \<Rightarrow> 'd world \<Rightarrow> 'd Server \<Rightarrow> thread \<Rightarrow> 'd world \<Rightarrow> history \<Rightarrow> bool" where
  "steps_to env es n s th w s' th' w' fs \<longleftrightarrow>
     thread_step env s th w = Ret (s', th', w') \<and> quiet w' \<and>
     queue_effect s th s' th' \<and> file_effect env s (root w) th (root w') th' \<and>
     same_job (thread_job th) (thread_job th') \<and> knows_request th' \<and> phase_ok env (es @ fs) n (root w') th' \<and>
     store_history (store_of (sCfg s) (root w)) fs = Some (store_of (sCfg s) (root w'))"

lemma queue_effect_same:
  assumes "same_locks s s'" and "claiming th' = claiming th" and "claiming th \<longrightarrow> enqueued (sJq s) (thread_ID th)"
    and "\<not> holding th" and "\<not> holding th'" and "same_job (thread_job th) (thread_job th')"
  shows "queue_effect s th s' th'"
  using assms by (auto simp: queue_effect_def registers_def same_locks_def same_job_sel)

lemma file_effect_same: "staging th' = staging th \<Longrightarrow> file_effect env s r th r th'"
  by (simp add: file_effect_def Let_def)

text \<open>A step that leaves the results and the link of its job alone.\<close>

lemma file_effect_own:
  assumes "job_in B (thread_job th)" and "footprint (thread_job th) r r'" and "claiming th" and "claiming th'"
    and "staging th' \<or> lookup r' (jPendingBuildPath (thread_job th)) = None"
    and "lookup r' (jLatestBuildPath (thread_job th)) = lookup r (jLatestBuildPath (thread_job th))"
    and "lookup r' (jReadyBuildPath (thread_job th)) = lookup r (jReadyBuildPath (thread_job th))"
    and "lookup r (jReadyBuildPath (thread_job th)) = None"
    and "link_ok (jRootBuildPath (thread_job th)) (jGroup (thread_job th)) r"
  shows "file_effect env s r th r' th'"
proof -
  have no: "\<not> success_at (jReadyBuildPath (thread_job th)) r" using success_at_found assms(8) by blast
  show ?thesis
    using footprint_link_ok [OF assms(1,2,6) _ assms(9)] no assms(2-8) by (simp add: file_effect_def Let_def)
qed

lemma site_files:
  assumes "site env ps busy s w" and "takes_job env ps (sCfg s) j"
  shows "project_files env (sCfg s) busy (root w) (jProject j)"
  using assms by (simp add: site_def takes_job_def)

lemmas site_layout = files_of_job [OF site_files]

lemma enter_steps:
  assumes "site env ps busy s w" and "caller env ps busy es n s (root w) (Enters j)"
  shows "\<exists>s' th' w' fs. steps_to env es n s (Enters j) w s' th' w' fs"
proof -
  obtain start s1 j1 w1 where b: "work_begin s j w = (start, s1, j1, w1)" by (metis prod_cases4)
  note f = work_begin_sel [OF b]
  have sj: "same_job j j1" and q: "same_queues s s1" and w1: "root w1 = root w" "faults w1 = faults w" using f by auto
  note i = same_job_sel [OF sj]
  have req: "request_of (jBuildInfo j1) = job_request j1" and new: "\<not> bIncremental (jBuildInfo j1)"
    using work_begin_info(2,4) [OF b] same_job_request [OF sj] by simp_all
  have pend: "bExitCode (jBuildInfo j1) = ContainerPendingExitCode" by (rule work_begin_info(5) [OF b])
  let ?q = "snd (Add (sJq s1) j1)" and ?th = "if fst (Add (sJq s1) j1) then Checks start j1 else Joins j1"
  have st: "thread_step env s (Enters j) w = Ret (s1\<lparr>sJq := ?q\<rparr>, ?th, w1)"
    using b by (simp add: enter_step_def split: prod.splits)
  have "queue_effect s (Enters j) (s1\<lparr>sJq := ?q\<rparr>) ?th"
    using q i by (auto simp: queue_effect_def registers_def same_queues_def jq.claim_iff jq.taken_claim)
  moreover have "quiet w1" using assms(1) w1 by (simp add: site_def)
  ultimately have "steps_to env es n s (Enters j) w (s1\<lparr>sJq := ?q\<rparr>) ?th w1 []"
    using st w1 sj req new pend by (auto simp: steps_to_def file_effect_same)
  then show ?thesis by blast
qed

lemma join_steps:
  assumes "site env ps busy s w" and "caller env ps busy es n s (root w) (Joins j)"
  shows "\<exists>s' th' w' fs. steps_to env es n s (Joins j) w s' th' w' fs"
proof -
  have tk: "takes_job env ps (sCfg s) j" and q: "quiet w" and req: "request_of (jBuildInfo j) = job_request j"
      and ph: "phase_ok env es n (root w) (Joins j)"
    using assms by (simp_all add: site_def caller_def)
  consider "lookup (root w) (jReadyBuildPath j) = None" | bi c where "stored (jReadyBuildPath j) bi c (root w)"
    using site_layout(4) [OF assms(1) tk tk] by (auto simp: result_at_def)
  then obtain th where th: "thread_step env s (Joins j) w = Ret (s, th, w)" "th \<in> {Joins j, Collects j}"
  proof cases
    case 1
    have "os_Stat (jReadyBuildPath j) w = (Inl (PathError ''stat'' (jReadyBuildPath j) ENOENT), w)"
      by (rule os_Stat_ready_missing [OF q _ site_layout(1) [OF assms(1) tk tk] 1]) (use tk in \<open>simp add: takes_job_def\<close>)
    then show thesis using that [of "Joins j"] by (simp add: join_step_def)
  next
    case 2
    obtain ds where "lookup (root w) (jReadyBuildPath j) = Some (Dir ds)" using stored_dir [OF 2] by blast
    then show thesis using that [of "Collects j"] q by (simp add: join_step_def os_simps)
  qed
  then have "steps_to env es n s (Joins j) w s th w []"
    using q req ph by (auto simp: steps_to_def file_effect_same queue_effect_same)
  then show ?thesis by blast
qed

lemma collect_steps:
  assumes "site env ps busy s w" and "caller env ps busy es n s (root w) (Collects j)"
  shows "\<exists>s' th' w' fs. steps_to env es n s (Collects j) w s' th' w' fs"
proof -
  have tk: "takes_job env ps (sCfg s) j" and q: "quiet w" and req: "request_of (jBuildInfo j) = job_request j"
      and ph: "bExitCode (jBuildInfo j) = ContainerPendingExitCode"
    using assms by (simp_all add: site_def caller_def)
  note ji = takes_job_in [OF tk]
  have new: "\<not> bCached (jBuildInfo j)" "\<not> bCoalesced (jBuildInfo j)" using req by (simp_all add: request_of_def job_request_def)
  consider "lookup (root w) (jReadyBuildPath j) = None" | bi c where "stored (jReadyBuildPath j) bi c (root w)"
    using site_layout(4) [OF assms(1) tk tk] by (auto simp: result_at_def)
  then show ?thesis
  proof cases
    case 1
    obtain err w' where c: "join_result s j w = Ret ((Some (jBuildInfo j), Some err), s, j, w')" "root w' = root w" "quiet w'"
      using join_result_missing [OF q _ site_layout(1) [OF assms(1) tk tk] 1] tk unfolding takes_job_def by blast
    then have "thread_step env s (Collects j) w = Ret (s, Done (Some (jBuildInfo j), Some err) j, w')" by (simp add: collect_step_def)
    moreover have "results (store_of (sCfg s) (root w)) (job_key j) = None" by (rule no_result [OF 1 ji])
    ultimately have "steps_to env es n s (Collects j) w s (Done (Some (jBuildInfo j), Some err) j) w' [(n, Misses (job_key j))]"
      using c(2,3) ph new by (simp add: steps_to_def file_effect_same queue_effect_same explained_def)
    then show ?thesis by blast
  next
    case 2
    let ?j = "set_info (\<lambda>b. b\<lparr>bExitCode := bExitCode bi, bCoalesced := True\<rparr>) j"
    let ?b = "(jBuildInfo j)\<lparr>bExitCode := bExitCode bi, bCoalesced := True\<rparr>"
    let ?s = "record_metrics (RecordBuildCoalesced (jProject j)) s"
    obtain w' where c: "join_result s j w = Ret ((Some ?b, None), ?s, ?j, w')" "root w' = root w" "quiet w'"
      using join_result_stored [OF q 2] by blast
    have "thread_step env s (Collects j) w = Ret (?s, Done (Some ?b, None) ?j, w')" using c(1) by (simp add: collect_step_def)
    moreover have "results (store_of (sCfg s) (root w)) (job_key j) = Some (kept_info bi)" by (rule stored_result [OF ji 2])
    ultimately have "steps_to env es n s (Collects j) w ?s (Done (Some ?b, None) ?j) w' [(n, Reports (job_key j) (bExitCode bi))]"
      using c(2,3) new by (simp add: steps_to_def file_effect_same queue_effect_same explained_def same_job_key [of j ?j])
    then show ?thesis by blast
  qed
qed

text \<open>The result of a failed build is removed, to build again.\<close>

lemma check_removes:
  assumes "quiet w" and "cFileSystem (sCfg s) = PlainFS env'" and "stored (jReadyBuildPath j) bi c (root w)" and "bExitCode bi \<noteq> 0"
  shows "\<exists>w'. thread_step env s (Checks start j) w = Ret (s, Prepares start j, w'\<lparr>root := del (jReadyBuildPath j) (root w)\<rparr>) \<and> quiet w'"
proof -
  obtain ds where ds: "lookup (root w) (jReadyBuildPath j) = Some (Dir ds)" using stored_dir [OF assms(3)] by blast
  then have st: "os_Stat (jReadyBuildPath j) w = (Inr (Dir ds), w)" using assms(1) by (simp add: os_simps)
  obtain w2 where r: "ReadJobBuildInfo (jReadyBuildPath j) True w = Ret (Inr (Some (read_back bi c)), w2)" "root w2 = root w" "quiet w2"
    using ReadJobBuildInfo_stored(1) [OF assms(1,3)] by blast
  have "PlainFS_Remove (jReadyBuildPath j) w2 = (None, w2\<lparr>root := del (jReadyBuildPath j) (root w)\<rparr>)"
    using plainfs.remove_found [OF r(3)] ds r(2) by auto
  then have "thread_step env s (Checks start j) w = Ret (s, Prepares start j, w2\<lparr>root := del (jReadyBuildPath j) (root w)\<rparr>)"
    using st r(1) assms(2,4) by (simp add: check_step_def read_back_def)
  then show ?thesis using r(3) by blast
qed

lemma check_steps:
  assumes "site env ps busy s w" and "caller env ps busy es n s (root w) (Checks start j)"
  shows "\<exists>s' th' w' fs. steps_to env es n s (Checks start j) w s' th' w' fs"
proof -
  have tk: "takes_job env ps (sCfg s) j" and q: "quiet w" and req: "request_of (jBuildInfo j) = job_request j"
    and cl: "enqueued (sJq s) (jID j)" "job_key j \<notin> busy" and fs: "cFileSystem (sCfg s) = PlainFS env"
    and new: "\<not> bIncremental (jBuildInfo j)"
    using assms by (simp_all add: site_def caller_def)
  note ji = takes_job_in [OF tk]
  consider "lookup (root w) (jReadyBuildPath j) = None"
      | bi c where "stored (jReadyBuildPath j) bi c (root w)" "bExitCode bi = 0"
      | bi c where "stored (jReadyBuildPath j) bi c (root w)" "bExitCode bi \<noteq> 0"
    using site_layout(4) [OF assms(1) tk tk] by (auto simp: result_at_def)
  then show ?thesis
  proof cases
    case 1
    have "os_Stat (jReadyBuildPath j) w = (Inl (PathError ''stat'' (jReadyBuildPath j) ENOENT), w)"
      by (rule os_Stat_ready_missing [OF q _ site_layout(1) [OF assms(1) tk tk] 1]) (use tk in \<open>simp add: takes_job_def\<close>)
    then have "thread_step env s (Checks start j) w = Ret (s, Prepares start j, w)" by (simp add: check_step_def)
    then have "steps_to env es n s (Checks start j) w s (Prepares start j) w []"
      using q req new 1 cl(1) by (simp add: steps_to_def file_effect_same queue_effect_same)
    then show ?thesis by blast
  next
    case (2 bi c)
    obtain ds where "lookup (root w) (jReadyBuildPath j) = Some (Dir ds)" using stored_dir [OF 2(1)] by blast
    then have st: "os_Stat (jReadyBuildPath j) w = (Inr (Dir ds), w)" using q by (simp add: os_simps)
    obtain w2 where r: "ReadJobBuildInfo (jReadyBuildPath j) True w = Ret (Inr (Some (read_back bi c)), w2)" "root w2 = root w" "quiet w2"
      using ReadJobBuildInfo_stored(1) [OF q 2(1)] by blast
    let ?s = "record_metrics (RecordCacheUtilization (jProject j)) s" and ?b = "(read_back bi c)\<lparr>bCached := True\<rparr>"
    have "thread_step env s (Checks start j) w = Ret (?s, Leaves (Some ?b, None) j, w2)"
      using st r(1) 2(2) by (simp add: check_step_def read_back_def)
    moreover have "hit (store_of (sCfg s) (root w)) (job_key j) = Some (kept_info bi)"
      using stored_result [OF ji 2(1)] 2(2) by (simp add: hit_def)
    moreover have "kept_info ?b = (kept_info bi)\<lparr>bCached := True\<rparr>"
      by (simp add: kept_info_def read_back_def sort_key_id_if_sorted)
    ultimately have "steps_to env es n s (Checks start j) w ?s (Leaves (Some ?b, None) j) w2 [(n, Serves (job_key j) (kept_info ?b))]"
      using r(2,3) cl(1) 2(1) by (auto simp: steps_to_def file_effect_same queue_effect_same explained_def)
    then show ?thesis by blast
  next
    case (3 bi c)
    let ?r = "del (jReadyBuildPath j) (root w)"
    note D = removed_files [OF tk 3 site_files [OF assms(1) tk]]
    obtain w2 where w2: "thread_step env s (Checks start j) w = Ret (s, Prepares start j, w2\<lparr>root := ?r\<rparr>)" "quiet w2"
      using check_removes [OF q fs 3] by blast
    moreover have "store_history (store_of (sCfg s) (root w)) [(n, Forgets (job_key j))] = Some (store_of (sCfg s) ?r)"
      using stored_result [OF ji 3(1)] 3(2) D(2) by simp
    moreover have "lookup ?r (jPendingBuildPath j) = None" using D(4) site_layout(5) [OF assms(1) tk tk cl(2)] by simp
    ultimately have "steps_to env es n s (Checks start j) w s (Prepares start j) (w2\<lparr>root := ?r\<rparr>) [(n, Forgets (job_key j))]"
      using w2 req new cl D(3,5,6,7) failed_no_success [OF 3]
      by (simp add: steps_to_def queue_effect_same file_effect_def)
    then show ?thesis by blast
  qed
qed

lemma prepare_steps:
  assumes "site env ps busy s w" and "caller env ps busy es n s (root w) (Prepares start j)" and "\<not> held (sPq s) (jProject j)"
  shows "\<exists>s' th' w' fs. steps_to env es n s (Prepares start j) w s' th' w' fs"
proof -
  have tk: "takes_job env ps (sCfg s) j" and q: "quiet w" and req: "request_of (jBuildInfo j) = job_request j"
    and cl: "enqueued (sJq s) (jID j)" "job_key j \<notin> busy" and new: "lookup (root w) (jReadyBuildPath j) = None" "\<not> bIncremental (jBuildInfo j)"
    and wf: "wf_job j"
    using assms by (simp_all add: site_def caller_def takes_job_def)
  note ji = takes_job_in [OF tk]
  note files = site_layout [OF assms(1) tk tk]
  obtain ds where st: "os_Stat (Join (projects_dir (sCfg s)) (jProject j)) w = (Inr (Dir ds), w)"
    using files(2) q by (auto simp: is_dir_iff os_simps)
  obtain s1 r1 where bp: "BootstrapProject s j w = Ret (None, s1, w\<lparr>root := r1\<rparr>)" "bootstrapped j (root w) r1"
    using BootstrapProject_ok [OF q files(1) _ assms(3)] wf by (auto simp: wf_job_def)
  note fp = footprint_bootstrapped [OF ji bp(2)]
  note same = bootstrapped_lookup [OF wf bp(2)]
  have "file_effect env s (root w) (Prepares start j) r1 (Stages start j)"
    by (rule file_effect_own) (use ji fp same files(3) files(5) [OF cl(2)] new in simp_all)
  moreover have "store_of (sCfg s) r1 = store_of (sCfg s) (root w)"
    by (rule footprint_store_same [OF ji fp _ same(3)]) (simp add: lookup_append same(2))
  moreover have "thread_step env s (Prepares start j) w = Ret (s1, Stages start j, w\<lparr>root := r1\<rparr>)"
    using st bp(1) by (simp add: prepare_step_def)
  moreover have "\<forall>d \<in> set (project_dirs j). is_dir r1 d"
    using bp(2) ji by (auto simp: bootstrapped_def job_in_paths job_in_def split: if_splits intro: is_dir_prefix)
  ultimately have "steps_to env es n s (Prepares start j) w s1 (Stages start j) (w\<lparr>root := r1\<rparr>) []"
    using q req cl same new BootstrapProject_locks [OF bp(1)] by (simp add: steps_to_def queue_effect_same)
  then show ?thesis by blast
qed

lemma below_own:
  assumes "job_in B j" and "below (jPendingBuildPath j) r r'"
  shows "lookup r' (jReadyBuildPath j @ q) = lookup r (jReadyBuildPath j @ q)"
    "lookup r' (jLatestBuildPath j) = lookup r (jLatestBuildPath j)"
    "\<forall>d \<in> set (project_dirs j). is_dir r d \<Longrightarrow> \<forall>d \<in> set (project_dirs j). is_dir r' d"
proof -
  show "lookup r' (jReadyBuildPath j @ q) = lookup r (jReadyBuildPath j @ q)"
    "lookup r' (jLatestBuildPath j) = lookup r (jLatestBuildPath j)"
    by (rule below_lookup [OF assms(2)]; simp add: job_in_paths [OF assms(1)])+
  show "\<forall>d \<in> set (project_dirs j). is_dir r d \<Longrightarrow> \<forall>d \<in> set (project_dirs j). is_dir r' d"
    using below_is_dir [OF assms(2)] by (auto simp: job_in_paths [OF assms(1)] split: if_splits)
qed

text \<open>The directory of the project in the tree in which the pending directory is made.\<close>

lemma project_dirs_bootstrapped:
  assumes "job_in B j" and "\<forall>d \<in> set (project_dirs j). is_dir r d"
  shows "bootstrapped j r r" "is_dir r (link_dir j)" "is_dir r (jRootBuildPath j @ [''ready''])"
  using assms(2) assms(1) [unfolded job_in_def] by (auto simp: bootstrapped_def job_in_paths [OF assms(1)])

lemma stage_steps:
  assumes "site env ps busy s w" and "caller env ps busy es n s (root w) (Stages start j)"
  shows "\<exists>s' th' w' fs. steps_to env es n s (Stages start j) w s' th' w' fs"
proof -
  let ?p = "jPendingBuildPath j" and ?st = "store_of (sCfg s) (root w)"
  let ?base = "if jGroup j = [] then None else latest ?st (jProject j, jGroup j)" and ?key = "job_key j"
  have tk: "takes_job env ps (sCfg s) j" and q: "quiet w" and req: "request_of (jBuildInfo j) = job_request j"
    and cl: "enqueued (sJq s) (jID j)" "job_key j \<notin> busy" and new: "lookup (root w) (jReadyBuildPath j) = None" "\<not> bIncremental (jBuildInfo j)"
    and dirs: "\<forall>d \<in> set (project_dirs j). is_dir (root w) d" and fs: "cFileSystem (sCfg s) = PlainFS env"
    using assms by (simp_all add: site_def caller_def)
  have wf: "wf_job j" using tk by (simp add: takes_job_def)
  note ji = takes_job_in [OF tk]
  note files = site_layout [OF assms(1) tk tk]
  obtain j1 r where b: "BootstrapBuildDir (PlainFS env) j w = (None, j1, w\<lparr>root := r\<rparr>)" "staged ?p r" "below ?p (root w) r"
      "request_of (jBuildInfo j1) = request_of (jBuildInfo j)" "bIncremental (jBuildInfo j1) \<longleftrightarrow> \<not> no_base j (root w)"
    using BootstrapBuildDir_ok [OF q wf project_dirs_bootstrapped(1) [OF ji dirs] files(6) files(5) [OF cl(2)]] new(2) by auto
  have sj: "same_job j j1" by (rule BootstrapBuildDir_job [OF b(1)])
  note sel = same_job_sel [OF sj]
  have info: "jBuildInfoFilePath j1 = ?p @ [''build_info.json'']" using wf sel by (simp add: wf_job_def)
  let ?r = "put (?p @ [''build_info.json'']) (File (Doc (marshal_BuildInfo (without_logs (jBuildInfo j1))))) r"
  have "persistBuildInfo j1 (w\<lparr>root := r\<rparr>) = (None, w\<lparr>root := ?r\<rparr>)"
    using persistBuildInfo_ok [of "w\<lparr>root := r\<rparr>" ?p j1] b(2,3) q info by (simp add: below_def staged_def)
  then have "thread_step env s (Stages start j) w = Ret (s, Builds start j1, w\<lparr>root := ?r\<rparr>)"
    using b(1) fs by (simp add: stage_step_def)
  moreover have bl: "below ?p (root w) ?r"
    by (rule below_trans [OF b(3) below_put]) (use b(3) in \<open>simp_all add: below_def\<close>)
  note own = below_own [OF ji bl] and fp = footprint_below [OF ji bl]
  moreover have "file_effect env s (root w) (Stages start j) ?r (Builds start j1)"
    by (rule file_effect_own) (use ji fp own(1) [of "[]"] own(2) files(3) new in simp_all)
  moreover have "store_of (sCfg s) ?r = ?st"
    by (rule footprint_store_same [OF ji fp own(1,2)])
  moreover have "bIncremental (jBuildInfo j1) \<longleftrightarrow> ?base \<noteq> None" using b(5) files(7) by simp
  then have "started (es @ [(n, Starts ?key (jGroup j) ?base)]) n j1"
    using sel by (auto simp: started_def same_job_key [OF sj])
  moreover have "project_dirs j1 = project_dirs j" using sel by (simp add: project_dirs_def)
  ultimately have "steps_to env es n s (Stages start j) w s (Builds start j1) (w\<lparr>root := ?r\<rparr>) [(n, Starts ?key (jGroup j) ?base)]"
    using q req b(4) cl new own(1) [of "[]"] own(3) [OF dirs] staged_put_info [OF b(2)] sj sel same_job_request [OF sj]
    by (simp add: steps_to_def queue_effect_same job_key_def)
  then show ?thesis by blast
qed

lemma build_steps:
  assumes "site env ps busy s w" and "caller env ps busy es n s (root w) (Builds start j)"
  shows "\<exists>s' th' w' fs. steps_to env es n s (Builds start j) w s' th' w' fs"
proof -
  let ?p = "jPendingBuildPath j"
  have tk: "takes_job env ps (sCfg s) j" and q: "quiet w" and req: "request_of (jBuildInfo j) = job_request j"
    and cl: "enqueued (sJq s) (jID j)" and new: "lookup (root w) (jReadyBuildPath j) = None"
    and dirs: "\<forall>d \<in> set (project_dirs j). is_dir (root w) d" and pe: "persisted ?p (root w)" and sd: "started es n j"
    and env: "keeps_mounts env" "cMounts (sCfg s) = []"
    using assms by (simp_all add: site_def caller_def)
  have wf: "wf_job j" and pp: "plain_params j" using tk by (simp_all add: takes_job_def)
  have paths: "jBuildLogPath j = ?p @ [''out.log'']" "jBuildInfoFilePath j = ?p @ [''build_info.json'']" "distinct (map fst (jParams j))"
    using wf by (simp_all add: wf_job_def)
  note ji = takes_job_in [OF tk]
  obtain err s1 j1 w1 where b: "build_body env s j start w = (err, s1, j1, w1)" by (metis prod_cases4)
  have w1: "quiet w1" "furnished env ?p (root w1)" "below ?p (root w) (root w1)"
    using build_body_ok [OF env refl paths(1) q pe pp paths(3) b] by blast+
  let ?bi = "note_error err (jBuildInfo j1)" and ?j = "set_info (note_error err) j1"
  let ?r = "put (?p @ [''build_info.json'']) (File (Doc (marshal_BuildInfo (without_logs ?bi)))) (root w1)"
  have sj: "same_job j ?j" using build_body_job [OF b] by simp
  note sel = same_job_sel [OF sj]
  have f: "finish_info err j1 w1 = (err, ?j, w1\<lparr>root := ?r\<rparr>)"
    using finish_info_ok [OF w1(1) furnished_building [OF w1(2)]] paths(2) same_job_sel [OF build_body_job [OF b]] by simp
  have bd: "furnished env ?p ?r" and bl: "below ?p (root w) ?r"
    using furnished_put_info [OF w1(2)] below_trans [OF w1(3) below_put] furnished_dir [OF w1(2)] by simp_all
  have ri: "request_of ?bi = job_request ?j" and inc: "bIncremental ?bi = bIncremental (jBuildInfo j)"
    using build_body_err [OF b] req same_job_request [OF sj] by (simp_all add: note_error_def request_of_def split: option.splits)
  note own = below_own [OF ji bl] and fp = footprint_below [OF ji bl]
  have "thread_step env s (Builds start j) w = Ret (s1, Moves err ?j, w1\<lparr>root := ?r\<rparr>)"
    using b f by (simp add: build_step_def)
  moreover have "file_effect env s (root w) (Builds start j) ?r (Moves err ?j)"
    by (rule file_effect_own) (use ji fp own(1) [of "[]"] own(2) site_layout(3) [OF assms(1) tk tk] new in simp_all)
  moreover have "store_of (sCfg s) ?r = store_of (sCfg s) (root w)"
    by (rule footprint_store_same [OF ji fp own(1,2)])
  moreover have "lookup ?r (?p @ [''build_info.json'']) = Some (File (Doc (marshal_BuildInfo (without_logs ?bi))))"
    using furnished_dir [OF w1(2)] by simp
  moreover have "started es n ?j" using sd inc sel same_job_key [OF sj] by (simp add: started_def)
  moreover have "project_dirs ?j = project_dirs j" using sel by (simp add: project_dirs_def)
  ultimately have "steps_to env es n s (Builds start j) w s1 (Moves err ?j) (w1\<lparr>root := ?r\<rparr>) []"
    using w1(1) ri cl new own(1) [of "[]"] own(3) [OF dirs] bd sj sel same_queues_locks [OF build_body_queues [OF b]]
    by (simp add: steps_to_def queue_effect_same)
  then show ?thesis by blast
qed

text \<open>A build that is moved to its ready directory is published.\<close>

lemma published_result:
  assumes "published j False nd r r'" and "lookup r (jPendingBuildPath j) = Some nd" and "furnished env (jPendingBuildPath j) r"
    and "lookup r (jPendingBuildPath j @ [''build_info.json'']) = Some (File (Doc (marshal_BuildInfo bi)))"
    and "distinct (map fst (bParams bi))"
  shows "\<exists>c. stored (jReadyBuildPath j) bi c r'" "result_at env (jReadyBuildPath j) r'"
proof -
  have low: "lookup r' (jReadyBuildPath j @ q) = lookup r (jPendingBuildPath j @ q)" for q
    using assms(1,2) by (simp add: published_def lookup_append)
  show st: "\<exists>c. stored (jReadyBuildPath j) bi c r'"
    using assms(4,5) furnished_building [OF assms(3)] by (auto simp: stored_def building_def low)
  have "keeps_dirs env \<Longrightarrow> base_at (jReadyBuildPath j) r'"
    using furnished_base [OF assms(3) _ assms(2)] low [of "[]"] assms(2) by (simp add: base_at_def)
  then show "result_at env (jReadyBuildPath j) r'" using st by (auto simp: result_at_def)
qed

lemma move_steps:
  assumes "site env ps busy s w" and "caller env ps busy es n s (root w) (Moves err j)"
  shows "\<exists>s' th' w' fs. steps_to env es n s (Moves err j) w s' th' w' fs"
proof -
  let ?p = "jPendingBuildPath j" and ?y = "jReadyBuildPath j" and ?bi = "jBuildInfo j"
  let ?th = "if err = None \<and> bExitCode ?bi = ContainerSuccessExitCode then Links j else Leaves (Some ?bi, err) j"
  let ?ev = "(n, Publishes (job_key j) (kept_info ?bi))"
  have tk: "takes_job env ps (sCfg s) j" and q: "quiet w" and req: "request_of ?bi = job_request j"
    and cl: "enqueued (sJq s) (jID j)" and new: "lookup (root w) ?y = None"
    and dirs: "\<forall>d \<in> set (project_dirs j). is_dir (root w) d" and bd: "furnished env ?p (root w)"
    and info: "lookup (root w) (?p @ [''build_info.json'']) = Some (File (Doc (marshal_BuildInfo (without_logs ?bi))))"
    and sd: "started es n j"
    using assms by (simp_all add: site_def caller_def)
  note ji = takes_job_in [OF tk]
  note D = project_dirs_bootstrapped [OF ji dirs]
  have wf: "wf_job j" using tk by (simp add: takes_job_def)
  have d: "distinct (map fst (bParams ?bi))" "\<not> bCached ?bi" "\<not> bCoalesced ?bi" "bGroup ?bi = jGroup j"
    using req wf by (simp_all add: request_of_def job_request_def wf_job_def)
  obtain nd where nd: "lookup (root w) ?p = Some nd" using building_nodes [OF furnished_building [OF bd]] by metis
  obtain r where r: "os_Rename ?p ?y w = (None, w\<lparr>root := r\<rparr>)" "published j False nd (root w) r"
      "\<forall>q. is_dir (root w) q \<longrightarrow> \<not> prefix ?p q \<longrightarrow> is_dir r q"
    using rename_ready [OF q wf nd new D(3)] by blast
  have pub: "lookup r ?p = None" "lookup r ?y = Some nd" "lookup r (jLatestBuildPath j) = lookup (root w) (jLatestBuildPath j)"
      "is_dir r (link_dir j)"
    using r(2) D(2) by (simp_all add: published_def)
  obtain c where c: "stored ?y (without_logs ?bi) c r" and res: "result_at env ?y r"
    using published_result [OF r(2) nd bd info] d(1) by (auto simp: without_logs_def)
  have fp: "footprint j (root w) r" using footprint_published [OF ji r(2) _ D(2) r(3)] pub(2) by simp
  have no: "\<not> success_at ?y (root w)" using success_at_found new by blast
  have "kept_info (without_logs ?bi) = kept_info ?bi" by (simp add: kept_info_def without_logs_def)
  then have sh: "store_history (store_of (sCfg s) (root w)) [?ev] = Some (store_of (sCfg s) r)"
    using footprint_store [OF ji fp] no_result [OF new ji] stored_result [OF ji c] same_latest [OF pub(3) ji] by simp
  have "thread_step env s (Moves err j) w = Ret (s, ?th, w\<lparr>root := r\<rparr>)"
    using r(1) by (simp add: move_step_def close_err_def)
  moreover have "phase_ok env (es @ [?ev]) n r ?th"
    using c d sd pub(4) by (auto simp: explained_def ContainerSuccessExitCode_def built_def started_def)
  moreover have "file_effect env s (root w) (Moves err j) r ?th"
    using fp pub res no footprint_link_ok [OF ji fp pub(3) _ site_layout(3) [OF assms(1) tk tk]] by (simp add: file_effect_def)
  ultimately have "steps_to env es n s (Moves err j) w s ?th (w\<lparr>root := r\<rparr>) [?ev]"
    using q cl req sh by (auto simp: steps_to_def intro!: queue_effect_same)
  then show ?thesis by blast
qed

text \<open>What is left alone when only the latest link of a job changes.\<close>

lemma link_own:
  assumes "job_in B j" and "\<forall>q. \<not> prefix (jLatestBuildPath j) q \<longrightarrow> \<not> prefix q (jLatestBuildPath j) \<longrightarrow> lookup r' q = lookup r q"
  shows "lookup r' (jReadyBuildPath j @ x) = lookup r (jReadyBuildPath j @ x)"
    "lookup r' (jPendingBuildPath j) = lookup r (jPendingBuildPath j)"
    "stored (jReadyBuildPath j) bi c r' = stored (jReadyBuildPath j) bi c r"
    "result_at env (jReadyBuildPath j) r' = result_at env (jReadyBuildPath j) r"
    "success_at (jReadyBuildPath j) r' = success_at (jReadyBuildPath j) r"
proof -
  note P = job_in_paths [OF assms(1)]
  show own: "lookup r' (jReadyBuildPath j @ x) = lookup r (jReadyBuildPath j @ x)" for x
    using assms(2) by (simp add: P)
  show "lookup r' (jPendingBuildPath j) = lookup r (jPendingBuildPath j)"
    using assms(2) by (simp add: P)
  show "stored (jReadyBuildPath j) bi c r' = stored (jReadyBuildPath j) bi c r" by (rule stored_cong) (rule own)
  show "result_at env (jReadyBuildPath j) r' = result_at env (jReadyBuildPath j) r"
    "success_at (jReadyBuildPath j) r' = success_at (jReadyBuildPath j) r"
    by (rule result_cong; rule own)+
qed

lemma link_steps:
  assumes "site env ps busy s w" and "caller env ps busy es n s (root w) (Links j)" and free: "\<not> held (sPq s) (jProject j)"
  shows "\<exists>s' th' w' fs. steps_to env es n s (Links j) w s' th' w' fs"
proof -
  let ?y = "jReadyBuildPath j" and ?l = "jLatestBuildPath j" and ?st = "store_of (sCfg s) (root w)"
  have tk: "takes_job env ps (sCfg s) j" and q: "quiet w" and req: "request_of (jBuildInfo j) = job_request j"
    and cl: "enqueued (sJq s) (jID j)" "job_key j \<notin> busy" and bt: "built es n (root w) j"
    using assms(1,2) by (simp_all add: site_def caller_def)
  have wf: "wf_job j" using tk by (simp add: takes_job_def)
  have ld: "is_dir (root w) (link_dir j)" using bt by (simp add: built_def)
  note ji = takes_job_in [OF tk]
  note files = site_layout [OF assms(1) tk tk]
  note lk = link_ok_is_link [OF files(3), folded job_link [OF ji]]
  obtain x where x: "?l = link_dir j @ [x]" by (rule wf_job_parent [OF wf])
  obtain r where r: "remove_latest j w = (None, w\<lparr>root := r\<rparr>)" "lookup r ?l = None" "lookup (root w) ?l = None \<longrightarrow> r = root w"
      "\<forall>q. is_dir (root w) q \<longrightarrow> is_dir r q" "\<forall>q. \<not> prefix ?l q \<longrightarrow> \<not> prefix q ?l \<longrightarrow> lookup r q = lookup (root w) q"
    using remove_latest_ok [OF q ld x lk [unfolded x]] unfolding x by metis
  have fp: "footprint j (root w) r" by (rule footprint_link [OF ji ld r(4,5)])
  note own = link_own [OF ji r(5)]
  obtain q1 where lock: "Lock (sPq s) (jProject j) = Ret q1" "\<forall>k. held q1 k \<longleftrightarrow> k = jProject j \<or> held (sPq s) k"
    using pq.lock_free [OF free] by blast
  have "thread_step env s (Links j) w = Ret (s\<lparr>sPq := q1\<rparr>, Relinks j, w\<lparr>root := r\<rparr>)"
    using lock(1) r(1) by (simp add: link_step_def)
  moreover have "queue_effect s (Links j) (s\<lparr>sPq := q1\<rparr>) (Relinks j)"
    using lock(2) free cl(1) by (auto simp: queue_effect_def registers_def)
  moreover have "link_ok (jRootBuildPath j) (jGroup j) r" using r(2) unfolding job_link [OF ji] by (simp add: link_ok_def)
  then have "file_effect env s (root w) (Links j) r (Relinks j)"
    using fp own(2,5) own(4) [of env] files(4) files(5) [OF cl(2)] own(1) [of "[]"] free by (simp add: file_effect_def)
  moreover have bt': "built es n r j" using bt own(3) r(4) by (auto simp: built_def)
  moreover have "\<exists>fs. store_history ?st fs = Some (store_of (sCfg s) r)"
  proof (cases "lookup (root w) ?l")
    case None
    then show ?thesis using r(3) by (intro exI [of _ "[]"]) simp
  next
    case (Some nd)
    then obtain t where "lookup (root w) ?l = Some (Symlink t)" using lk by (cases nd) auto
    then show ?thesis
      using footprint_store [OF ji fp] same_result [OF own(1) ji] no_latest [OF r(2) ji] linked_latest [OF _ ji]
      by (intro exI [of _ "[(n, Drops (jProject j) (jGroup j))]"]) simp
  qed
  then obtain fs where "store_history ?st fs = Some (store_of (sCfg s) r)" by blast
  moreover have "built (es @ fs) n r j" using bt' by (auto simp: built_def started_def)
  ultimately have "steps_to env es n s (Links j) w (s\<lparr>sPq := q1\<rparr>) (Relinks j) (w\<lparr>root := r\<rparr>) fs"
    using q req r(2) by (simp add: steps_to_def)
  then show ?thesis by blast
qed

lemma relink_steps:
  assumes "site env ps busy s w" and "caller env ps busy es n s (root w) (Relinks j)"
  shows "\<exists>s' th' w' fs. steps_to env es n s (Relinks j) w s' th' w' fs"
proof -
  let ?y = "jReadyBuildPath j" and ?bi = "jBuildInfo j" and ?l = "jLatestBuildPath j" and ?st = "store_of (sCfg s) (root w)"
  let ?ev = "(n, Points (job_key j) (jGroup j))"
  have tk: "takes_job env ps (sCfg s) j" and q: "quiet w" and req: "request_of ?bi = job_request j"
    and cl: "enqueued (sJq s) (jID j)" "job_key j \<notin> busy" and bt: "built es n (root w) j"
    and gone: "lookup (root w) ?l = None" and lock: "held (sPq s) (jProject j)"
    using assms by (simp_all add: site_def caller_def)
  have wf: "wf_job j" using tk by (simp add: takes_job_def)
  have ld: "is_dir (root w) (link_dir j)" and ok: "bExitCode ?bi = 0" using bt by (simp_all add: built_def)
  obtain c where c: "stored ?y (without_logs ?bi) c (root w)" using bt by (auto simp: built_def)
  note ji = takes_job_in [OF tk]
  note files = site_layout [OF assms(1) tk tk]
  obtain x where x: "?l = link_dir j @ [x]" by (rule wf_job_parent [OF wf])
  obtain r where r: "create_latest j w = (None, w\<lparr>root := r\<rparr>)" "lookup r ?l = Some (Symlink ?y)"
      "\<forall>q. is_dir (root w) q \<longrightarrow> is_dir r q" "\<forall>q. \<not> prefix ?l q \<longrightarrow> \<not> prefix q ?l \<longrightarrow> lookup r q = lookup (root w) q"
    using create_latest_ok [OF q ld x gone [unfolded x]] unfolding x by metis
  have fp: "footprint j (root w) r" by (rule footprint_link [OF ji ld r(3,4)])
  note own = link_own [OF ji r(4)]
  obtain q2 where unlock: "Unlock (sPq s) (jProject j) = Ret q2" "\<forall>k. held q2 k \<longleftrightarrow> k \<noteq> jProject j \<and> held (sPq s) k"
    using pq.unlock_held [OF lock] by blast
  have "thread_step env s (Relinks j) w = Ret (s\<lparr>sPq := q2\<rparr>, Leaves (Some ?bi, None) j, w\<lparr>root := r\<rparr>)"
    using unlock(1) r(1) by (simp add: relink_step_def)
  moreover have "queue_effect s (Relinks j) (s\<lparr>sPq := q2\<rparr>) (Leaves (Some ?bi, None) j)"
    using unlock(2) lock cl(1) by (auto simp: queue_effect_def registers_def)
  moreover have "success_at ?y r" using c own(3) ok by (auto simp: success_at_def without_logs_def)
  then have "link_ok (jRootBuildPath j) (jGroup j) r"
    using r(2) wf unfolding job_link [OF ji] by (simp add: link_ok_def wf_job_def)
  then have "file_effect env s (root w) (Relinks j) r (Leaves (Some ?bi, None) j)"
    using fp own(2,5) own(4) [of env] files(4) files(5) [OF cl(2)] own(1) [of "[]"] by (simp add: file_effect_def)
  moreover have y: "last ?y = jID j" using wf by (simp add: wf_job_def)
  have "store_of (sCfg s) r = ?st\<lparr>latest := (latest ?st)((jProject j, jGroup j) \<mapsto> jID j)\<rparr>"
    using footprint_store [OF ji fp] same_result [OF own(1) ji] linked_latest [OF r(2) ji] y by simp
  then have "store_history ?st [?ev] = Some (store_of (sCfg s) r)"
    using stored_result [OF ji c] ok by (simp add: hit_def job_key_def without_logs_def)
  moreover have "explained (es @ [?ev]) n (job_key j) (Some ?bi, None)"
    using bt req by (auto simp: explained_def request_of_def job_request_def built_def started_def)
  ultimately have "steps_to env es n s (Relinks j) w (s\<lparr>sPq := q2\<rparr>) (Leaves (Some ?bi, None) j) (w\<lparr>root := r\<rparr>) [?ev]"
    using q req c own(3) by (auto simp: steps_to_def)
  then show ?thesis by blast
qed

lemma leave_steps:
  assumes "site env ps busy s w" and "caller env ps busy es n s (root w) (Leaves rep j)"
  shows "\<exists>s' th' w' fs. steps_to env es n s (Leaves rep j) w s' th' w' fs"
proof -
  have "queue_effect s (Leaves rep j) (s\<lparr>sJq := Delete (sJq s) j\<rparr>) (Done rep j)"
    by (auto simp: queue_effect_def registers_def jq.taken_release)
  then have "steps_to env es n s (Leaves rep j) w (s\<lparr>sJq := Delete (sJq s) j\<rparr>) (Done rep j) w []"
    using assms by (simp add: steps_to_def file_effect_same site_def caller_def)
  then show ?thesis by blast
qed

text \<open>A call can make its next step, unless another one holds the mutex that it has to lock.\<close>

lemma thread_steps:
  assumes "site env ps busy s w" and "caller env ps busy es n s (root w) th" and "\<forall>rep j. th \<noteq> Done rep j"
    and "locking th \<longrightarrow> \<not> held (sPq s) (thread_project th)"
  shows "\<exists>s' th' w' fs. steps_to env es n s th w s' th' w' fs"
proof (cases th)
  case (Done rep j)
  then show ?thesis using assms(3) by blast
next
  case (Prepares start j)
  then show ?thesis using prepare_steps assms(1,2,4) by simp
next
  case (Links j)
  then show ?thesis using link_steps assms(1,2,4) by simp
qed (use assms(1,2) enter_steps join_steps collect_steps check_steps stage_steps build_steps move_steps relink_steps leave_steps
    in \<open>metis\<close>)+

lemma locking_blocked:
  assumes "site env ps busy s w" and "caller env ps busy es n s (root w) th" and "locking th" and "held (sPq s) (thread_project th)"
  shows "thread_step env s th w = Blocked"
proof (cases th)
  case (Prepares start j)
  have tk: "takes_job env ps (sCfg s) j" and q: "quiet w" using assms(1,2) Prepares by (simp_all add: site_def caller_def)
  obtain ds where "os_Stat (Join (projects_dir (sCfg s)) (jProject j)) w = (Inr (Dir ds), w)"
    using site_layout(2) [OF assms(1) tk tk] q by (auto simp: is_dir_iff os_simps)
  then show ?thesis
    using pq.lock_held assms(4) Prepares by (simp add: prepare_step_def BootstrapProject_def)
qed (use assms(3,4) pq.lock_held in \<open>simp_all add: link_step_def\<close>)

end
