(* ===== verification/Interleaving.thy ===== *)
theory Interleaving
  imports Concurrent
begin

text \<open>
  A server with any number of calls of \<open>Work\<close>, of which one after the other makes a step, and the
  invariant of such a system.
\<close>

section \<open>The system\<close>

text \<open>A server, the world and the calls, which are numbered in the order in which they came.\<close>

record 'd sys =
  ySrv :: "'d Server"
  yWorld :: "'d world"
  yCalls :: "thread list"

inductive sys_step :: "'d env \<Rightarrow> string set \<Rightarrow> 'd sys \<Rightarrow> 'd sys \<Rightarrow> bool" for env ps where
  call: "takes_job env ps (sCfg (ySrv y)) j \<Longrightarrow> sys_step env ps y (y\<lparr>yCalls := yCalls y @ [Enters j]\<rparr>)"
| goes: "n < length (yCalls y) \<Longrightarrow> thread_step env (ySrv y) (yCalls y ! n) (yWorld y) = Ret (s, th, w) \<Longrightarrow>
    sys_step env ps y \<lparr>ySrv = s, yWorld = w, yCalls = (yCalls y)[n := th]\<rparr>"

inductive sys_run :: "'d env \<Rightarrow> string set \<Rightarrow> 'd sys \<Rightarrow> 'd sys \<Rightarrow> bool" for env ps y0 where
  start: "sys_run env ps y0 y0"
| then_step: "sys_run env ps y0 y \<Longrightarrow> sys_step env ps y y' \<Longrightarrow> sys_run env ps y0 y'"

definition busy_of :: "thread list \<Rightarrow> build_key set" where
  "busy_of ths = {k. \<exists>n < length ths. staging (ths ! n) \<and> job_key (thread_job (ths ! n)) = k}"

definition sys_inv :: "'d env \<Rightarrow> string set \<Rightarrow> store \<Rightarrow> history \<Rightarrow> 'd sys \<Rightarrow> bool" where
  "sys_inv env ps st es y \<longleftrightarrow>
     (let s = ySrv y; w = yWorld y; ths = yCalls y in
      site env ps (busy_of ths) s w \<and>
      (\<forall>n < length ths. takes_job env ps (sCfg s) (thread_job (ths ! n)) \<and> knows_request (ths ! n) \<and> phase_ok env es n (root w) (ths ! n)) \<and>
      registered claiming thread_ID (enqueued (sJq s)) ths \<and> registered holding thread_project (held (sPq s)) ths \<and>
      store_history st es = Some (store_of (sCfg s) (root w)))"

lemma sys_inv_sel:
  assumes "sys_inv env ps st es y"
  shows "site env ps (busy_of (yCalls y)) (ySrv y) (yWorld y)"
    "n < length (yCalls y) \<Longrightarrow> takes_job env ps (sCfg (ySrv y)) (thread_job (yCalls y ! n))"
    "n < length (yCalls y) \<Longrightarrow> phase_ok env es n (root (yWorld y)) (yCalls y ! n)"
    "registered claiming thread_ID (enqueued (sJq (ySrv y))) (yCalls y)"
    "registered holding thread_project (held (sPq (ySrv y))) (yCalls y)"
    "store_history st es = Some (store_of (sCfg (ySrv y)) (root (yWorld y)))"
  using assms by (simp_all add: sys_inv_def Let_def)

lemma sys_inv_caller:
  assumes "sys_inv env ps st es y" and "n < length (yCalls y)"
  shows "caller env ps (busy_of (yCalls y)) es n (ySrv y) (root (yWorld y)) (yCalls y ! n)"
proof -
  let ?th = "yCalls y ! n"
  note I = sys_inv_sel [OF assms(1)]
  have "staging ?th" if c: "claiming ?th" and b: "job_key (thread_job ?th) \<in> busy_of (yCalls y)"
  proof -
    obtain m where m: "m < length (yCalls y)" "staging (yCalls y ! m)" "job_key (thread_job (yCalls y ! m)) = job_key (thread_job ?th)"
      using b by (auto simp: busy_of_def)
    then have "m = n"
      using registered_alone [OF I(4) m(1) assms(2) staging_claiming [OF m(2)] c] by (simp add: job_key_def)
    with m(2) show ?thesis by simp
  qed
  then show ?thesis
    using assms registered_here [OF I(4) assms(2)] registered_here [OF I(5) assms(2)]
    by (auto simp: sys_inv_def caller_def Let_def)
qed

text \<open>The step of one call keeps the invariant.\<close>

lemma busy_of_update:
  assumes "n < length ths" and "job_key (thread_job th) = job_key (thread_job (ths ! n))"
  shows "k \<noteq> job_key (thread_job th) \<Longrightarrow> k \<in> busy_of (ths[n := th]) \<longleftrightarrow> k \<in> busy_of ths"
    "staging th \<Longrightarrow> job_key (thread_job th) \<in> busy_of (ths[n := th])"
    "staging th = staging (ths ! n) \<Longrightarrow> busy_of (ths[n := th]) = busy_of ths"
  using assms by (auto simp: busy_of_def nth_list_update) (metis+)?

lemma site_step:
  assumes "sys_inv env ps st es y" and "n < length (yCalls y)"
    and "steps_to env es n (ySrv y) (yCalls y ! n) (yWorld y) s' th' w' fs"
  shows "site env ps (busy_of ((yCalls y)[n := th'])) s' w'"
proof -
  let ?th = "yCalls y ! n" and ?j = "thread_job (yCalls y ! n)" and ?busy = "busy_of (yCalls y)"
  note st = sys_inv_sel(1) [OF assms(1)]
  note ji = takes_job_in [OF sys_inv_sel(2) [OF assms(1,2)]]
  have s: "quiet w'" "sCfg s' = sCfg (ySrv y)" "file_effect env (ySrv y) (root (yWorld y)) ?th (root w') th'"
      "same_job ?j (thread_job th')"
    using assms(3) by (simp_all add: steps_to_def queue_effect_def)
  note B = busy_of_update [OF assms(2) same_job_key [OF s(4)]]
  have "project_files env (sCfg (ySrv y)) (busy_of ((yCalls y)[n := th'])) (root w') p" if "p \<in> ps" for p
  proof -
    have g: "project_files env (sCfg (ySrv y)) ?busy (root (yWorld y)) p" using st that by (simp add: site_def)
    consider "root w' = root (yWorld y)" "staging th' = staging ?th"
      | "footprint ?j (root (yWorld y)) (root w')" "staging th' \<or> lookup (root w') (jPendingBuildPath ?j) = None"
        "lookup (root w') (jReadyBuildPath ?j) = None \<or> result_at env (jReadyBuildPath ?j) (root w')"
        "success_at (jReadyBuildPath ?j) (root (yWorld y)) \<longrightarrow> success_at (jReadyBuildPath ?j) (root w')"
        "link_ok (jRootBuildPath ?j) (jGroup ?j) (root w')"
      using s(3) unfolding file_effect_def Let_def by metis
    then show ?thesis
    proof cases
      case 1
      then show ?thesis using g B(3) by simp
    next
      case 2
      show ?thesis
        by (rule footprint_files [OF ji 2(1) g]) (use B(1,2) 2(2-5) same_job_key [OF s(4)] in auto)
    qed
  qed
  then show ?thesis using st s(1,2) by (simp add: site_def)
qed

text \<open>A call that holds the mutex of its project finds the link as it has left it.\<close>

lemma link_kept:
  assumes "sys_inv env ps st es y" and "n < length (yCalls y)" and "m < length (yCalls y)" and "m \<noteq> n" and "holding (yCalls y ! m)"
    and "file_effect env (ySrv y) (root (yWorld y)) (yCalls y ! n) r' th'"
  shows "lookup r' (jLatestBuildPath (thread_job (yCalls y ! m))) = lookup (root (yWorld y)) (jLatestBuildPath (thread_job (yCalls y ! m)))"
proof -
  let ?j = "thread_job (yCalls y ! n)" and ?i = "thread_job (yCalls y ! m)"
  note I = sys_inv_sel [OF assms(1)]
  note ji = takes_job_in [OF I(2) [OF assms(2)]] takes_job_in [OF I(2) [OF assms(3)]]
  note P = job_in_paths [OF ji(1)] job_in_paths [OF ji(2)]
  consider "r' = root (yWorld y)"
    | "footprint ?j (root (yWorld y)) r'" "(jProject ?i, jGroup ?i) \<noteq> (jProject ?j, jGroup ?j)"
    | "lookup r' (jLatestBuildPath ?j) = lookup (root (yWorld y)) (jLatestBuildPath ?j)" "jProject ?i = jProject ?j" "jGroup ?i = jGroup ?j"
    | "holding (yCalls y ! n) \<or> \<not> held (sPq (ySrv y)) (jProject ?j)" "jProject ?i = jProject ?j"
    using assms(6) by (auto simp: file_effect_def Let_def)
  then show ?thesis
  proof cases
    case 2
    then show ?thesis
      using footprint_in(1) [OF 2(1) ji(1)] footprint_in(4) [OF 2(1) ji(1)] unfolding P by (cases "jProject ?i = jProject ?j") auto
  next
    case 3
    then show ?thesis unfolding P by simp
  next
    case 4
    have "held (sPq (ySrv y)) (jProject ?j)" using registered_here [OF I(5) assms(3,5)] 4(2) by simp
    then show ?thesis using 4 registered_alone [OF I(5) assms(3,2,5)] assms(4) by auto
  qed simp
qed

lemma phases_step:
  assumes "sys_inv env ps st es y" and "n < length (yCalls y)" and "m < length (yCalls y)"
    and "steps_to env es n (ySrv y) (yCalls y ! n) (yWorld y) s' th' w' fs"
  shows "phase_ok env (es @ fs) m (root w') ((yCalls y)[n := th'] ! m)"
proof (cases "m = n")
  case True
  then show ?thesis using assms(2,4) by (simp add: steps_to_def)
next
  case False
  let ?th = "yCalls y ! n" and ?u = "yCalls y ! m"
  note I = sys_inv_sel [OF assms(1)]
  have eff: "file_effect env (ySrv y) (root (yWorld y)) ?th (root w') th'" using assms(4) by (simp add: steps_to_def)
  have "phase_ok env es m (root w') ?u"
  proof (cases "root w' = root (yWorld y)")
    case True
    then show ?thesis using I(3) [OF assms(3)] by simp
  next
    case diff: False
    then have e: "claiming ?th" "footprint (thread_job ?th) (root (yWorld y)) (root w')"
      using eff by (auto simp: file_effect_def Let_def)
    show ?thesis
      by (rule phase_frame [OF I(3) [OF assms(3)] e(2) takes_job_in [OF I(2) [OF assms(2)]] takes_job_in [OF I(2) [OF assms(3)]]])
        (use registered_alone [OF I(4) assms(3,2)] e(1) False link_kept [OF assms(1-3) False _ eff] in auto)
  qed
  then show ?thesis using False phase_mono by simp
qed

lemma sys_inv_goes:
  assumes "sys_inv env ps st es y" and "n < length (yCalls y)"
    and "steps_to env es n (ySrv y) (yCalls y ! n) (yWorld y) s' th' w' fs"
  shows "sys_inv env ps st (es @ fs) \<lparr>ySrv = s', yWorld = w', yCalls = (yCalls y)[n := th']\<rparr>"
proof -
  note I = sys_inv_sel [OF assms(1)]
  have s: "queue_effect (ySrv y) (yCalls y ! n) s' th'" "same_job (thread_job (yCalls y ! n)) (thread_job th')" "knows_request th'"
      "store_history (store_of (sCfg (ySrv y)) (root (yWorld y))) fs = Some (store_of (sCfg (ySrv y)) (root w'))"
    using assms(3) by (simp_all add: steps_to_def)
  have cfg: "sCfg s' = sCfg (ySrv y)" using s(1) by (simp add: queue_effect_def)
  have "takes_job env ps (sCfg s') (thread_job ((yCalls y)[n := th'] ! m)) \<and> knows_request ((yCalls y)[n := th'] ! m)"
    if "m < length (yCalls y)" for m
    using assms(1,2) that s(2,3) same_job_takes [OF s(2)] cfg by (auto simp: sys_inv_def nth_list_update Let_def)
  moreover have "store_history st (es @ fs) = Some (store_of (sCfg s') (root w'))"
    using I(6) s(4) cfg by (simp add: store_history_append)
  ultimately show ?thesis
    using site_step [OF assms] phases_step [OF assms(1,2) _ assms(3)] s(1)
      registered_step [OF I(4) assms(2)] registered_step [OF I(5) assms(2)]
    by (simp add: sys_inv_def queue_effect_def)
qed

lemma sys_inv_call:
  assumes "sys_inv env ps st es y" and "takes_job env ps (sCfg (ySrv y)) j"
  shows "sys_inv env ps st es (y\<lparr>yCalls := yCalls y @ [Enters j]\<rparr>)"
proof -
  have "busy_of (yCalls y @ [Enters j]) = busy_of (yCalls y)"
    by (auto simp: busy_of_def nth_append less_Suc_eq)
  then show ?thesis
    using assms by (auto simp: sys_inv_def nth_append less_Suc_eq Let_def intro: registered_call)
qed

lemma sys_inv_start:
  assumes "serving env ps (s, w)"
  shows "sys_inv env ps (store_of (sCfg s) (root w)) [] \<lparr>ySrv = s, yWorld = w, yCalls = []\<rparr>"
  using assms by (auto simp: sys_inv_def serving_def site_def busy_of_def registered_Nil)

section \<open>Which calls can go on\<close>

text \<open>A call that has not returned can go on, unless it waits for a mutex that another one holds.\<close>

lemma sys_inv_can_go:
  assumes "sys_inv env ps st es y" and "n < length (yCalls y)" and "\<forall>rep j. yCalls y ! n \<noteq> Done rep j"
    and "locking (yCalls y ! n) \<longrightarrow> \<not> held (sPq (ySrv y)) (thread_project (yCalls y ! n))"
  shows "\<exists>s' th' w' fs. steps_to env es n (ySrv y) (yCalls y ! n) (yWorld y) s' th' w' fs"
  by (rule thread_steps [OF sys_inv_sel(1) [OF assms(1)] sys_inv_caller [OF assms(1,2)] assms(3,4)])

lemma sys_inv_waits:
  assumes "sys_inv env ps st es y" and "n < length (yCalls y)" and "locking (yCalls y ! n)"
    and "held (sPq (ySrv y)) (thread_project (yCalls y ! n))"
  shows "thread_step env (ySrv y) (yCalls y ! n) (yWorld y) = Blocked \<and>
     (\<exists>m < length (yCalls y). \<exists>i. yCalls y ! m = Relinks i \<and> jProject i = thread_project (yCalls y ! n) \<and>
        (\<exists>s' th' w' fs. steps_to env es m (ySrv y) (yCalls y ! m) (yWorld y) s' th' w' fs))"
proof -
  obtain m where m: "m < length (yCalls y)" "holding (yCalls y ! m)" "thread_project (yCalls y ! m) = thread_project (yCalls y ! n)"
    using registered_found [OF sys_inv_sel(5) [OF assms(1)] assms(4)] by blast
  then obtain i where i: "yCalls y ! m = Relinks i" by (cases "yCalls y ! m") auto
  then have "\<exists>s' th' w' fs. steps_to env es m (ySrv y) (yCalls y ! m) (yWorld y) s' th' w' fs"
    using sys_inv_can_go [OF assms(1) m(1)] by simp
  moreover have "jProject i = thread_project (yCalls y ! n)" using m(3) i by simp
  ultimately show ?thesis
    using m(1) i locking_blocked [OF sys_inv_sel(1) [OF assms(1)] sys_inv_caller [OF assms(1,2)] assms(3,4)] by blast
qed

lemma sys_inv_went:
  assumes "sys_inv env ps st es y" and "n < length (yCalls y)"
    and "thread_step env (ySrv y) (yCalls y ! n) (yWorld y) = Ret (s, th, w)"
  shows "\<exists>fs. steps_to env es n (ySrv y) (yCalls y ! n) (yWorld y) s th w fs"
proof -
  have "yCalls y ! n \<noteq> Done rep j" for rep j using assms(3) by (cases rep) auto
  moreover have "locking (yCalls y ! n) \<longrightarrow> \<not> held (sPq (ySrv y)) (thread_project (yCalls y ! n))"
    using sys_inv_waits [OF assms(1,2)] assms(3) by auto
  ultimately show ?thesis using sys_inv_can_go [OF assms(1,2)] assms(3) by (auto simp: steps_to_def)
qed

lemma sys_inv_no_panic:
  assumes "sys_inv env ps st es y" and "n < length (yCalls y)"
  shows "thread_step env (ySrv y) (yCalls y ! n) (yWorld y) \<noteq> Panic m"
proof (cases "locking (yCalls y ! n) \<and> held (sPq (ySrv y)) (thread_project (yCalls y ! n))")
  case True
  then show ?thesis using sys_inv_waits [OF assms] by auto
next
  case False
  show ?thesis
  proof (cases "\<exists>rep j. yCalls y ! n = Done rep j")
    case True
    then show ?thesis by auto
  next
    case nd: False
    then show ?thesis using sys_inv_can_go [OF assms] False by (auto simp: steps_to_def)
  qed
qed

lemma sys_inv_step:
  assumes "sys_inv env ps st es y" and "sys_step env ps y y'"
  shows "\<exists>fs. sys_inv env ps st (es @ fs) y'"
  using assms(2)
proof cases
  case (call j)
  then show ?thesis using sys_inv_call [OF assms(1)] by (metis append_Nil2)
next
  case (goes n s th w)
  show ?thesis using sys_inv_went [OF assms(1) goes(2,3)] sys_inv_goes [OF assms(1) goes(2)] goes(1) by blast
qed

lemma sys_inv_run:
  assumes "sys_run env ps y0 y" and "sys_inv env ps st es y0"
  shows "\<exists>fs. sys_inv env ps st (es @ fs) y"
  using assms(1)
proof induction
  case start
  show ?case using assms(2) by (metis append_Nil2)
next
  case (then_step y y')
  then show ?case using sys_inv_step by (metis append_assoc)
qed

end
