(* ===== verification/Histories.thy ===== *)
theory Histories
  imports Interleaving
begin

text \<open>
  What holds of every history of concurrent calls: the store of results is kept, every answer is
  explained by an effect on it, nothing is built twice, and all calls come to an end.
\<close>

section \<open>Calls that wait\<close>

text \<open>Somebody builds what a waiting call waits for, or it is there.\<close>

definition waits_ok :: "node \<Rightarrow> thread list \<Rightarrow> bool" where
  "waits_ok r ths \<longleftrightarrow>
     (\<forall>n < length ths. \<forall>j. ths ! n = Joins j \<longrightarrow>
        (\<exists>m < length ths. jID (thread_job (ths ! m)) = jID j \<and>
           (claiming (ths ! m) \<or> (\<exists>bi c. stored (jReadyBuildPath (thread_job (ths ! m))) bi c r))))"

text \<open>Steps of a thread, as they look to the waiting calls.\<close>

lemma joins_from:
  assumes "thread_step env s th w = Ret (s', Joins j, w')"
  shows "th = Joins j \<or> (\<exists>i. th = Enters i \<and> same_job i j \<and> enqueued (sJq s) (jID j))"
proof (cases th)
  case (Enters i)
  obtain start s1 j1 w1 where b: "work_begin s i w = (start, s1, j1, w1)" by (metis prod_cases4)
  have "j = j1" "\<not> fst (Add (sJq s1) j1)" using assms Enters b by (auto simp: enter_step_def split: prod.splits if_splits)
  then show ?thesis
    using Enters work_begin_sel [OF b] by (auto simp: jq.claim_iff same_queues_def)
next
  case (Joins i)
  then show ?thesis using assms by (auto simp: join_step_def split: prod.splits sum.splits if_splits)
qed (use assms in \<open>auto simp: collect_step_def check_step_def prepare_step_def stage_step_def build_step_def move_step_def link_step_def relink_step_def Let_def
    split: prod.splits sum.splits outcome.splits option.splits if_splits\<close>)

lemma stops_claiming:
  assumes "thread_step env s th w = Ret (s', th', w')" and "claiming th" and "\<not> claiming th'"
  shows "\<exists>rep j. th = Leaves rep j \<and> th' = Done rep j \<and> w' = w"
  using assms
  by (cases th) (auto simp: collect_step_def check_step_def prepare_step_def stage_step_def build_step_def move_step_def link_step_def relink_step_def Let_def
    split: prod.splits sum.splits outcome.splits option.splits if_splits)

text \<open>A step lowers the rank of a call, unless a waiting call waits on.\<close>

fun rank :: "thread \<Rightarrow> nat" where
  "rank (Enters j) = 10"
| "rank (Checks start j) = 9"
| "rank (Prepares start j) = 8"
| "rank (Stages start j) = 7"
| "rank (Builds start j) = 6"
| "rank (Moves err j) = 5"
| "rank (Links j) = 4"
| "rank (Relinks j) = 3"
| "rank (Leaves rep j) = 2"
| "rank (Joins j) = 2"
| "rank (Collects j) = 1"
| "rank (Done rep j) = 0"

lemma rank_step:
  assumes "thread_step env s th w = Ret (s', th', w')" and "th' \<noteq> th"
  shows "rank th' < rank th"
  using assms
  by (cases th) (auto simp: enter_step_def join_step_def collect_step_def check_step_def prepare_step_def stage_step_def build_step_def move_step_def
    link_step_def relink_step_def Let_def split: prod.splits sum.splits outcome.splits option.splits if_splits)

lemma waits_step:
  assumes "sys_inv env ps st es y" and "waits_ok (root (yWorld y)) (yCalls y)" and "n < length (yCalls y)"
    and "steps_to env es n (ySrv y) (yCalls y ! n) (yWorld y) s' th' w' fs"
  shows "waits_ok (root w') ((yCalls y)[n := th'])"
  unfolding waits_ok_def
proof (intro allI impI)
  fix k j
  let ?ths = "yCalls y" and ?ths' = "(yCalls y)[n := th']" and ?th = "yCalls y ! n"
  let ?there = "\<lambda>r th. \<exists>bi c. stored (jReadyBuildPath (thread_job th)) bi c r"
  assume k: "k < length ?ths'" "?ths' ! k = Joins j"
  have st: "thread_step env (ySrv y) ?th (yWorld y) = Ret (s', th', w')" and sj: "same_job (thread_job ?th) (thread_job th')"
    using assms(4) by (simp_all add: steps_to_def)
  note sel = same_job_sel [OF sj]
  have old: "\<exists>m < length ?ths. jID (thread_job (?ths ! m)) = jID j \<and> (claiming (?ths ! m) \<or> ?there (root (yWorld y)) (?ths ! m))"
  proof (cases "?ths ! k = Joins j")
    case True
    then show ?thesis using assms(2) k(1) by (simp add: waits_ok_def)
  next
    case False
    then have "k = n" "th' = Joins j" using k by (cases "k = n"; simp)+
    then have "enqueued (sJq (ySrv y)) (jID j)" using joins_from [of env "ySrv y" ?th "yWorld y" s' j w'] st False by auto
    then show ?thesis using registered_found [OF sys_inv_sel(4) [OF assms(1)]] by blast
  qed
  then obtain m where m: "m < length ?ths" "jID (thread_job (?ths ! m)) = jID j" "claiming (?ths ! m) \<or> ?there (root (yWorld y)) (?ths ! m)"
    by blast
  have at_n: "claiming th' \<or> ?there (root w') th'" if "claiming ?th \<or> ?there (root w') ?th"
  proof (cases "claiming ?th \<and> \<not> claiming th'")
    case True
    then obtain rep i where l: "?th = Leaves rep i" "w' = yWorld y" using stops_claiming [OF st] by blast
    have "phase_ok env es n (root (yWorld y)) ?th" by (rule sys_inv_sel(3) [OF assms(1,3)])
    then show ?thesis using l sel by simp
  next
    case False
    then show ?thesis using that sel by auto
  qed
  have "\<exists>m < length ?ths. jID (thread_job (?ths' ! m)) = jID j \<and> (claiming (?ths' ! m) \<or> ?there (root w') (?ths' ! m))"
  proof (cases "root w' = root (yWorld y)")
    case True
    then show ?thesis using m at_n sel(1) by (intro exI [of _ m]) (cases "m = n"; auto)
  next
    case False
    then have c: "claiming th'" "footprint (thread_job ?th) (root (yWorld y)) (root w')"
      using assms(4) by (auto simp: steps_to_def file_effect_def Let_def)
    show ?thesis
    proof (cases "jID (thread_job ?th) = jID j")
      case True
      then show ?thesis using c(1) assms(3) sel by (intro exI [of _ n]) simp
    next
      case other: False
      have ji: "job_in (build_dir (sCfg (ySrv y))) (thread_job ?th)" "job_in (build_dir (sCfg (ySrv y))) (thread_job (?ths ! m))"
        using sys_inv_sel(2) [OF assms(1)] assms(3) m(1) takes_job_in by blast+
      have ne: "jID (thread_job (?ths ! m)) \<noteq> jID (thread_job ?th)" using other m(2) by simp
      have "lookup (root w') (jReadyBuildPath (thread_job (?ths ! m)) @ q) = lookup (root (yWorld y)) (jReadyBuildPath (thread_job (?ths ! m)) @ q)" for q
        using footprint_in(1) [OF c(2) ji(1)] footprint_in(3) [OF c(2) ji(1) ne]
        unfolding job_in_paths(2) [OF ji(2)] by (cases "jProject (thread_job (?ths ! m)) = jProject (thread_job ?th)") simp_all
      then have "?there (root w') (?ths ! m) = ?there (root (yWorld y)) (?ths ! m)" using stored_cong by metis
      moreover have "m \<noteq> n" using ne by auto
      ultimately show ?thesis using m by (intro exI [of _ m]) simp
    qed
  qed
  then show "\<exists>m < length ?ths'. jID (thread_job (?ths' ! m)) = jID j \<and> (claiming (?ths' ! m) \<or> ?there (root w') (?ths' ! m))"
    by simp
qed

lemma waits_call: "waits_ok r ths \<Longrightarrow> waits_ok r (ths @ [Enters j])"
  unfolding waits_ok_def by (auto simp: nth_append less_Suc_eq) (metis less_SucI)

lemma waits_sys_step:
  assumes "sys_inv env ps st es y" and "waits_ok (root (yWorld y)) (yCalls y)" and "sys_step env ps y y'"
  shows "waits_ok (root (yWorld y')) (yCalls y')"
  using assms(3)
proof cases
  case (call j)
  then show ?thesis using assms(2) by (simp add: waits_call)
next
  case (goes n s th w)
  show ?thesis using sys_inv_went [OF assms(1) goes(2,3)] waits_step [OF assms(1,2) goes(2)] goes(1) by auto
qed

lemma waits_run:
  assumes "sys_run env ps y0 y" and "sys_inv env ps st es y0" and "waits_ok (root (yWorld y0)) (yCalls y0)"
  shows "waits_ok (root (yWorld y)) (yCalls y)"
  using assms(1)
proof induction
  case (then_step y y')
  then show ?case using sys_inv_run [OF _ assms(2)] waits_sys_step by metis
qed (rule assms(3))

section \<open>A concrete history\<close>

text \<open>A call that runs alone is a run of the system.\<close>

lemma thread_step_job:
  assumes "thread_step env s th w = Ret (s', th', w')"
  shows "same_job (thread_job th) (thread_job th')"
proof (cases th)
  case (Enters j)
  then show ?thesis using assms work_begin_sel by (fastforce simp: enter_step_def split: prod.splits if_splits)
next
  case (Joins j)
  then show ?thesis
    using assms by (auto simp: join_step_def split: prod.splits sum.splits if_splits)
next
  case (Collects j)
  then show ?thesis
    using assms by (auto simp: collect_step_def join_result_def Let_def split: outcome.splits prod.splits sum.splits if_splits)
next
  case (Stages start j)
  then show ?thesis
    using assms BootstrapBuildDir_job by (fastforce simp: stage_step_def Let_def split: prod.splits option.splits)
next
  case (Builds start j)
  obtain err s1 j1 w1 where b: "build_body env s j start w = (err, s1, j1, w1)" by (metis prod_cases4)
  obtain err2 j2 w2 where f: "finish_info err j1 w1 = (err2, j2, w2)" by (metis prod_cases3)
  have "thread_job th' = j2" using assms Builds b f by (auto simp: build_step_def)
  then show ?thesis using Builds same_job_trans [OF build_body_job [OF b] finish_info_job [OF f]] by simp
qed (use assms in \<open>auto simp: collect_step_def check_step_def prepare_step_def move_step_def link_step_def relink_step_def Let_def
    split: prod.splits sum.splits outcome.splits option.splits if_splits\<close>)

lemma run_alone_job:
  "run_alone env k s th w = Ret (rep, s', j, w') \<Longrightarrow> same_job (thread_job th) j"
proof (induction k arbitrary: s th w)
  case 0
  then show ?case by (cases th) auto
next
  case (Suc k)
  show ?case
  proof (cases "thread_step env s th w")
    case (Ret x)
    obtain s1 th1 w1 where x: "x = (s1, th1, w1)" by (metis prod_cases3)
    have "same_job (thread_job th1) j" using Suc run_step [OF Ret [unfolded x], of k] by simp
    then show ?thesis using same_job_trans thread_step_job [OF Ret [unfolded x]] by blast
  next
    case Blocked
    then show ?thesis using Suc.prems by (cases th) auto
  next
    case (Panic m)
    then show ?thesis using Suc.prems run_stops(1) by fastforce
  qed
qed

lemma run_alone_sys:
  assumes "run_alone env k (ySrv y) (yCalls y ! n) (yWorld y) = Ret (rep, s', j, w')" and "n < length (yCalls y)"
    and "sys_run env ps y0 y"
  shows "sys_run env ps y0 \<lparr>ySrv = s', yWorld = w', yCalls = (yCalls y)[n := Done rep j]\<rparr>"
  using assms
proof (induction k arbitrary: y)
  case 0
  then show ?case by (cases y; cases "yCalls y ! n") (auto simp: list_update_same_conv [THEN iffD2])
next
  case (Suc k)
  show ?case
  proof (cases "thread_step env (ySrv y) (yCalls y ! n) (yWorld y)")
    case (Ret x)
    obtain s1 th1 w1 where x: "x = (s1, th1, w1)" by (metis prod_cases3)
    let ?y = "\<lparr>ySrv = s1, yWorld = w1, yCalls = (yCalls y)[n := th1]\<rparr>"
    have "run_alone env k (ySrv ?y) (yCalls ?y ! n) (yWorld ?y) = Ret (rep, s', j, w')"
      using run_step [OF Ret [unfolded x], of k] Suc.prems(1,2) by simp
    moreover have "sys_run env ps y0 ?y"
      using Suc.prems(2,3) Ret x by (auto intro: sys_run.then_step sys_step.goes)
    ultimately show ?thesis using Suc.IH [of ?y] Suc.prems(2) by simp
  next
    case Blocked
    then show ?thesis using Suc.prems by (cases y; cases "yCalls y ! n") (auto simp: list_update_same_conv [THEN iffD2])
  next
    case (Panic m)
    then show ?thesis using Suc.prems(1) run_stops(1) by fastforce
  qed
qed

lemma call_alone_sys:
  assumes "sys_run env ps y0 y" and "takes_job env ps (sCfg (ySrv y)) j" and "\<not> enqueued (sJq (ySrv y)) (jID j)"
    and "Work env [] (ySrv y) j (yWorld y) = Ret (rep, s', j', w')"
  shows "sys_run env ps y0 \<lparr>ySrv = s', yWorld = w', yCalls = yCalls y @ [Done rep j']\<rparr> \<and> same_job j j'"
proof -
  let ?y = "y\<lparr>yCalls := yCalls y @ [Enters j]\<rparr>"
  have "sys_run env ps y0 ?y" using assms(1,2) by (auto intro: sys_run.then_step sys_step.call)
  moreover have "run_alone env (0 + 9) (ySrv ?y) (yCalls ?y ! length (yCalls y)) (yWorld ?y) = Ret (rep, s', j', w')"
    using run_uninterrupted [OF assms(3), of env "[]" "yWorld y" 0] assms(4) by simp
  ultimately show ?thesis
    using run_alone_sys [of env "0 + 9" ?y "length (yCalls y)"] run_alone_job [of env "0 + 9" "ySrv y" "Enters j" "yWorld y"] by simp
qed

text \<open>Two requests that are served one after the other.\<close>

lemma two_calls:
  assumes "serving env ps (s, w)" and "takes_job env ps (sCfg s) i" and "takes_job env ps (sCfg s) k"
  shows "\<exists>y a b i' k' st. sys_run env ps \<lparr>ySrv = s, yWorld = w, yCalls = []\<rparr> y \<and> yCalls y = [Done a i', Done b k'] \<and>
     job_key i' = job_key i \<and> job_key k' = job_key k \<and>
     store_request (store_of (sCfg s) (root w)) (job_key i) a = Some st \<and>
     store_request st (job_key k) b = Some (store_of (sCfg (ySrv y)) (root (yWorld y))) \<and>
     (\<exists>s1 w1. Work env [] s i w = Ret (a, s1, i', w1))"
proof -
  let ?y0 = "\<lparr>ySrv = s, yWorld = w, yCalls = []\<rparr>"
  obtain a s1 i' w1 where A: "Work env [] s i w = Ret (a, s1, i', w1)" "serving env ps (s1, w1)"
      "store_request (store_of (sCfg s) (root w)) (job_key i) a = Some (store_of (sCfg s) (root w1))"
    using serve_work_step [of env ps s w i] assms(1,2) by (simp only: fst_conv) blast
  have c1: "sCfg s1 = sCfg s" using Work_gives_back [OF A(1)] by blast
  obtain b s2 k' w2 where B: "Work env [] s1 k w1 = Ret (b, s2, k', w2)"
      "store_request (store_of (sCfg s) (root w1)) (job_key k) b = Some (store_of (sCfg s) (root w2))"
    using serve_work_step [of env ps s1 w1 k] A(2) assms(3) c1 by (simp only: fst_conv) blast
  have c2: "sCfg s2 = sCfg s" using Work_gives_back [OF B(1)] c1 by simp
  have r1: "sys_run env ps ?y0 \<lparr>ySrv = s1, yWorld = w1, yCalls = [Done a i']\<rparr>" "same_job i i'"
    using call_alone_sys [OF sys_run.start, of env ps ?y0 i a s1 i' w1] A(1) assms(1,2) by (simp_all add: serving_def)
  have r2: "sys_run env ps ?y0 \<lparr>ySrv = s2, yWorld = w2, yCalls = [Done a i', Done b k']\<rparr>" "same_job k k'"
    using call_alone_sys [OF r1(1), of k b s2 k' w2] B(1) assms(3) A(2) c1 by (simp_all add: serving_def)
  show ?thesis
    using A(1,3) B(2) c2 r2(1) same_job_key [OF r1(2)] same_job_key [OF r2(2)]
    by (intro exI [of _ "\<lparr>ySrv = s2, yWorld = w2, yCalls = [Done a i', Done b k']\<rparr>"] exI [of _ a] exI [of _ b] exI [of _ i']
        exI [of _ k'] exI [of _ "store_of (sCfg s) (root w1)"]) auto
qed

text \<open>A job of a group is built, and then requested again, or followed by the next job of its group.\<close>

lemma demo_history:
  assumes "k \<in> {demo_job ''g'', demo_second}"
  shows "\<exists>y a i b eb j. sys_run (demo_env 0) {''app''} \<lparr>ySrv = demo_server, yWorld = demo_world demo_tree, yCalls = []\<rparr> y \<and>
     yCalls y = [Done (Some a, None) i, Done (Some b, eb) j] \<and> job_key i = (''app'', ''abcdef01'') \<and> job_key j = job_key k \<and>
     \<not> bCached a \<and> \<not> bCoalesced a \<and> bExitCode a = 0"
proof -
  have tk: "takes_job (demo_env 0) {''app''} (sCfg demo_server) (demo_job ''g'')" "takes_job (demo_env 0) {''app''} (sCfg demo_server) k"
    using demo_admits assms by auto
  obtain y a' b' i j where y: "sys_run (demo_env 0) {''app''} \<lparr>ySrv = demo_server, yWorld = demo_world demo_tree, yCalls = []\<rparr> y"
      "yCalls y = [Done a' i, Done b' j]" "job_key i = job_key (demo_job ''g'')" "job_key j = job_key k"
    and b: "\<exists>st. store_request st (job_key k) b' \<noteq> None"
    and W: "\<exists>s1 w1. Work (demo_env 0) [] demo_server (demo_job ''g'') (demo_world demo_tree) = Ret (a', s1, i, w1)"
    using two_calls [OF demo_serving tk] by (metis option.distinct(1))
  obtain a where a: "a' = (Some a, None)" "bExitCode a = 0" "request_of a = job_request (demo_job ''g'')"
    using Work_builds [of "demo_env 0" demo_server "demo_job ''g''" "demo_world demo_tree" "[]" False 0] demo_group_can_build
      demo_not_ready demo_docker_ends [of 0] W by fastforce
  then have "\<not> bCached a" "\<not> bCoalesced a" by (simp_all add: request_of_def job_request_def)
  moreover obtain b1 eb where "b' = (Some b1, eb)" using b by (cases b'; cases "fst b'") (auto simp: store_request_def)
  moreover have "job_key (demo_job ''g'') = (''app'', ''abcdef01'')" by (simp add: job_key_def)
  ultimately show ?thesis using y(1,2) a(1,2) y(3) y(4) by metis
qed

section \<open>Histories\<close>

text \<open>
  C4. Concurrent calls keep the store of results. From every state in which the server is idle
  and its files are in order, let any number of calls of \<open>Work\<close>, with and without groups, come in
  and proceed step by step, interleaved in any order. Then the files stand at all times for a
  store that a history of effects leads to: builds are published only where there is none, only
  failed ones are forgotten, only stored successes are served and become the latest ones, and
  a build of a group starts from what is its latest build at that moment. Every call that has
  returned is explained by its own effects in this history: it got the stored result, or the exit
  code of a stored build it waited for, or an error because that build, which had failed, was
  removed to be repeated before it was read, or it published the build it returns, which is
  incremental if it started from another one, and made it the latest one if it was successful.
  A call that has not returned can go on, or it waits for the mutex of its project; then another
  call is about to give the mutex back and can go on. No call panics, whatever the Docker daemon
  does. When all calls have returned, the server is idle and its files are in order.
\<close>

theorem concurrent_refines_store:
  assumes "serving env ps (s, w)" and "sys_run env ps \<lparr>ySrv = s, yWorld = w, yCalls = []\<rparr> y"
  shows "\<exists>es. store_history (store_of (sCfg s) (root w)) es = Some (store_of (sCfg (ySrv y)) (root (yWorld y))) \<and>
     (\<forall>n < length (yCalls y).
        case yCalls y ! n of
          Done rep j \<Rightarrow> explained es n (job_key j) rep
        | th \<Rightarrow> (\<exists>s' th' w'. thread_step env (ySrv y) th (yWorld y) = Ret (s', th', w')) \<or>
            thread_step env (ySrv y) th (yWorld y) = Blocked \<and>
            (\<exists>i s' th' w'. Relinks i \<in> set (yCalls y) \<and> jProject i = thread_project th \<and>
               thread_step env (ySrv y) (Relinks i) (yWorld y) = Ret (s', th', w'))) \<and>
     ((\<forall>th \<in> set (yCalls y). \<exists>rep j. th = Done rep j) \<longrightarrow> serving env ps (ySrv y, yWorld y))"
proof -
  obtain es where inv: "sys_inv env ps (store_of (sCfg s) (root w)) es y"
    using sys_inv_run [OF assms(2) sys_inv_start [OF assms(1)]] by auto
  note I = sys_inv_sel [OF inv]
  let ?goes = "\<lambda>th. \<exists>s' th' w'. thread_step env (ySrv y) th (yWorld y) = Ret (s', th', w')"
  let ?waits = "\<lambda>th. thread_step env (ySrv y) th (yWorld y) = Blocked \<and>
      (\<exists>i s' th' w'. Relinks i \<in> set (yCalls y) \<and> jProject i = thread_project th \<and>
         thread_step env (ySrv y) (Relinks i) (yWorld y) = Ret (s', th', w'))"
  have "case yCalls y ! n of Done rep j \<Rightarrow> explained es n (job_key j) rep | th \<Rightarrow> ?goes th \<or> ?waits th"
    if n: "n < length (yCalls y)" for n
  proof (cases "\<exists>rep j. yCalls y ! n = Done rep j")
    case True
    then show ?thesis using I(3) [OF n] by auto
  next
    case False
    have "?goes (yCalls y ! n) \<or> ?waits (yCalls y ! n)"
    proof (cases "locking (yCalls y ! n) \<and> held (sPq (ySrv y)) (thread_project (yCalls y ! n))")
      case True
      then show ?thesis using sys_inv_waits [OF inv n] nth_mem unfolding steps_to_def by metis
    next
      case free: False
      then show ?thesis using sys_inv_can_go [OF inv n] False unfolding steps_to_def by blast
    qed
    then show ?thesis using False by (cases "yCalls y ! n") simp_all
  qed
  moreover have "serving env ps (ySrv y, yWorld y)" if fin: "\<forall>th \<in> set (yCalls y). \<exists>rep j. th = Done rep j"
  proof -
    have no: "\<not> claiming (yCalls y ! n)" "\<not> holding (yCalls y ! n)" if "n < length (yCalls y)" for n
      using fin that nth_mem [OF that] by fastforce+
    have "busy_of (yCalls y) = {}" unfolding busy_of_def using no(1) staging_claiming by blast
    moreover have "\<forall>i. \<not> enqueued (sJq (ySrv y)) i" using registered_found [OF I(4)] no(1) by blast
    moreover have "\<forall>p. \<not> held (sPq (ySrv y)) p" using registered_found [OF I(5)] no(2) by blast
    ultimately show ?thesis using I(1) by (simp add: serving_def site_def)
  qed
  ultimately show ?thesis using I(6) by blast
qed

theorem concurrent_refines_store_witness:
  "\<exists>y es a i rep j. sys_run (demo_env 0) {''app''} \<lparr>ySrv = demo_server, yWorld = demo_world demo_tree, yCalls = []\<rparr> y \<and>
     yCalls y = [Done (Some a, None) i, Done rep j] \<and> job_key i = (''app'', ''abcdef01'') \<and>
     store_history (store_of demo_config demo_tree) es = Some (store_of (sCfg (ySrv y)) (root (yWorld y))) \<and>
     explained es 0 (job_key i) (Some a, None) \<and> explained es 1 (''app'', ''abcdef02'') rep \<and>
     serving (demo_env 0) {''app''} (ySrv y, yWorld y)"
proof -
  obtain y a i b eb j where y: "sys_run (demo_env 0) {''app''} \<lparr>ySrv = demo_server, yWorld = demo_world demo_tree, yCalls = []\<rparr> y"
      "yCalls y = [Done (Some a, None) i, Done (Some b, eb) j]" "job_key i = (''app'', ''abcdef01'')" "job_key j = job_key demo_second"
    using demo_history [of demo_second] by blast
  obtain es where "store_history (store_of demo_config demo_tree) es = Some (store_of (sCfg (ySrv y)) (root (yWorld y)))"
      "explained es 0 (job_key i) (Some a, None)" "explained es 1 (job_key j) (Some b, eb)"
      "serving (demo_env 0) {''app''} (ySrv y, yWorld y)"
    using concurrent_refines_store [OF demo_serving y(1)] y(2) by (fastforce simp: less_Suc_eq)
  moreover have "job_key demo_second = (''app'', ''abcdef02'')" by (simp add: job_key_def)
  ultimately show ?thesis using y by metis
qed

text \<open>
  C5. No job is built twice: when, under the same conditions, a call has built a job with exit
  code 0, every other call for the same project and ID, whether it came before, at the same time
  or later, is answered from the cache, has waited for a build, or does not end with exit code 0.
\<close>

theorem concurrent_builds_once:
  assumes "serving env ps (s, w)" and "sys_run env ps \<lparr>ySrv = s, yWorld = w, yCalls = []\<rparr> y"
    and "m < length (yCalls y)" and "n < length (yCalls y)" and "m \<noteq> n"
    and "yCalls y ! m = Done (Some a, ea) i" and "yCalls y ! n = Done (Some b, eb) j" and "job_key i = job_key j"
    and "\<not> bCached a" and "\<not> bCoalesced a" and "bExitCode a = 0"
  shows "bCached b \<or> bCoalesced b \<or> bExitCode b \<noteq> 0"
proof (rule ccontr)
  assume b: "\<not> ?thesis"
  obtain es where inv: "sys_inv env ps (store_of (sCfg s) (root w)) es y"
    using sys_inv_run [OF assms(2) sys_inv_start [OF assms(1)]] by auto
  have "explained es m (job_key j) (Some a, ea)" "explained es n (job_key j) (Some b, eb)"
    using sys_inv_sel(3) [OF inv assms(3)] sys_inv_sel(3) [OF inv assms(4)] assms(6-8) by simp_all
  then have "(m, Publishes (job_key j) (kept_info a)) \<in> set es" "(n, Publishes (job_key j) (kept_info b)) \<in> set es"
    using explained_success assms(9-11) b by blast+
  moreover have "store_history (store_of (sCfg s) (root w)) es = Some (store_of (sCfg (ySrv y)) (root (yWorld y)))"
    by (rule sys_inv_sel(6) [OF inv])
  ultimately show False using store_publishes_once assms(5,11) b by (metis kept_info_sel(1))
qed

theorem concurrent_builds_once_witness:
  "\<exists>y a i b eb j. sys_run (demo_env 0) {''app''} \<lparr>ySrv = demo_server, yWorld = demo_world demo_tree, yCalls = []\<rparr> y \<and>
     yCalls y = [Done (Some a, None) i, Done (Some b, eb) j] \<and> (bCached b \<or> bCoalesced b \<or> bExitCode b \<noteq> 0)"
proof -
  obtain y a i b eb j where y: "sys_run (demo_env 0) {''app''} \<lparr>ySrv = demo_server, yWorld = demo_world demo_tree, yCalls = []\<rparr> y"
      "yCalls y = [Done (Some a, None) i, Done (Some b, eb) j]" "job_key i = job_key j" "\<not> bCached a" "\<not> bCoalesced a" "bExitCode a = 0"
    using demo_history [of "demo_job ''g''"] by (auto simp: job_key_def)
  then show ?thesis using concurrent_builds_once [OF demo_serving y(1), of 0 1 a None i b eb j] by auto
qed


lemma demo_incremental:
  "\<exists>y a b err j. sys_run (demo_env 0) {''app''} \<lparr>ySrv = demo_server, yWorld = demo_world demo_tree, yCalls = []\<rparr> y \<and>
     yCalls y = [a, Done (Some b, err) j] \<and> jProject j = ''app'' \<and> bIncremental b \<and> \<not> bCached b \<and> \<not> bCoalesced b \<and>
     bExitCode b \<noteq> ContainerPendingExitCode"
proof -
  let ?y0 = "\<lparr>ySrv = demo_server, yWorld = demo_world demo_tree, yCalls = []\<rparr>"
  obtain a s1 i' w1 where A: "Work (demo_env 0) [] demo_server (demo_job ''g'') (demo_world demo_tree) = Ret ((Some a, None), s1, i', w1)"
      "bExitCode a = 0" "lookup demo_tree (jPendingBuildPath demo_second) = None" "lookup demo_tree (jReadyBuildPath demo_second) = None"
    using demo_follows by blast
  obtain b err s2 k' w2 where B: "Work (demo_env 0) [] s1 demo_second w1 = Ret ((Some b, err), s2, k', w2)" "bIncremental b"
      "request_of b = job_request demo_second" "bExitCode b = 0"
    using sibling_builds [OF _ _ _ _ demo_keeps_dirs demo_cp_copies A(1,2), of demo_second "[]" False 0] A demo_docker_ends [of 0]
      demo_group_can_build demo_not_ready demo_siblings by fastforce
  have c1: "sCfg s1 = demo_config" "\<not> enqueued (sJq s1) (jID demo_second)"
    using Work_gives_back [OF A(1)] by (auto simp: jq.taken_empty)
  have r1: "sys_run (demo_env 0) {''app''} ?y0 \<lparr>ySrv = s1, yWorld = w1, yCalls = [Done (Some a, None) i']\<rparr>"
    using call_alone_sys [OF sys_run.start, of "demo_env 0" "{''app''}" ?y0 "demo_job ''g''" "(Some a, None)" s1 i' w1] A(1) demo_admits
    by (simp add: jq.taken_empty)
  have "sys_run (demo_env 0) {''app''} ?y0 \<lparr>ySrv = s2, yWorld = w2, yCalls = [Done (Some a, None) i', Done (Some b, err) k']\<rparr>"
      "same_job demo_second k'"
    using call_alone_sys [OF r1, of demo_second "(Some b, err)" s2 k' w2] B(1) demo_admits c1 by simp_all
  then show ?thesis
    using B(2-4) by (fastforce simp: request_of_def job_request_def same_job_sel ContainerPendingExitCode_def)
qed


section \<open>All calls come to an end\<close>

text \<open>A number of steps of the calls that are there, other than those of a call that waits on.\<close>

inductive sys_works :: "'d env \<Rightarrow> nat \<Rightarrow> 'd sys \<Rightarrow> 'd sys \<Rightarrow> bool" for env where
  rests: "sys_works env 0 y y"
| works: "sys_works env k y0 y \<Longrightarrow> n < length (yCalls y) \<Longrightarrow>
    thread_step env (ySrv y) (yCalls y ! n) (yWorld y) = Ret (s, th, w) \<Longrightarrow> th \<noteq> yCalls y ! n \<Longrightarrow>
    sys_works env (Suc k) y0 \<lparr>ySrv = s, yWorld = w, yCalls = (yCalls y)[n := th]\<rparr>"

lemma works_run:
  assumes "sys_works env k y y'" and "sys_run env ps y0 y"
  shows "sys_run env ps y0 y'"
  using assms by induction (auto intro: sys_run.then_step sys_step.goes)

lemma sum_list_update_less:
  fixes f :: "'a \<Rightarrow> nat"
  assumes "n < length xs" and "f x < f (xs ! n)"
  shows "sum_list (map f (xs[n := x])) < sum_list (map f xs)"
  using assms
proof (induction xs arbitrary: n)
  case (Cons a xs)
  then show ?case by (cases n) auto
qed simp

lemma works_rank:
  assumes "sys_works env k y y'"
  shows "k + sum_list (map rank (yCalls y')) \<le> sum_list (map rank (yCalls y)) \<and> length (yCalls y') = length (yCalls y)"
  using assms
proof induction
  case (works k y0 y n s th w)
  have "rank th < rank (yCalls y ! n)" using rank_step works.hyps(3,4) by blast
  then have "sum_list (map rank ((yCalls y)[n := th])) < sum_list (map rank (yCalls y))"
    by (rule sum_list_update_less [OF works.hyps(2)])
  then show ?case using works.IH by simp
qed simp

lemma rank_le: "rank th \<le> 10"
  by (cases th) simp_all

lemma moves_on:
  assumes "thread_step env s th w = Ret (s', th', w')" and "\<forall>j. th \<noteq> Joins j"
  shows "th' \<noteq> th"
  using assms
  by (cases th) (auto simp: enter_step_def collect_step_def check_step_def prepare_step_def stage_step_def build_step_def move_step_def
    link_step_def relink_step_def Let_def split: prod.splits sum.splits outcome.splits option.splits if_splits)

lemma joins_stored:
  assumes "quiet w" and "stored (jReadyBuildPath j) bi c (root w)"
  shows "thread_step env s (Joins j) w = Ret (s, Collects j, w)"
proof -
  obtain ds where "lookup (root w) (jReadyBuildPath j) = Some (Dir ds)" using stored_dir [OF assms(2)] by blast
  then show ?thesis using assms(1) by (simp add: join_step_def os_simps)
qed

lemma somebody_works:
  assumes "sys_inv env ps st es y" and "waits_ok (root (yWorld y)) (yCalls y)"
    and "\<forall>a \<in> set (yCalls y). \<forall>b \<in> set (yCalls y).
      jID (thread_job a) = jID (thread_job b) \<longrightarrow> jProject (thread_job a) = jProject (thread_job b)"
    and "th \<in> set (yCalls y)" and "\<forall>rep j. th \<noteq> Done rep j"
  shows "\<exists>y'. sys_works env 1 y y'"
proof -
  have works: "\<exists>y'. sys_works env 1 y y'"
    if "n < length (yCalls y)" "thread_step env (ySrv y) (yCalls y ! n) (yWorld y) = Ret (s, t, w)" "t \<noteq> yCalls y ! n" for n s t w
    using sys_works.works [OF sys_works.rests that] by auto
  obtain n where n: "n < length (yCalls y)" "yCalls y ! n = th" using assms(4) by (auto simp: in_set_conv_nth)
  have builds: "\<exists>y'. sys_works env 1 y y'"
    if m: "m < length (yCalls y)" "\<forall>rep j. yCalls y ! m \<noteq> Done rep j" "\<forall>j. yCalls y ! m \<noteq> Joins j" for m
  proof -
    obtain k s t w where k: "k < length (yCalls y)" "thread_step env (ySrv y) (yCalls y ! k) (yWorld y) = Ret (s, t, w)"
        "\<forall>j. yCalls y ! k \<noteq> Joins j"
    proof (cases "locking (yCalls y ! m) \<and> held (sPq (ySrv y)) (thread_project (yCalls y ! m))")
      case True
      then obtain k i where "k < length (yCalls y)" "yCalls y ! k = Relinks i"
          "\<exists>s t w fs. steps_to env es k (ySrv y) (yCalls y ! k) (yWorld y) s t w fs"
        using sys_inv_waits [OF assms(1) m(1)] by blast
      then show thesis using that [of k] by (auto simp: steps_to_def)
    next
      case False
      then show thesis using sys_inv_can_go [OF assms(1) m(1,2)] that [OF m(1) _ m(3)] unfolding steps_to_def by blast
    qed
    then show ?thesis using works [OF k(1,2)] moves_on [OF k(2,3)] by blast
  qed
  show ?thesis
  proof (cases "\<exists>j. th = Joins j")
    case False
    then show ?thesis using builds [OF n(1)] n(2) assms(5) by simp
  next
    case True
    then obtain j where j: "yCalls y ! n = Joins j" using n(2) by blast
    obtain m where m: "m < length (yCalls y)" "jID (thread_job (yCalls y ! m)) = jID j"
        "claiming (yCalls y ! m) \<or> (\<exists>bi c. stored (jReadyBuildPath (thread_job (yCalls y ! m))) bi c (root (yWorld y)))"
      using assms(2) n(1) j unfolding waits_ok_def by blast
    show ?thesis
    proof (cases "claiming (yCalls y ! m)")
      case True
      then have "\<forall>rep j. yCalls y ! m \<noteq> Done rep j" "\<forall>j. yCalls y ! m \<noteq> Joins j" by auto
      then show ?thesis by (rule builds [OF m(1)])
    next
      case False
      then obtain bi c where b: "stored (jReadyBuildPath (thread_job (yCalls y ! m))) bi c (root (yWorld y))" using m(3) by blast
      have "jProject (thread_job (yCalls y ! m)) = jProject j"
        using assms(3) nth_mem [OF m(1)] nth_mem [OF n(1)] m(2) j by fastforce
      moreover have "takes_job env ps (sCfg (ySrv y)) (thread_job (yCalls y ! m))" "takes_job env ps (sCfg (ySrv y)) j" "quiet (yWorld y)"
        using sys_inv_sel(1,2) [OF assms(1)] m(1) n(1) j by (fastforce simp: site_def)+
      ultimately have "jReadyBuildPath (thread_job (yCalls y ! m)) = jReadyBuildPath j" "quiet (yWorld y)"
        using m(2) by (simp_all add: takes_job_def wf_job_def)
      then have "thread_step env (ySrv y) (yCalls y ! n) (yWorld y) = Ret (ySrv y, Collects j, yWorld y)"
        using joins_stored [of "yWorld y" j bi c env "ySrv y"] b j by auto
      then show ?thesis using works [OF n(1)] j by simp
    qed
  qed
qed



end
