(* ===== verification/Serve.thy ===== *)
theory Serve
  imports Reads Web_View Histories
begin

text \<open>
  The running daemon: the routes of \<open>NewServer\<close> and the dispatch of \<open>net/http\<close>
  (\<open>cmd/mistryd/server.go\<close>), and everything that \<open>ListenAndServe\<close> sets going at the same time on one
  server and one file system: connections, the workers of the pool with their calls of \<open>Work\<close>
  cut into steps, the broker, and the recording of hosted builds.
\<close>

section \<open>Routes\<close>

datatype route = Files | New_Job | Index | Show_Job | Server_Push | Prometheus

definition routes :: "(string \<times> route) list" where
  "routes = [(''/'', Files), (''/jobs'', New_Job), (''/index/'', Index), (''/job/'', Show_Job),
     (''/log/'', Server_Push), (''/metrics'', Prometheus)]"

text \<open>
  \<open>http.ServeMux\<close>: a pattern that ends in a slash matches all paths below it, any other pattern
  itself; the longest one that matches is taken. A path is cleaned first, with a redirect if that
  changes it, and a path whose pattern has a further slash is redirected there. \<open>CONNECT\<close> requests
  are not cleaned.
\<close>

definition pattern_matches :: "string \<Rightarrow> string \<Rightarrow> bool" where
  "pattern_matches pat p = (if last pat = CHR ''/'' then prefix pat p else p = pat)"

fun longest_match :: "(string \<times> 'h) list \<Rightarrow> string \<Rightarrow> (string \<times> 'h) option" where
  "longest_match [] p = None"
| "longest_match ((pat, h) # ps) p =
     (case longest_match ps p of
        None \<Rightarrow> if pattern_matches pat p then Some (pat, h) else None
      | Some (pat', h') \<Rightarrow>
          if pattern_matches pat p \<and> length pat' < length pat then Some (pat, h) else Some (pat', h'))"

definition clean_url :: "string \<Rightarrow> string" where
  "clean_url p =
     (let np = path_string (fpath p)
      in if p \<noteq> [] \<and> last p = CHR ''/'' \<and> np \<noteq> ''/'' then np @ ''/'' else np)"

datatype dispatch = Redirect string | Handled route | Not_Found

definition mux_handler :: "string \<Rightarrow> string \<Rightarrow> dispatch" where
  "mux_handler meth url =
     (let p = (if meth = ''CONNECT'' then url else clean_url url)
      in if p \<noteq> [] \<and> map_of routes p = None \<and> map_of routes (p @ ''/'') \<noteq> None then Redirect (p @ ''/'')
         else if p \<noteq> url then Redirect p
         else case longest_match routes p of Some (_, h) \<Rightarrow> Handled h | None \<Rightarrow> Not_Found)"

section \<open>A request\<close>

text \<open>
  What answers requests outside the sources: the file server over the embedded files, the handler
  of Prometheus, the page that \<open>html/template\<close> renders, and whether connections can be flushed.
\<close>

record web =
  webFiles :: "request \<Rightarrow> ResponseWriter \<Rightarrow> ResponseWriter"
  webMetrics :: "request \<Rightarrow> ResponseWriter \<Rightarrow> ResponseWriter"
  webPage :: "Job \<Rightarrow> goerr + string"
  webFlusher :: bool

text \<open>
  A connection: redirected, answered, waiting for the future of its job, following a log,
  answered with the result of its job, or closed after a panic of its handler, which \<open>net/http\<close>
  recovers from.
\<close>

datatype conn =
    Moved string
  | Answers ResponseWriter
  | Waits_For Job nat ResponseWriter
  | Follows nat ResponseWriter
  | Replied Job WorkResult ResponseWriter
  | Dropped

definition ServeHTTP ::
  "'d env \<Rightarrow> web \<Rightarrow> 'd HttpServer \<Rightarrow> request \<Rightarrow> 'd world \<Rightarrow> (conn \<times> 'd HttpServer \<times> 'd world) outcome" where
  "ServeHTTP env web s q w =
     (let rw = NewResponseWriter;
          view = (\<lambda>h. case h of
                    Ret (rw, w) \<Rightarrow> Ret (Answers rw, s, w) | Blocked \<Rightarrow> Blocked | Panic m \<Rightarrow> Panic m)
      in case mux_handler (qMethod q) (qPath q) of
           Redirect url \<Rightarrow> Ret (Moved url, s, w)
         | Not_Found \<Rightarrow> Ret (Answers (http_Error ''404 page not found'' 404 rw), s, w)
         | Handled Files \<Rightarrow> Ret (Answers (webFiles web q rw), s, w)
         | Handled Prometheus \<Rightarrow> Ret (Answers (webMetrics web q rw), s, w)
         | Handled Index \<Rightarrow> view (HandleIndex (Server.truncate s) q rw w)
         | Handled Show_Job \<Rightarrow> view (HandleShowJob (webPage web) (Server.truncate s) q rw w)
         | Handled New_Job \<Rightarrow>
             (case schedule_job env s q rw w of
                Ret (Answered rw, s, w) \<Rightarrow> Ret (Answers rw, s, w)
              | Ret (Awaits j future rw, s, w) \<Rightarrow> Ret (Waits_For j future rw, s, w)
              | Blocked \<Rightarrow> Blocked
              | Panic m \<Rightarrow> Panic m)
         | Handled Server_Push \<Rightarrow>
             (case HandleServerPush (webFlusher web) s q rw w of
                Ret (Ended rw, s, w) \<Rightarrow> Ret (Answers rw, s, w)
              | Ret (Streams c rw, s, w) \<Rightarrow> Ret (Follows c rw, s, w)
              | Blocked \<Rightarrow> Blocked
              | Panic m \<Rightarrow> Panic m))"

section \<open>The daemon\<close>

text \<open>
  The calls of \<open>Work\<close> are numbered in the order in which the workers make them; \<open>dTask\<close> tells which
  call a worker is in.
\<close>

record 'd daemon =
  dSrv :: "'d HttpServer"
  dWorld :: "'d world"
  dConns :: "conn list"
  dCalls :: "thread list"
  dTask :: "nat \<rightharpoonup> nat"

text \<open>
  What happens next: a request comes in; a worker receives from the queue, calls \<open>Work\<close>, goes a
  step, or returns from it; a handler gets the result it waits for; a browser that follows a log
  goes away; a tailer finds a line; the hosted builds are recorded.
\<close>

datatype daemon_event =
    Gets request | Takes nat | Begins nat | Goes nat | Ends nat | Replies nat | Hangs_Up nat | Tails nat string | Counts

definition with_server :: "'d HttpServer \<Rightarrow> 'd Server \<Rightarrow> 'd HttpServer" where
  "with_server s t = s\<lparr>sCfg := sCfg t, sJq := sJq t, sPq := sPq t, sMetrics := sMetrics t\<rparr>"

fun lift_outcome :: "('a \<Rightarrow> 'b) \<Rightarrow> 'a outcome \<Rightarrow> 'b outcome" where
  "lift_outcome f (Ret x) = Ret (f x)"
| "lift_outcome f Blocked = Blocked"
| "lift_outcome f (Panic m) = Panic m"

definition pool_then :: "'d daemon \<Rightarrow> WorkerPool outcome \<Rightarrow> 'd daemon outcome" where
  "pool_then d = lift_outcome (\<lambda>p. d\<lparr>dSrv := (dSrv d)\<lparr>sPool := p\<rparr>\<rparr>)"

definition broker_then :: "'d daemon \<Rightarrow> Broker outcome \<Rightarrow> 'd daemon outcome" where
  "broker_then d = lift_outcome (\<lambda>br. d\<lparr>dSrv := (dSrv d)\<lparr>sBr := br\<rparr>\<rparr>)"

fun daemon_step :: "'d env \<Rightarrow> web \<Rightarrow> daemon_event \<Rightarrow> 'd daemon \<Rightarrow> 'd daemon outcome" where
  "daemon_step env web (Gets q) d =
     (case ServeHTTP env web (dSrv d) q (dWorld d) of
        Ret (c, s, w) \<Rightarrow> Ret (d\<lparr>dSrv := s, dWorld := w, dConns := dConns d @ [c]\<rparr>)
      | Blocked \<Rightarrow> Blocked
      | Panic m \<Rightarrow> Ret (d\<lparr>dConns := dConns d @ [Dropped]\<rparr>))"
| "daemon_step env web (Takes i) d = pool_then d (work_receive i (sPool (dSrv d)))"
| "daemon_step env web (Begins i) d =
     (if i < length (pWorkers (sPool (dSrv d))) \<and> dTask d i = None then
        (case pWorkers (sPool (dSrv d)) ! i of
           Busy item \<Rightarrow> Ret (d\<lparr>dCalls := dCalls d @ [Enters (wiJob item)], dTask := (dTask d)(i \<mapsto> length (dCalls d))\<rparr>)
         | _ \<Rightarrow> Blocked)
      else Blocked)"
| "daemon_step env web (Goes i) d =
     (case dTask d i of
        None \<Rightarrow> Blocked
      | Some n \<Rightarrow>
          (case thread_step env (Server.truncate (dSrv d)) (dCalls d ! n) (dWorld d) of
             Ret (s, th, w) \<Rightarrow> Ret (d\<lparr>dSrv := with_server (dSrv d) s, dWorld := w, dCalls := (dCalls d)[n := th]\<rparr>)
           | Blocked \<Rightarrow> Blocked
           | Panic m \<Rightarrow> Panic m))"
| "daemon_step env web (Ends i) d =
     (case dTask d i of
        None \<Rightarrow> Blocked
      | Some n \<Rightarrow>
          (case dCalls d ! n of
             Done (bi, err) j \<Rightarrow>
               pool_then (d\<lparr>dTask := (dTask d)(i := None)\<rparr>)
                 (work_finish i \<lparr>wrBuildInfo = bi, wrErr = err\<rparr> (sPool (dSrv d)))
           | _ \<Rightarrow> Blocked))"
| "daemon_step env web (Replies k) d =
     (if k < length (dConns d) then
        (case dConns d ! k of
           Waits_For j future rw \<Rightarrow>
             (case FutureWorkResult_Wait future (sPool (dSrv d)) of
                Ret (r, p) \<Rightarrow>
                  Ret (d\<lparr>dSrv := (dSrv d)\<lparr>sPool := p\<rparr>, dConns := (dConns d)[k := Replied j r (writeWorkResult j r rw)]\<rparr>)
              | Blocked \<Rightarrow> Blocked
              | Panic m \<Rightarrow> Ret (d\<lparr>dConns := (dConns d)[k := Dropped]\<rparr>))
         | _ \<Rightarrow> Blocked)
      else Blocked)"
| "daemon_step env web (Hangs_Up k) d =
     (if k < length (dConns d) then
        (case dConns d ! k of
           Follows c rw \<Rightarrow>
             broker_then
               (d\<lparr>dConns := (dConns d)[k := Answers (push_messages (clReceived (brHeap (sBr (dSrv d)) ! c)) rw)]\<rparr>)
               (broker_step (Disconnect c :: 'd broker_event) (sBr (dSrv d)))
         | _ \<Rightarrow> Blocked)
      else Blocked)"
| "daemon_step env web (Tails t msg) d = broker_then d (broker_step (Line t msg :: 'd broker_event) (sBr (dSrv d)))"
| "daemon_step env web Counts d =
     lift_outcome (\<lambda>(s, w). d\<lparr>dSrv := with_server (dSrv d) s, dWorld := w\<rparr>)
       (record_hosted (Server.truncate (dSrv d)) (dWorld d))"

section \<open>Where requests go\<close>

lemma mux_matches:
  assumes "clean_url p = p" and "meth \<noteq> ''CONNECT''" and "map_of routes p \<noteq> None \<or> map_of routes (p @ ''/'') = None"
  shows "mux_handler meth p = (case longest_match routes p of Some (_, h) \<Rightarrow> Handled h | None \<Rightarrow> Not_Found)"
  using assms by (auto simp: mux_handler_def Let_def)

lemma join_with_last:
  "p \<noteq> [] \<Longrightarrow> last p \<noteq> [] \<Longrightarrow> join_with sep p \<noteq> [] \<and> last (join_with sep p) = last (last p)"
  by (induction p rule: induct_list012) (auto simp: join_with_Cons)

lemma clean_url_path_string:
  assumes "\<forall>c \<in> set p. clean_name c"
  shows "clean_url (path_string p) = path_string p"
proof -
  have "last (path_string p) \<noteq> CHR ''/''" if "p \<noteq> []"
  proof -
    have "last p \<noteq> []" "CHR ''/'' \<notin> set (last p)" using assms last_in_set [OF that] by (auto simp: clean_name_def)
    moreover from this have "last (last p) \<noteq> CHR ''/''" by (metis last_in_set)
    ultimately show ?thesis using join_with_last [OF that, of "''/''"] by (simp add: path_string_def)
  qed
  then show ?thesis
    using fpath_path_string [OF assms] by (cases "p = []") (auto simp: clean_url_def Let_def path_string_def)
qed

lemma three_part_path:
  assumes "clean_name p" and "clean_name i" and "clean_name c"
  shows "clean_url (CHR ''/'' # c @ ''/'' @ p @ ''/'' @ i) = CHR ''/'' # c @ ''/'' @ p @ ''/'' @ i"
  using clean_url_path_string [of "[c, p, i]"] assms by (simp add: path_string_def)

lemma job_url_routed:
  assumes "clean_name p" and "clean_name i" and "meth \<noteq> ''CONNECT''"
  shows "mux_handler meth (''/job/'' @ p @ ''/'' @ i) = Handled Show_Job"
    "mux_handler meth (''/log/'' @ p @ ''/'' @ i) = Handled Server_Push"
proof -
  have n: "clean_name ''job''" "clean_name ''log''" by (simp_all add: clean_name_def)
  have ne: "p \<noteq> []" using assms(1) by (simp add: clean_name_def)
  note U = three_part_path [OF assms(1,2) n(1)] three_part_path [OF assms(1,2) n(2)]
  show "mux_handler meth (''/job/'' @ p @ ''/'' @ i) = Handled Show_Job"
    using mux_matches [OF U(1) [simplified] assms(3)] ne by (simp add: routes_def pattern_matches_def)
  show "mux_handler meth (''/log/'' @ p @ ''/'' @ i) = Handled Server_Push"
    using mux_matches [OF U(2) [simplified] assms(3)] ne by (simp add: routes_def pattern_matches_def)
qed

text \<open>The server as \<open>Work\<close> sees it.\<close>

lemma truncate_sel [simp]:
  "sCfg (Server.truncate s) = sCfg s" "sJq (Server.truncate s) = sJq s" "sPq (Server.truncate s) = sPq s"
  "sMetrics (Server.truncate s) = sMetrics s"
  by (simp_all add: Server.truncate_def)

lemma truncate_upd [simp]:
  "Server.truncate (s\<lparr>sPool := p\<rparr>) = Server.truncate s" "Server.truncate (s\<lparr>sBr := br\<rparr>) = Server.truncate s"
  by (simp_all add: Server.truncate_def)

lemma truncate_with_server [simp]: "Server.truncate (with_server s t) = t"
  by (simp add: Server.truncate_def with_server_def)

lemma with_server_sel [simp]: "sPool (with_server s t) = sPool s" "sBr (with_server s t) = sBr s" "sCfg (with_server s t) = sCfg t"
  by (simp_all add: with_server_def)

text \<open>
  C35. The URL in the build information leads to the build: when a job was built freshly, whether
  with success or not, a request for that URL is routed to the page of the build; requested as
  JSON it is answered with 200, the ID and the project of the job, and the build information as
  it was returned (parameters in key order, the log from the log file).
\<close>

theorem build_url_shows_build:
  assumes "can_build env (Server.truncate s) j (root w)" and "quiet w" and "\<not> enqueued (sJq s) (jID j)"
    and "lookup (root w) (jReadyBuildPath j) = None"
    and "jRootBuildPath j = build_dir (sCfg s) @ [jProject j]" and "clean_name (jProject j)"
    and "Work env evs (Server.truncate s) j w = Ret ((Some bi, err), s', j', w')" and "Server.truncate t = s'"
    and "qMethod q = ''GET''" and "qPath q = CHR ''/'' # bURL bi" and "qContentType q = ''application/json''"
  shows "\<exists>rw w'' jv c. ServeHTTP env web t q w' = Ret (Answers rw, t, w'') \<and> root w'' = root w' \<and>
     wStatus rw = Some 200 \<and> wBody rw = [Doc (shown_json jv)] \<and>
     jID jv = jID j \<and> jProject jv = jProject j \<and> jBuildInfo jv = read_back (without_logs bi) c"
proof -
  let ?B = "build_dir (sCfg s)" and ?p = "jProject j" and ?i = "jID j"
  have wf: "wf_job j" using assms(1) by (simp add: can_build_def)
  then have P: "jPendingBuildPath j = ?B @ [?p, ''pending'', ?i]" "jReadyBuildPath j = ?B @ [?p, ''ready'', ?i]" "clean_name ?i"
    using assms(5) by (simp_all add: wf_job_def)
  have f: "quiet w'" "finished j (err = None \<and> bExitCode bi = 0) bi (root w) (root w')" "request_of bi = job_request j"
    using Work_builds [OF assms(1,2) _ assms(4), of evs] assms(3,7) by auto
  have cfg: "sCfg t = sCfg s" using Work_gives_back [OF assms(7)] assms(8) truncate_sel(1) by metis
  have url: "qPath q = ''/job/'' @ ?p @ ''/'' @ ?i" using assms(10) f(3) by (simp add: request_of_def job_request_def getJobURL_def)
  have "distinct (map fst (bParams bi))" using request_params [OF f(3)] wf by (simp add: wf_job_def)
  then obtain c where st: "stored (?B @ [?p, ''ready'', ?i]) (without_logs bi) c (root w')"
    using finished_stored [OF f(2)] P(2) by auto
  have pd: "is_dir (root w') (?B @ [?p, ''pending''])" "lookup (root w') (?B @ [?p, ''pending'', ?i]) = None"
    using f(2) P(1) assms(5) by (simp_all add: finished_def)
  let ?jv = "zero_Job\<lparr>jBuildInfo := read_back (without_logs bi) c, jID := ?i, jProject := ?p, jState := ''ready''\<rparr>"
  obtain rw w'' where h: "HandleShowJob (webPage web) s' q NewResponseWriter w' = Ret (rw, w'')" "root w'' = root w'"
      "wStatus rw = Some 200" "wBody rw = [Doc (shown_json ?jv)]"
    using HandleShowJob_stored [of w' q ?p ?i s' "without_logs bi" c ?jv "webPage web"] f(1) assms(6,8,9,11) url P(3) pd st cfg
    by auto
  have "mux_handler (qMethod q) (qPath q) = Handled Show_Job"
    using job_url_routed(1) [OF assms(6) P(3)] url assms(9) by simp
  then have "ServeHTTP env web t q w' = Ret (Answers rw, t, w'')" using h(1) assms(8) by (simp add: ServeHTTP_def)
  then show ?thesis using h(2-4) by (intro exI [of _ rw] exI [of _ w''] exI [of _ ?jv] exI [of _ c]) simp
qed

definition demo_web :: web where
  "demo_web = \<lparr>webFiles = (\<lambda>q rw. rw), webMetrics = (\<lambda>q rw. rw), webPage = (\<lambda>j. Inr []), webFlusher = True\<rparr>"

lemma demo_http_server: "Server.truncate demo_http = demo_server"
  by (simp add: Server.truncate_def demo_http_def demo_server_def)

lemma demo_http_sel [simp]:
  "sCfg demo_http = demo_config" "sJq demo_http = NewJobQueue" "sPool demo_http = demo_pool" "sBr demo_http = NewBroker"
  by (simp_all add: demo_http_def)

theorem build_url_shows_build_witness:
  "\<exists>bi s' j' w' rw w'' jv. Work (demo_env 0) [] demo_server (demo_job []) (demo_world demo_tree) = Ret ((Some bi, None), s', j', w') \<and>
     ServeHTTP (demo_env 0) demo_web (with_server demo_http s') (demo_get (CHR ''/'' # bURL bi)) w' =
       Ret (Answers rw, with_server demo_http s', w'') \<and>
     wStatus rw = Some 200 \<and> wBody rw = [Doc (shown_json jv)] \<and> jID jv = ''abcdef01''"
proof -
  obtain bi s' j' w' where W: "Work (demo_env 0) [] demo_server (demo_job []) (demo_world demo_tree) = Ret ((Some bi, None), s', j', w')"
    using demo_build_succeeds by blast
  have "\<exists>rw w'' jv c. ServeHTTP (demo_env 0) demo_web (with_server demo_http s') (demo_get (CHR ''/'' # bURL bi)) w' =
       Ret (Answers rw, with_server demo_http s', w'') \<and> root w'' = root w' \<and>
     wStatus rw = Some 200 \<and> wBody rw = [Doc (shown_json jv)] \<and>
     jID jv = jID (demo_job []) \<and> jProject jv = jProject (demo_job []) \<and> jBuildInfo jv = read_back (without_logs bi) c"
    by (rule build_url_shows_build [where s = demo_http and w = "demo_world demo_tree" and evs = "[]" and err = None and j' = j'])
      (use W demo_can_build demo_not_ready in
        \<open>simp_all add: demo_http_server demo_get_def jq.taken_empty clean_name_def\<close>)
  then show ?thesis using W by (metis demo_job_sel(1))
qed

end
