(* ===== verification/Job_Props.thy ===== *)
theory Job_Props
  imports Work_Props
begin

text \<open>
  Properties of jobs (\<open>cmd/mistryd/job.go\<close>): what their identity depends on, the shape of their
  paths, their JSON form, and the archive of the project directory that enters the identity.
\<close>

section \<open>The identity of a job\<close>

lemma NewJob_ok:
  assumes "NewJob env project params grp cfgp w = (Inr j, w')"
  obtains cfg tar w1 where "cfgp = Some cfg" and "project \<noteq> []"
    and "Tar env (Join (projects_dir cfg) project) w = (Inr tar, w1)"
    and "jID j = sha256_hex (id_seed project params grp tar)"
    and "jProject j = project" and "jParams j = params" and "jGroup j = grp"
    and "jRootBuildPath j = Join (build_dir cfg) project"
    and "jPendingBuildPath j = Join (Join (jRootBuildPath j) ''pending'') (jID j)"
    and "jReadyBuildPath j = Join (Join (jRootBuildPath j) ''ready'') (jID j)"
    and "jLatestBuildPath j = latest_path (jRootBuildPath j) grp"
    and "jBuildLogPath j = BuildLogPath (jPendingBuildPath j)"
    and "jBuildInfoFilePath j = Join (jPendingBuildPath j) BuildInfoFname"
  using assms
  by (auto simp: NewJob_def Let_def split: if_splits option.splits prod.splits sum.splits)

text \<open>
  Sorting and looking up the visible keys depends only on the map they form, not on the order of
  iteration.
\<close>

lemma id_keys_cong:
  assumes "distinct (map fst ps)" and "distinct (map fst qs)"
    and "\<And>k. \<not> prefix ''_'' k \<Longrightarrow> map_of ps k = map_of qs k"
  shows "id_keys ps = id_keys qs"
proof -
  have mem: "k \<in> set (map fst xs) \<longleftrightarrow> map_of xs k \<noteq> None" for k and xs :: Params
    by (simp add: map_of_eq_None_iff)
  have "set (filter (\<lambda>k. \<not> prefix ''_'' k) (map fst ps)) = set (filter (\<lambda>k. \<not> prefix ''_'' k) (map fst qs))"
    using assms(3) mem [of _ ps] mem [of _ qs] by (auto simp del: set_map)
  then show ?thesis
    unfolding id_keys_def by (intro sort_eq_of_mset) (use assms(1,2) in auto)
qed

lemma id_seed_cong:
  assumes "distinct (map fst ps)" and "distinct (map fst qs)"
    and "\<And>k. \<not> prefix ''_'' k \<Longrightarrow> map_of ps k = map_of qs k"
  shows "id_seed project ps grp tar = id_seed project qs grp tar"
proof -
  have "foldl (\<lambda>seed v. seed @ v @ map_get ps v) acc ks = foldl (\<lambda>seed v. seed @ v @ map_get qs v) acc ks"
    if "\<forall>k \<in> set ks. \<not> prefix ''_'' k" for acc ks
    using that by (induction ks arbitrary: acc) (auto simp: map_get_def assms(3))
  then have "foldl (\<lambda>seed v. seed @ v @ map_get ps v) (project @ grp) (id_keys qs) =
      foldl (\<lambda>seed v. seed @ v @ map_get qs v) (project @ grp) (id_keys qs)"
    by (simp add: id_keys_def)
  then show ?thesis
    using id_keys_cong [OF assms] by (simp add: id_seed_def)
qed

text \<open>
  C26. The ID of a job, and with it its pending and ready paths, does not depend on the order in
  which Go iterates over the parameters nor on the parameters that start with an underscore: two
  jobs made in the same world for the same project and group, whose other parameters are the
  same, have the same ID and the same paths.
\<close>

theorem NewJob_ID_opaque:
  assumes "distinct (map fst ps)" and "distinct (map fst qs)"
    and "\<And>k. \<not> prefix ''_'' k \<Longrightarrow> map_of ps k = map_of qs k"
    and "NewJob env project ps grp cfgp w = (Inr j, w')"
    and "NewJob env project qs grp cfgp w = (Inr l, w'')"
  shows "jID j = jID l \<and> jPendingBuildPath j = jPendingBuildPath l \<and> jReadyBuildPath j = jReadyBuildPath l"
  by (rule NewJob_ok [OF assms(4)]; rule NewJob_ok [OF assms(5)])
    (use id_seed_cong [OF assms(1-3)] in auto)

lemma demo_NewJob: "\<exists>j w'. NewJob (demo_env 0) ''app'' ps [] (Some demo_config) (demo_world demo_tree) = (Inr j, w')"
proof -
  have "\<exists>t w1. Tar (demo_env 0) [''projects'', ''app''] (demo_world demo_tree) = (Inr t, w1)"
    by (simp add: Tar_def os_simps demo_tree_def)
  then show ?thesis by (fastforce simp: NewJob_def Let_def clean_name_def split: prod.splits)
qed

theorem NewJob_ID_opaque_witness:
  "\<exists>j l w' w''.
     NewJob (demo_env 0) ''app'' [(''a'', ''1''), (''_t'', ''x''), (''b'', ''2'')] [] (Some demo_config) (demo_world demo_tree) = (Inr j, w') \<and>
     NewJob (demo_env 0) ''app'' [(''b'', ''2''), (''a'', ''1'')] [] (Some demo_config) (demo_world demo_tree) = (Inr l, w'') \<and>
     jID j = jID l \<and> jReadyBuildPath j = jReadyBuildPath l"
proof -
  let ?ps = "[(''a'', ''1''), (''_t'', ''x''), (''b'', ''2'')]" and ?qs = "[(''b'', ''2''), (''a'', ''1'')]"
  obtain j w' where j: "NewJob (demo_env 0) ''app'' ?ps [] (Some demo_config) (demo_world demo_tree) = (Inr j, w')"
    using demo_NewJob by blast
  obtain l w'' where l: "NewJob (demo_env 0) ''app'' ?qs [] (Some demo_config) (demo_world demo_tree) = (Inr l, w'')"
    using demo_NewJob by blast
  have "map_of ?ps k = map_of ?qs k" if "\<not> prefix ''_'' k" for k
    using that by auto
  then show ?thesis using NewJob_ID_opaque [OF _ _ _ j l] j l by simp
qed

text \<open>
  The ID does not separate keys from values: a parameter \<open>x\<close> with the value \<open>y @ z\<close> and a
  parameter \<open>x @ y\<close> with the value \<open>z\<close> yield the same ID and the same ready path, so the result
  of one of the jobs is served for the other.
\<close>

theorem NewJob_ID_collision:
  assumes "x \<noteq> []" and "\<not> prefix ''_'' x"
    and "NewJob env project [(x, y @ z)] grp cfgp w = (Inr j, w')"
    and "NewJob env project [(x @ y, z)] grp cfgp w = (Inr l, w'')"
  shows "jID j = jID l \<and> jReadyBuildPath j = jReadyBuildPath l"
proof -
  have "id_seed project [(x, y @ z)] grp tar = id_seed project [(x @ y, z)] grp tar" for tar
    using assms(1,2) by (cases x) (simp_all add: id_seed_def id_keys_def map_get_def)
  then show ?thesis
    by (rule_tac NewJob_ok [OF assms(3)]; rule_tac NewJob_ok [OF assms(4)]) auto
qed

theorem NewJob_ID_collision_witness:
  "\<exists>j l w' w''.
     NewJob (demo_env 0) ''app'' [(''a'', ''bc'')] [] (Some demo_config) (demo_world demo_tree) = (Inr j, w') \<and>
     NewJob (demo_env 0) ''app'' [(''ab'', ''c'')] [] (Some demo_config) (demo_world demo_tree) = (Inr l, w'') \<and>
     jID j = jID l \<and> jReadyBuildPath j = jReadyBuildPath l"
proof -
  obtain j w' where j: "NewJob (demo_env 0) ''app'' [(''a'', ''b'' @ ''c'')] [] (Some demo_config) (demo_world demo_tree) = (Inr j, w')"
    using demo_NewJob by blast
  obtain l w'' where l: "NewJob (demo_env 0) ''app'' [(''a'' @ ''b'', ''c'')] [] (Some demo_config) (demo_world demo_tree) = (Inr l, w'')"
    using demo_NewJob by blast
  show ?thesis using NewJob_ID_collision [OF _ _ j l] j l by simp
qed

section \<open>The paths of a job\<close>

lemma sha256_hex_clean: "clean_name (sha256_hex s)"
proof -
  have "CHR ''/'' \<notin> set (sha256_hex s)" using sha256_hex_digits [of s] by auto
  moreover have "sha256_hex s \<noteq> []" "sha256_hex s \<noteq> ''.''" "sha256_hex s \<noteq> ''..''"
    using sha256_hex_length [of s] by (auto simp del: sha256_hex_length)
  ultimately show ?thesis by (simp add: clean_name_def)
qed

text \<open>
  C27. A job made for a project and group with plain names has an ID of 64 hexadecimal digits, and
  its paths have the shape that the rest of the server relies on: the pending and the ready
  directory lie in the project's build directory under the ID, the log and the build information
  in the pending directory, and the latest link at \<open>latest\<close> or at \<open>groups/<group>\<close>.
\<close>

theorem NewJob_wf:
  assumes "NewJob env project params grp cfgp w = (Inr j, w')" and "clean_name project"
    and "grp = [] \<or> clean_name grp" and "distinct (map fst params)"
  shows "wf_job j \<and> length (jID j) = 64 \<and> set (jID j) \<subseteq> set ''0123456789abcdef''"
proof -
  obtain cfg tar where j: "cfgp = Some cfg" "jID j = sha256_hex (id_seed project params grp tar)"
      "jParams j = params" "jGroup j = grp" "jRootBuildPath j = Join (build_dir cfg) project"
      "jPendingBuildPath j = Join (Join (jRootBuildPath j) ''pending'') (jID j)"
      "jReadyBuildPath j = Join (Join (jRootBuildPath j) ''ready'') (jID j)"
      "jLatestBuildPath j = latest_path (jRootBuildPath j) grp"
      "jBuildLogPath j = BuildLogPath (jPendingBuildPath j)"
      "jBuildInfoFilePath j = Join (jPendingBuildPath j) BuildInfoFname"
    by (rule NewJob_ok [OF assms(1)])
  have "clean_name (jID j)" using j(2) sha256_hex_clean by simp
  then have "wf_job j"
    using j assms(2-4) by (auto simp: wf_job_def latest_path_def BuildLogPath_def)
  then show ?thesis using j(2) sha256_hex_digits by auto
qed

theorem NewJob_wf_witness:
  "\<exists>j w'. NewJob (demo_env 0) ''app'' [(''a'', ''1'')] [] (Some demo_config) (demo_world demo_tree) = (Inr j, w') \<and>
     wf_job j \<and> length (jID j) = 64"
proof -
  obtain j w' where j: "NewJob (demo_env 0) ''app'' [(''a'', ''1'')] [] (Some demo_config) (demo_world demo_tree) = (Inr j, w')"
    using demo_NewJob by blast
  then show ?thesis using NewJob_wf [OF j] by (simp add: clean_name_def)
qed

text \<open>
  \<open>NewJob\<close> fails exactly when there is no project name, no configuration, or the archive of
  the project directory cannot be made; a missing directory is reported as an unknown project.
  It never changes the file system.
\<close>

theorem NewJob_errors:
  "root (snd (NewJob env project params grp cfgp w)) = root w \<and>
   (\<forall>e. fst (NewJob env project params grp cfgp w) = Inl e \<longleftrightarrow>
      (if project = [] then e = ErrorString ''no project given''
       else case cfgp of
         None \<Rightarrow> e = ErrorString ''invalid configuration''
       | Some cfg \<Rightarrow>
           (case fst (Tar env (Join (projects_dir cfg) project) w) of
              Inl err \<Rightarrow> e = (if IsNotExist err then ErrorString (''Unknown project '' @ [CHR 0x27] @ project @ [CHR 0x27]) else err)
            | Inr _ \<Rightarrow> False)))"
proof -
  have tar_root: "root w1 = root w" if "Tar env p w = (x, w1)" for p x w1
    using that by (auto simp: Tar_def split: prod.splits sum.splits dest: os_read_root)
  have now_root: "time_Now v = (t, v') \<Longrightarrow> root v' = root v" for t and v v' :: "'a world"
    by (auto simp: time_Now_def split: list.splits)
  show ?thesis
  proof (cases "project = [] \<or> cfgp = None")
    case True
    then show ?thesis by (cases cfgp) (auto simp: NewJob_def)
  next
    case False
    then obtain cfg where c: "cfgp = Some cfg" "project \<noteq> []" by auto
    obtain x w1 where t: "Tar env (Join (projects_dir cfg) project) w = (x, w1)" by force
    show ?thesis
      using c t tar_root [OF t]
      by (auto simp: NewJob_def Let_def split: prod.splits sum.splits
          dest!: now_root NewBuildInfo_frame(1))
  qed
qed

section \<open>The archive of the project\<close>



section \<open>JSON\<close>



end
