(* ===== verification/Running.thy ===== *)
theory Running
  imports Serve Job_Props
begin

text \<open>
  What holds of every run of the daemon: the files stand for the store of results, and a client
  that waits for its build gets an answer that an effect on this store explains.
\<close>

section \<open>What the pool does to items and channels\<close>

lemma Send_items:
  assumes "pool_inv p" and "SendWork p j = Ret ((f, err), p')"
  shows "f = length (pChans p)" "pChans p' = pChans p @ [\<lparr>rcBuf = None, rcClosed = False\<rparr>]"
    "mset (open_items p') = (if err = None then add_mset \<lparr>wiJob = j, wiResult = f\<rparr> (mset (open_items p)) else mset (open_items p))"
    "length (pWorkers p') = length (pWorkers p)"
    "i < length (pWorkers p) \<Longrightarrow> pWorkers p ! i = Busy item \<Longrightarrow> pWorkers p' ! i = Busy item"
proof -
  show f: "f = length (pChans p)" and "pChans p' = pChans p @ [\<lparr>rcBuf = None, rcClosed = False\<rparr>]"
    and "length (pWorkers p') = length (pWorkers p)"
    using assms(2) by (auto simp: SendWork_def Let_def split: if_splits list.splits)
  have w: "k < length (pWorkers p) \<and> pWorkers p ! k = Waiting" if "k \<in> set (pWaiters p)" for k
    using assms(1) that by (simp add: pool_inv_def)
  show "mset (open_items p') = (if err = None then add_mset \<lparr>wiJob = j, wiResult = f\<rparr> (mset (open_items p)) else mset (open_items p))"
  proof (cases "pWaiters p")
    case (Cons k ks)
    then show ?thesis
      using assms(2) w [of k] items_update [of k "pWorkers p" "Busy \<lparr>wiJob = j, wiResult = f\<rparr>"] f
      by (auto simp: SendWork_def Let_def open_items_def split: if_splits)
  qed (use assms(2) f in \<open>auto simp: SendWork_def Let_def open_items_def split: if_splits\<close>)
  show "pWorkers p' ! i = Busy item" if "i < length (pWorkers p)" "pWorkers p ! i = Busy item"
    using assms(2) that w by (auto simp: SendWork_def Let_def nth_list_update split: if_splits list.splits)
qed

lemma Receive_items:
  assumes "work_receive i p = Ret p'"
  shows "pChans p' = pChans p" "mset (open_items p') = mset (open_items p)" "length (pWorkers p') = length (pWorkers p)"
    "k < length (pWorkers p) \<Longrightarrow> pWorkers p ! k = Busy item \<Longrightarrow> pWorkers p' ! k = Busy item"
proof -
  have i: "i < length (pWorkers p)" "pWorkers p ! i = Idle" using assms by (auto simp: work_receive_def split: if_splits)
  show "pChans p' = pChans p" "length (pWorkers p') = length (pWorkers p)"
    using assms i by (auto simp: work_receive_def split: list.splits if_splits)
  show "mset (open_items p') = mset (open_items p)"
    using assms i items_update [OF i(1)] by (auto simp: work_receive_def open_items_def split: list.splits if_splits)
  show "k < length (pWorkers p) \<Longrightarrow> pWorkers p ! k = Busy item \<Longrightarrow> pWorkers p' ! k = Busy item"
    using assms i by (auto simp: work_receive_def nth_list_update split: list.splits if_splits)
qed

lemma Finish_items:
  assumes "pool_inv p" and "work_finish i r p = Ret p'"
  obtains item where "i < length (pWorkers p)" and "pWorkers p ! i = Busy item"
    and "mset (open_items p) = add_mset item (mset (open_items p'))"
    and "pChans p' = (pChans p)[wiResult item := \<lparr>rcBuf = Some r, rcClosed = True\<rparr>]"
    and "pWorkers p' = (pWorkers p)[i := Idle]" and "wiResult item < length (pChans p)"
proof -
  obtain item where i: "i < length (pWorkers p)" "pWorkers p ! i = Busy item"
    using assms(2) by (auto simp: work_finish_def split: if_splits wstate.splits)
  then have m: "item \<in> set (open_items p)" by (force simp: open_items_def in_set_conv_nth)
  then have c: "pChans p ! wiResult item = \<lparr>rcBuf = None, rcClosed = False\<rparr>" "wiResult item < length (pChans p)"
    using assms(1) by (simp_all add: pool_inv_def)
  then have p': "p' = p\<lparr>pChans := (pChans p)[wiResult item := \<lparr>rcBuf = Some r, rcClosed = True\<rparr>], pWorkers := (pWorkers p)[i := Idle]\<rparr>"
    using assms(2) i by (simp add: work_finish_def)
  moreover have "mset (open_items p) = add_mset item (mset (open_items p'))"
    using items_update [OF i(1), of Idle] i(2) by (simp add: p' open_items_def)
  ultimately show ?thesis using that i c(2) by simp
qed

lemma Wait_items:
  assumes "FutureWorkResult_Wait f p = Ret (r, p')"
  shows "rcBuf (pChans p ! f) = Some r" "open_items p' = open_items p" "pWorkers p' = pWorkers p"
    "length (pChans p') = length (pChans p)" "g \<noteq> f \<Longrightarrow> pChans p' ! g = pChans p ! g"
  using assms by (auto simp: FutureWorkResult_Wait_def open_items_def split: option.splits if_splits)

section \<open>What a request does\<close>

text \<open>
  The requests considered: they ask for a build of one of the given projects, with or without a
  group; groups need what \<open>takes_job\<close> asks for.
\<close>

definition plain_request :: "'d env \<Rightarrow> string set \<Rightarrow> request \<Rightarrow> bool" where
  "plain_request env ps q \<longleftrightarrow>
     (case qBody q of
        Inl _ \<Rightarrow> True
      | Inr body \<Rightarrow>
          (case unmarshal_JobRequest body of
             Inl _ \<Rightarrow> True
           | Inr jr \<Rightarrow>
               rProject jr \<in> ps \<and> (\<forall>k \<in> set (map fst (rParams jr)). clean_name k) \<and>
               (rGroup jr = [] \<or> clean_name (rGroup jr) \<and> keeps_dirs env \<and> cp_copies env)))"

lemma decode_fields_keeps:
  assumes "decode_fields f kvs x = Some y" and "P x" and "\<And>k v x y. f k v x = Some y \<Longrightarrow> P x \<Longrightarrow> P y"
  shows "P y"
  using assms(1,2)
proof (induction kvs arbitrary: x)
  case (Cons kv kvs)
  then show ?case using assms(3) by (cases kv) (auto split: option.splits)
qed simp

lemma as_str_map_distinct:
  assumes "as_str_map v m = Some m'" and "distinct (map fst m)"
  shows "distinct (map fst m')"
proof (cases v)
  case (JObj kvs)
  show ?thesis
    by (rule decode_fields_keeps [where P = "\<lambda>m. distinct (map fst m)" and x = m and kvs = kvs])
      (use assms JObj in \<open>auto simp: distinct_update\<close>)
qed (use assms in auto)

lemma unmarshal_JobRequest_distinct:
  assumes "unmarshal_JobRequest body = Inr jr"
  shows "distinct (map fst (rParams jr))"
proof -
  have "distinct (map fst (rParams y))" if "set_JobRequest_field k v x = Some y" "distinct (map fst (rParams x))" for k v x y
    using that by (auto simp: set_JobRequest_field_def Let_def split: if_splits dest: as_str_map_distinct)
  from decode_fields_keeps [where P = "\<lambda>x. distinct (map fst (rParams x))", OF _ _ this]
  have "distinct (map fst (rParams y))" if "decode_fields set_JobRequest_field kvs zero_JobRequest = Some y" for kvs y
    using that by (simp add: zero_JobRequest_def)
  then show ?thesis
    using assms by (auto simp: unmarshal_JobRequest_def unmarshal_struct_def zero_JobRequest_def split: content.splits json.splits option.splits)
qed

lemma asked_job:
  assumes "NewJob env (rProject jr) (rParams jr) (rGroup jr) (Some cfg) w = (Inr j, w')"
    and "qBody q = Inr body" and "unmarshal_JobRequest body = Inr jr" and "plain_request env ps q" and "\<forall>p \<in> ps. clean_name p"
  shows "takes_job env ps cfg (j\<lparr>jRebuild := b\<rparr>)"
proof -
  have jr: "rProject jr \<in> ps" "rGroup jr = [] \<or> clean_name (rGroup jr) \<and> keeps_dirs env \<and> cp_copies env"
      "\<forall>k \<in> set (map fst (rParams jr)). clean_name k" "clean_name (rProject jr)"
    using assms(2-5) by (simp_all add: plain_request_def)
  have good: "wf_job i \<and> plain_params i" if "jGroup i = rGroup jr" "jLatestBuildPath i = latest_path (jRootBuildPath i) (rGroup jr)"
      "jRootBuildPath i \<noteq> []" "clean_name (jID i)" "jPendingBuildPath i = jRootBuildPath i @ [''pending'', jID i]"
      "jReadyBuildPath i = jRootBuildPath i @ [''ready'', jID i]" "jBuildLogPath i = jPendingBuildPath i @ [''out.log'']"
      "jBuildInfoFilePath i = jPendingBuildPath i @ [''build_info.json'']" "jParams i = rParams jr" for i
    using that jr unmarshal_JobRequest_distinct [OF assms(3)]
    by (cases "rGroup jr = []") (simp_all add: wf_job_def plain_params_def latest_path_def)
  show ?thesis
    by (rule NewJob_ok [OF assms(1)])
      (use jr sha256_hex_clean in \<open>auto simp: takes_job_def good BuildLogPath_def\<close>)
qed

lemma schedule_effect:
  assumes "schedule_job env s q rw w = Ret (x, s', w')" and "plain_request env ps q" and "\<forall>p \<in> ps. clean_name p"
  shows "Server.truncate s' = Server.truncate s \<and> sBr s' = sBr s \<and>
     (sPool s' = sPool s \<and> (\<forall>j f rw'. x \<noteq> Awaits j f rw') \<or>
      (\<exists>j f err. SendWork (sPool s) j = Ret ((f, err), sPool s') \<and> takes_job env ps (sCfg s) j \<and>
         (\<forall>j' f' rw'. x = Awaits j' f' rw' \<longrightarrow> j' = j \<and> f' = f \<and> err = None \<and> rw' = rw)))"
  using assms(1)
  by (auto simp: schedule_job_def Let_def split: if_splits sum.splits prod.splits outcome.splits option.splits)
    (metis asked_job [OF _ _ _ assms(2,3)])+

definition new_item :: "'d env \<Rightarrow> string set \<Rightarrow> 'd Config \<Rightarrow> WorkerPool \<Rightarrow> conn \<Rightarrow> WorkerPool \<Rightarrow> bool" where
  "new_item env ps cfg p c p' \<longleftrightarrow>
     p' = p \<and> (\<forall>j f rw. c \<noteq> Waits_For j f rw) \<or>
     (\<exists>j f err. SendWork p j = Ret ((f, err), p') \<and> takes_job env ps cfg j \<and>
        (\<forall>j' f' rw. c = Waits_For j' f' rw \<longrightarrow> j' = j \<and> f' = f \<and> err = None \<and> rw = NewResponseWriter))"

lemma push_effect:
  assumes "HandleServerPush fl s q rw (w :: 'd world) = Ret (x, s', w')"
  shows "Server.truncate s' = Server.truncate s \<and> sPool s' = sPool s \<and>
     (sBr s' = sBr s \<or> (\<exists>e :: 'd broker_event. broker_step e (sBr s) = Ret (sBr s')))"
  using assms
  by (auto simp: HandleServerPush_def Let_def simp del: broker_step.simps
      split: if_splits sum.splits prod.splits outcome.splits option.splits)

lemma ServeHTTP_effect:
  assumes "ServeHTTP env web s q (w :: 'd world) = Ret (c, s', w')" and "plain_request env ps q" and "\<forall>p \<in> ps. clean_name p"
  shows "reads w w'" "Server.truncate s' = Server.truncate s" "new_item env ps (sCfg s) (sPool s) c (sPool s')"
    "sBr s' = sBr s \<or> (\<exists>e :: 'd broker_event. broker_step e (sBr s) = Ret (sBr s'))"
    "c \<noteq> Replied j r rw"
proof -
  show "c \<noteq> Replied j r rw" "reads w w'"
    using assms by (auto simp: ServeHTTP_def Let_def split: dispatch.splits route.splits outcome.splits prod.splits new_job.splits push.splits
        dest: read_only)
  show "Server.truncate s' = Server.truncate s" "new_item env ps (sCfg s) (sPool s) c (sPool s')"
    "sBr s' = sBr s \<or> (\<exists>e :: 'd broker_event. broker_step e (sBr s) = Ret (sBr s'))"
    using assms by (auto simp: ServeHTTP_def Let_def new_item_def simp del: broker_step.simps
        split: dispatch.splits route.splits outcome.splits prod.splits new_job.splits push.splits
        dest!: schedule_effect [OF _ assms(2,3)] push_effect)
qed

section \<open>The invariant\<close>

text \<open>A result is the answer of a call for the same project and ID.\<close>

definition served_by :: "thread list \<Rightarrow> Job \<Rightarrow> WorkResult \<Rightarrow> bool" where
  "served_by ths j r \<longleftrightarrow>
     (\<exists>n < length ths. \<exists>i. ths ! n = Done (wrBuildInfo r, wrErr r) i \<and> job_key i = job_key j)"

fun conn_ok :: "WorkerPool \<Rightarrow> thread list \<Rightarrow> conn \<Rightarrow> bool" where
  "conn_ok p ths (Waits_For j f rw) \<longleftrightarrow>
     f < length (pChans p) \<and> rw = NewResponseWriter \<and>
     (\<lparr>wiJob = j, wiResult = f\<rparr> \<in> set (open_items p) \<or> (\<exists>r. rcBuf (pChans p ! f) = Some r \<and> served_by ths j r))"
| "conn_ok p ths (Replied j r rw) \<longleftrightarrow> served_by ths j r \<and> rw = writeWorkResult j r NewResponseWriter"
| "conn_ok p ths c \<longleftrightarrow> True"

definition tasks_ok :: "(nat \<rightharpoonup> nat) \<Rightarrow> WorkerPool \<Rightarrow> thread list \<Rightarrow> bool" where
  "tasks_ok task p ths \<longleftrightarrow>
     (\<forall>i n. task i = Some n \<longrightarrow> n < length ths \<and> i < length (pWorkers p) \<and>
        (\<exists>item. pWorkers p ! i = Busy item \<and> job_key (thread_job (ths ! n)) = job_key (wiJob item)))"

definition futures_ok :: "conn list \<Rightarrow> bool" where
  "futures_ok cs \<longleftrightarrow>
     (\<forall>k < length cs. \<forall>l < length cs. \<forall>f i j rw rw'.
        cs ! k = Waits_For i f rw \<longrightarrow> cs ! l = Waits_For j f rw' \<longrightarrow> k = l)"

definition sys_of :: "'d daemon \<Rightarrow> 'd sys" where
  "sys_of d = \<lparr>ySrv = Server.truncate (dSrv d), yWorld = dWorld d, yCalls = dCalls d\<rparr>"

definition queued_ok :: "'d env \<Rightarrow> string set \<Rightarrow> 'd daemon \<Rightarrow> bool" where
  "queued_ok env ps d \<longleftrightarrow> (\<forall>x \<in> set (open_items (sPool (dSrv d))). takes_job env ps (sCfg (dSrv d)) (wiJob x))"

definition daemon_inv :: "'d env \<Rightarrow> string set \<Rightarrow> store \<Rightarrow> history \<Rightarrow> 'd daemon \<Rightarrow> bool" where
  "daemon_inv env ps st es d \<longleftrightarrow>
     sys_inv env ps st es (sys_of d) \<and> pool_inv (sPool (dSrv d)) \<and> broker_inv (sBr (dSrv d)) \<and>
     queued_ok env ps d \<and> tasks_ok (dTask d) (sPool (dSrv d)) (dCalls d) \<and> futures_ok (dConns d) \<and>
     (\<forall>c \<in> set (dConns d). conn_ok (sPool (dSrv d)) (dCalls d) c)"

text \<open>The server and the world of a system may change where its calls do not look.\<close>

lemma sys_inv_reads:
  assumes "sys_inv env ps st es \<lparr>ySrv = s, yWorld = w, yCalls = ths\<rparr>" and "reads w w'"
    and "sCfg s' = sCfg s" and "sJq s' = sJq s" and "sPq s' = sPq s"
  shows "sys_inv env ps st es \<lparr>ySrv = s', yWorld = w', yCalls = ths\<rparr>"
  using assms by (simp add: sys_inv_def site_def reads_def)

lemma served_by_mono:
  assumes "served_by ths j r" and "\<And>n rep i. n < length ths \<Longrightarrow> ths ! n = Done rep i \<Longrightarrow> n < length ths' \<and> ths' ! n = Done rep i"
  shows "served_by ths' j r"
  using assms unfolding served_by_def by metis

text \<open>What keeps a connection as it is: its item stays queued, its channel and the returned calls stay.\<close>

lemma conn_ok_mono:
  assumes "conn_ok p ths c" and "\<And>j r. served_by ths j r \<Longrightarrow> served_by ths' j r"
    and "set (open_items p) \<subseteq> set (open_items p')" and "length (pChans p) \<le> length (pChans p')"
    and "\<And>j f rw. c = Waits_For j f rw \<Longrightarrow> f < length (pChans p) \<Longrightarrow> pChans p' ! f = pChans p ! f"
  shows "conn_ok p' ths' c"
  using assms by (cases c) (auto simp: less_le_trans)

section \<open>Events\<close>

lemma lift_outcome_Ret: "lift_outcome f x = Ret y \<longleftrightarrow> (\<exists>z. x = Ret z \<and> y = f z)"
  by (cases x) auto

lemma lift_outcome_Panic: "lift_outcome f x = Panic m \<longleftrightarrow> x = Panic m"
  by (cases x) auto

lemma daemon_inv_names: "daemon_inv env ps st es d \<Longrightarrow> \<forall>p \<in> ps. clean_name p"
  by (simp add: daemon_inv_def sys_inv_def site_def project_files_def Let_def sys_of_def)

lemma gets_inv:
  assumes "daemon_inv env ps st es d" and "plain_request env ps q" and "daemon_step env web (Gets q) d = Ret d'"
  shows "daemon_inv env ps st es d'"
proof (cases "ServeHTTP env web (dSrv d) q (dWorld d)")
  case (Panic m)
  then have d': "d' = d\<lparr>dConns := dConns d @ [Dropped]\<rparr>" using assms(3) by simp
  have "futures_ok (dConns d @ [Dropped])"
    using assms(1) by (auto simp: daemon_inv_def futures_ok_def nth_append less_Suc_eq)
  then show ?thesis using assms(1) by (auto simp: daemon_inv_def queued_ok_def d' sys_of_def)
next
  case (Ret x)
  obtain c s w where x: "x = (c, s, w)" by (metis prod_cases3)
  note S = ServeHTTP_effect [OF Ret [unfolded x] assms(2) daemon_inv_names [OF assms(1)]]
  let ?p = "sPool (dSrv d)"
  have d': "d' = d\<lparr>dSrv := s, dWorld := w, dConns := dConns d @ [c]\<rparr>" using assms(3) Ret x by simp
  have inv: "pool_inv ?p" "broker_inv (sBr (dSrv d))" "tasks_ok (dTask d) ?p (dCalls d)" "futures_ok (dConns d)"
      "\<forall>c \<in> set (dConns d). conn_ok ?p (dCalls d) c" "queued_ok env ps d"
    using assms(1) by (simp_all add: daemon_inv_def)
  have cfg: "sCfg s = sCfg (dSrv d)" using S(2) truncate_sel(1) by metis
  have sys: "sys_inv env ps st es (sys_of d')"
    using assms(1) sys_inv_reads [OF _ S(1) refl refl refl] S(2) by (simp add: daemon_inv_def sys_of_def d')
  have br: "broker_inv (sBr s)" using S(4) inv(2) broker_inv_step by metis
  from S(3) consider "sPool s = ?p" "\<forall>j f rw. c \<noteq> Waits_For j f rw"
    | j f err where "SendWork ?p j = Ret ((f, err), sPool s)" "takes_job env ps (sCfg (dSrv d)) j"
        "\<forall>j' f' rw. c = Waits_For j' f' rw \<longrightarrow> j' = j \<and> f' = f \<and> err = None \<and> rw = NewResponseWriter"
    unfolding new_item_def by blast
  then show ?thesis
  proof cases
    case 1
    have "conn_ok ?p (dCalls d) c" using 1(2) S(5) by (cases c) auto
    moreover have "futures_ok (dConns d @ [c])"
      using inv(4) 1(2) by (auto simp: futures_ok_def nth_append less_Suc_eq)
    ultimately show ?thesis using sys br inv 1(1) cfg by (simp add: daemon_inv_def queued_ok_def d')
  next
    case (2 j f err)
    note I = Send_items [OF inv(1) 2(1)]
    have sub: "set (open_items ?p) \<subseteq> set (open_items (sPool s))"
      using I(3) by (metis set_mset_mset set_mset_add_mset_insert subset_insertI order_refl)
    have old: "conn_ok (sPool s) (dCalls d) c'" if "c' \<in> set (dConns d)" for c'
      by (rule conn_ok_mono [where p = ?p and ths = "dCalls d"]) (use that inv(5) sub I(2) in \<open>auto simp: nth_append\<close>)
    have "conn_ok (sPool s) (dCalls d) c"
    proof (cases c)
      case (Waits_For j' f' rw)
      then have "mset (open_items (sPool s)) = add_mset \<lparr>wiJob = j, wiResult = f\<rparr> (mset (open_items ?p))"
        using 2(3) I(3) by simp
      then have "\<lparr>wiJob = j, wiResult = f\<rparr> \<in> set (open_items (sPool s))" by (metis set_mset_mset union_single_eq_member)
      then show ?thesis using Waits_For 2(3) I(1,2) by simp
    qed (use S(5) in auto)
    moreover have "futures_ok (dConns d @ [c])"
    proof -
      have lt: "f' < length (pChans ?p)" if "k < length (dConns d)" "dConns d ! k = Waits_For j' f' rw" for k j' f' rw
        using inv(5) nth_mem [OF that(1)] that(2) by force
      show ?thesis
        unfolding futures_ok_def
      proof (intro allI impI)
        fix k l f' j1 j2 rw rw'
        assume k: "k < length (dConns d @ [c])" "l < length (dConns d @ [c])"
          "(dConns d @ [c]) ! k = Waits_For j1 f' rw" "(dConns d @ [c]) ! l = Waits_For j2 f' rw'"
        show "k = l"
          using k inv(4) lt [of k j1 f' rw] lt [of l j2 f' rw'] 2(3) I(1)
          by (auto simp: futures_ok_def nth_append less_Suc_eq split: if_splits)
      qed
    qed
    moreover have "tasks_ok (dTask d) (sPool s) (dCalls d)"
      using inv(3) I(4,5) by (fastforce simp: tasks_ok_def)
    moreover have "queued_ok env ps d'"
      using inv(6) I(3) 2(2) cfg unfolding queued_ok_def d'
      by (auto simp flip: set_mset_mset split: if_splits)
    ultimately show ?thesis using sys br old inv_Send [OF inv(1) 2(1)] by (simp add: daemon_inv_def d')
  qed
qed (use assms(3) in simp)

lemma takes_inv:
  assumes "daemon_inv env ps st es d" and "daemon_step env web (Takes i) d = Ret d'"
  shows "daemon_inv env ps st es d'"
proof -
  let ?p = "sPool (dSrv d)"
  obtain p where p: "work_receive i ?p = Ret p" "d' = d\<lparr>dSrv := (dSrv d)\<lparr>sPool := p\<rparr>\<rparr>"
    using assms(2) by (cases "work_receive i ?p") (auto simp: pool_then_def)
  note R = Receive_items [OF p(1)]
  have "set (open_items p) = set (open_items ?p)" using R(2) by (metis set_mset_mset)
  then have "conn_ok p (dCalls d) c" if "conn_ok ?p (dCalls d) c" for c
    by (intro conn_ok_mono [OF that]) (simp_all add: R(1))
  moreover have "tasks_ok (dTask d) p (dCalls d)" if "tasks_ok (dTask d) ?p (dCalls d)"
    using that R(3,4) by (fastforce simp: tasks_ok_def)
  moreover have "pool_inv p" if "pool_inv ?p" using inv_Receive [OF that p(1)] .
  moreover have "queued_ok env ps d'" if "queued_ok env ps d" using that R(2) by (simp add: queued_ok_def p(2) flip: set_mset_mset)
  ultimately show ?thesis using assms(1) by (simp add: daemon_inv_def sys_of_def p(2))
qed

lemma begins_inv:
  assumes "daemon_inv env ps st es d" and "daemon_step env web (Begins i) d = Ret d'"
  shows "daemon_inv env ps st es d'"
proof -
  let ?p = "sPool (dSrv d)"
  obtain item where i: "i < length (pWorkers ?p)" "dTask d i = None" "pWorkers ?p ! i = Busy item"
      and d': "d' = d\<lparr>dCalls := dCalls d @ [Enters (wiJob item)], dTask := (dTask d)(i \<mapsto> length (dCalls d))\<rparr>"
    using assms(2) by (auto split: if_splits wstate.splits)
  have "item \<in> set (open_items ?p)" using i by (force simp: open_items_def in_set_conv_nth)
  then have "takes_job env ps (sCfg (dSrv d)) (wiJob item)" using assms(1) by (simp add: daemon_inv_def queued_ok_def)
  then have "sys_inv env ps st es (sys_of d')"
    using sys_inv_call [of env ps st es "sys_of d"] assms(1) by (simp add: daemon_inv_def sys_of_def d')
  moreover have "tasks_ok (dTask d') ?p (dCalls d')"
    using assms(1) i by (fastforce simp: daemon_inv_def tasks_ok_def d' nth_append)
  moreover have "conn_ok ?p (dCalls d') c" if "conn_ok ?p (dCalls d) c" for c
    by (rule conn_ok_mono [OF that]) (auto simp: d' nth_append elim: served_by_mono)
  ultimately show ?thesis using assms(1) by (simp add: daemon_inv_def queued_ok_def d')
qed

lemma goes_inv:
  assumes "daemon_inv env ps st es d" and "daemon_step env web (Goes i) d = Ret d'"
  shows "\<exists>fs. daemon_inv env ps st (es @ fs) d'"
proof -
  let ?p = "sPool (dSrv d)" and ?s = "Server.truncate (dSrv d)"
  obtain n s th w where n: "dTask d i = Some n" and st: "thread_step env ?s (dCalls d ! n) (dWorld d) = Ret (s, th, w)"
      and d': "d' = d\<lparr>dSrv := with_server (dSrv d) s, dWorld := w, dCalls := (dCalls d)[n := th]\<rparr>"
    using assms(2) by (auto split: option.splits outcome.splits)
  have inv: "sys_inv env ps st es (sys_of d)" and t: "tasks_ok (dTask d) ?p (dCalls d)"
    using assms(1) by (simp_all add: daemon_inv_def)
  then have len: "n < length (dCalls d)" using n by (simp add: tasks_ok_def)
  obtain fs where fs: "steps_to env es n ?s (dCalls d ! n) (dWorld d) s th w fs"
    using sys_inv_went [OF inv, of n s th w] len st by (auto simp: sys_of_def)
  have "sys_inv env ps st (es @ fs) (sys_of d')"
    using sys_inv_goes [OF inv, of n s th w fs] len fs by (simp add: sys_of_def d')
  moreover have "job_key (thread_job th) = job_key (thread_job (dCalls d ! n))"
    using same_job_key [OF thread_step_job [OF st]] .
  then have "tasks_ok (dTask d') ?p (dCalls d')"
    using t len unfolding tasks_ok_def d' by (fastforce simp: nth_list_update)
  moreover have "dCalls d ! n \<noteq> Done rep j" for rep j using st by (cases rep) auto
  then have "(dCalls d)[n := th] ! m = Done rep j" if "dCalls d ! m = Done rep j" for m rep j
    using that by (cases "m = n") auto
  then have sv: "served_by (dCalls d') j r" if "served_by (dCalls d) j r" for j r
    by (intro served_by_mono [OF that]) (simp add: d')
  have "conn_ok ?p (dCalls d') c" if "conn_ok ?p (dCalls d) c" for c
    by (rule conn_ok_mono [OF that]) (auto intro: sv)
  moreover have "sCfg s = sCfg (dSrv d)" using fs by (simp add: steps_to_def queue_effect_def)
  ultimately show ?thesis using assms(1) by (auto simp: daemon_inv_def queued_ok_def d')
qed

lemma ends_inv:
  assumes "daemon_inv env ps st es d" and "daemon_step env web (Ends i) d = Ret d'"
  shows "daemon_inv env ps st es d'"
proof -
  let ?p = "sPool (dSrv d)"
  obtain n bi err j p where n: "dTask d i = Some n" "dCalls d ! n = Done (bi, err) j"
      and f: "work_finish i \<lparr>wrBuildInfo = bi, wrErr = err\<rparr> ?p = Ret p"
      and d': "d' = d\<lparr>dTask := (dTask d)(i := None), dSrv := (dSrv d)\<lparr>sPool := p\<rparr>\<rparr>"
    using assms(2) by (auto simp: pool_then_def lift_outcome_Ret split: option.splits thread.splits)
  let ?r = "\<lparr>wrBuildInfo = bi, wrErr = err\<rparr>"
  have pi: "pool_inv ?p" and t: "tasks_ok (dTask d) ?p (dCalls d)" using assms(1) by (simp_all add: daemon_inv_def)
  obtain item where item: "i < length (pWorkers ?p)" "pWorkers ?p ! i = Busy item" "mset (open_items ?p) = add_mset item (mset (open_items p))"
      "pChans p = (pChans ?p)[wiResult item := \<lparr>rcBuf = Some ?r, rcClosed = True\<rparr>]" "pWorkers p = (pWorkers ?p)[i := Idle]"
      "wiResult item < length (pChans ?p)"
    by (rule Finish_items [OF pi f])
  have "job_key j = job_key (wiJob item)" "n < length (dCalls d)" using t n item(2) by (fastforce simp: tasks_ok_def)+
  then have sv: "served_by (dCalls d) (wiJob item) ?r" using n(2) by (auto simp: served_by_def)
  have items: "set (open_items ?p) = insert item (set (open_items p))" using item(3) by (metis set_mset_add_mset_insert set_mset_mset)
  have "conn_ok p (dCalls d) c" if c: "conn_ok ?p (dCalls d) c" for c
  proof (cases "\<exists>rw. c = Waits_For (wiJob item) (wiResult item) rw")
    case True
    then show ?thesis using c sv item(4,6) by auto
  next
    case False
    show ?thesis
    proof (cases c)
      case (Waits_For j' f' rw)
      have "f' \<noteq> wiResult item" if "rcBuf (pChans ?p ! f') \<noteq> None"
      proof -
        have "pChans ?p ! wiResult item = \<lparr>rcBuf = None, rcClosed = False\<rparr>" using pi items by (simp add: pool_inv_def)
        then show ?thesis using that by auto
      qed
      then show ?thesis using c Waits_For False items item(4) by (auto simp: nth_list_update)
    qed (use c in auto)
  qed
  moreover have "tasks_ok (dTask d') p (dCalls d)"
    using t item(5) by (auto simp: tasks_ok_def d' nth_list_update)
  moreover have "queued_ok env ps d'" using assms(1) items by (simp add: daemon_inv_def queued_ok_def d')
  ultimately show ?thesis
    using assms(1) inv_Finish [OF pi f] by (simp add: daemon_inv_def sys_of_def d')
qed

lemma replies_inv:
  assumes "daemon_inv env ps st es d" and "daemon_step env web (Replies k) d = Ret d'"
  shows "daemon_inv env ps st es d'"
proof -
  let ?p = "sPool (dSrv d)"
  obtain j f rw where k: "k < length (dConns d)" "dConns d ! k = Waits_For j f rw"
    using assms(2) by (auto split: if_splits conn.splits)
  have pi: "pool_inv ?p" and fo: "futures_ok (dConns d)" and co: "\<forall>c \<in> set (dConns d). conn_ok ?p (dCalls d) c"
    using assms(1) by (simp_all add: daemon_inv_def)
  have ok: "conn_ok ?p (dCalls d) (Waits_For j f rw)" using co nth_mem [OF k(1)] k(2) by metis
  have fo': "futures_ok ((dConns d)[k := c])" if "\<forall>j f rw. c \<noteq> Waits_For j f rw" for c
    using fo that k(1) unfolding futures_ok_def by (simp add: nth_list_update)
  show ?thesis
  proof (cases "FutureWorkResult_Wait f ?p")
    case (Ret x)
    obtain r p where x: "x = (r, p)" by force
    note W = Wait_items [OF Ret [unfolded x]]
    have d': "d' = d\<lparr>dSrv := (dSrv d)\<lparr>sPool := p\<rparr>, dConns := (dConns d)[k := Replied j r (writeWorkResult j r rw)]\<rparr>"
      using assms(2) k Ret x by simp
    have "\<lparr>wiJob = j, wiResult = f\<rparr> \<notin> set (open_items ?p)" using W(1) pi by (auto simp: pool_inv_def)
    then have new: "conn_ok p (dCalls d) (Replied j r (writeWorkResult j r rw))" using ok W(1) by auto
    have "conn_ok p (dCalls d) ((dConns d)[k := Replied j r (writeWorkResult j r rw)] ! l)" if l: "l < length (dConns d)" for l
    proof (cases "l = k")
      case False
      have "g \<noteq> f" if "dConns d ! l = Waits_For j' g rw'" for j' g rw'
        using fo that k l False by (auto simp: futures_ok_def)
      then have "conn_ok p (dCalls d) (dConns d ! l)"
        by (intro conn_ok_mono [OF bspec [OF co nth_mem [OF l]]]) (simp_all add: W(2,4,5))
      then show ?thesis using False by simp
    qed (use new k(1) in simp)
    then have "\<forall>c \<in> set ((dConns d)[k := Replied j r (writeWorkResult j r rw)]). conn_ok p (dCalls d) c"
      by (auto simp: in_set_conv_nth)
    moreover have "tasks_ok (dTask d) p (dCalls d) = tasks_ok (dTask d) ?p (dCalls d)" by (simp add: tasks_ok_def W(3))
    ultimately show ?thesis
      using assms(1) inv_Collect [OF pi Ret [unfolded x]] fo' by (simp add: daemon_inv_def queued_ok_def sys_of_def d' W(2))
  next
    case (Panic m)
    then have d': "d' = d\<lparr>dConns := (dConns d)[k := Dropped]\<rparr>" using assms(2) k by simp
    have "\<forall>c \<in> set ((dConns d)[k := Dropped]). conn_ok ?p (dCalls d) c"
      using co set_update_subset_insert [of "dConns d" k Dropped] by auto
    then show ?thesis using assms(1) fo' by (simp add: daemon_inv_def queued_ok_def sys_of_def d')
  qed (use assms(2) k in simp)
qed

lemma hangs_up_inv:
  assumes "daemon_inv env ps st es d" and "daemon_step env web (Hangs_Up k) d = Ret d'"
  shows "daemon_inv env ps st es d'"
proof -
  let ?p = "sPool (dSrv d)"
  obtain c rw br where k: "k < length (dConns d)" and br: "broker_step (Disconnect c :: 'a broker_event) (sBr (dSrv d)) = Ret br"
      and d': "d' = d\<lparr>dConns := (dConns d)[k := Answers rw], dSrv := (dSrv d)\<lparr>sBr := br\<rparr>\<rparr>"
    using assms(2) by (auto simp: broker_then_def lift_outcome_Ret simp del: broker_step.simps split: if_splits conn.splits)
  have "broker_inv br" using assms(1) broker_inv_step [OF _ br] by (simp add: daemon_inv_def)
  moreover have "futures_ok ((dConns d)[k := Answers rw])"
    using assms(1) k unfolding daemon_inv_def futures_ok_def by (simp add: nth_list_update)
  moreover have "conn_ok ?p (dCalls d) c" if "c \<in> set ((dConns d)[k := Answers rw])" for c
    using assms(1) that set_update_subset_insert [of "dConns d" k "Answers rw"] by (auto simp: daemon_inv_def)
  ultimately show ?thesis using assms(1) by (simp add: daemon_inv_def queued_ok_def sys_of_def d')
qed

lemma tails_inv:
  assumes "daemon_inv env ps st es d" and "daemon_step env web (Tails t msg) d = Ret d'"
  shows "daemon_inv env ps st es d'"
proof -
  obtain br where br: "broker_step (Line t msg :: 'a broker_event) (sBr (dSrv d)) = Ret br" and d': "d' = d\<lparr>dSrv := (dSrv d)\<lparr>sBr := br\<rparr>\<rparr>"
    using assms(2) by (auto simp: broker_then_def lift_outcome_Ret simp del: broker_step.simps)
  have "broker_inv br" using assms(1) broker_inv_step [OF _ br] by (simp add: daemon_inv_def)
  then show ?thesis using assms(1) by (simp add: daemon_inv_def queued_ok_def sys_of_def d')
qed

lemma counts_inv:
  assumes "daemon_inv env ps st es d" and "daemon_step env web Counts d = Ret d'"
  shows "daemon_inv env ps st es d'"
proof -
  obtain s w where sw: "record_hosted (Server.truncate (dSrv d)) (dWorld d) = Ret (s, w)"
      and d': "d' = d\<lparr>dSrv := with_server (dSrv d) s, dWorld := w\<rparr>"
    using assms(2) by (auto simp: lift_outcome_Ret)
  have same: "sCfg s = sCfg (dSrv d)" "sJq s = sJq (dSrv d)" "sPq s = sPq (dSrv d)"
    using sw by (auto simp: record_hosted_def split: option.splits prod.splits sum.splits list.splits)
  then have "sys_inv env ps st es (sys_of d')"
    using assms(1) sys_inv_reads [OF _ record_hosted_reads [OF sw], of env ps st es "Server.truncate (dSrv d)" "dCalls d" s]
    by (simp add: daemon_inv_def sys_of_def d')
  then show ?thesis using assms(1) same by (simp add: daemon_inv_def queued_ok_def d')
qed

section \<open>Runs\<close>

fun admitted :: "'d env \<Rightarrow> string set \<Rightarrow> daemon_event \<Rightarrow> bool" where
  "admitted env ps (Gets q) = plain_request env ps q"
| "admitted env ps _ = True"

inductive daemon_run :: "'d env \<Rightarrow> web \<Rightarrow> string set \<Rightarrow> 'd daemon \<Rightarrow> 'd daemon \<Rightarrow> bool" for env web ps d0 where
  listens: "daemon_run env web ps d0 d0"
| happens: "daemon_run env web ps d0 d \<Longrightarrow> admitted env ps ev \<Longrightarrow> daemon_step env web ev d = Ret d' \<Longrightarrow> daemon_run env web ps d0 d'"

lemma daemon_inv_step:
  assumes "daemon_inv env ps st es d" and "admitted env ps ev" and "daemon_step env web ev d = Ret d'"
  shows "\<exists>fs. daemon_inv env ps st (es @ fs) d'"
proof (cases "\<exists>i. ev = Goes i")
  case True
  then show ?thesis using goes_inv assms by blast
next
  case False
  have "daemon_inv env ps st es d'"
  proof (cases ev)
    case (Gets q)
    then show ?thesis using gets_inv [OF assms(1)] assms(2,3) by (simp del: daemon_step.simps)
  next
    case (Takes i)
    then show ?thesis using takes_inv [OF assms(1)] assms(3) by blast
  next
    case (Begins i)
    then show ?thesis using begins_inv [OF assms(1)] assms(3) by blast
  next
    case (Ends i)
    then show ?thesis using ends_inv [OF assms(1)] assms(3) by blast
  next
    case (Replies k)
    then show ?thesis using replies_inv [OF assms(1)] assms(3) by blast
  next
    case (Hangs_Up k)
    then show ?thesis using hangs_up_inv [OF assms(1)] assms(3) by blast
  next
    case (Tails t msg)
    then show ?thesis using tails_inv [OF assms(1)] assms(3) by blast
  next
    case Counts
    then show ?thesis using counts_inv [OF assms(1)] assms(3) by blast
  qed (use False in simp)
  then show ?thesis by (metis append_Nil2)
qed

lemma daemon_inv_run:
  assumes "daemon_run env web ps d0 d" and "daemon_inv env ps st es d0"
  shows "\<exists>fs. daemon_inv env ps st (es @ fs) d"
  using assms(1)
proof induction
  case listens
  then show ?case using assms(2) by (metis append_Nil2)
next
  case (happens d ev d')
  then show ?case using daemon_inv_step by (metis append_assoc)
qed

text \<open>The daemon when it starts to listen.\<close>

definition ListenAndServe :: "'d HttpServer \<Rightarrow> 'd world \<Rightarrow> 'd daemon" where
  "ListenAndServe s w = \<lparr>dSrv = s, dWorld = w, dConns = [], dCalls = [], dTask = Map.empty\<rparr>"

lemma daemon_inv_start:
  assumes "NewServer None (Some cfg) metrics = Ret (Inr s)" and "serving env ps (Server.truncate s, w)"
  shows "daemon_inv env ps (store_of cfg (root w)) [] (ListenAndServe s w)"
proof -
  obtain pool where p: "NewWorkerPool (cConcurrency cfg) (cBacklog cfg) = Ret pool"
      and s: "sCfg s = cfg" "sPool s = pool" "sBr s = NewBroker"
    using assms(1) by (auto simp: NewServer_def split: outcome.splits)
  have "open_items pool = []"
    using p by (auto simp: NewWorkerPool_def open_items_def split: if_splits)
  then show ?thesis
    using sys_inv_start [OF assms(2)] inv_New [OF p] inv_NewBroker s
    by (simp add: daemon_inv_def ListenAndServe_def sys_of_def queued_ok_def tasks_ok_def futures_ok_def)
qed

section \<open>Panics\<close>

lemma join_metrics: "join_result s j w = Ret (r, s', j', w') \<Longrightarrow> sMetrics s' = None \<longleftrightarrow> sMetrics s = None"
  by (auto simp: join_result_def Let_def split: if_splits prod.splits sum.splits outcome.splits option.splits)

lemma step_metrics:
  assumes "thread_step env s th w = Ret (s', th', w')"
  shows "sMetrics s' = None \<longleftrightarrow> sMetrics s = None"
proof (cases th)
  case (Builds start j)
  obtain err s1 j1 w1 where b: "build_body env s j start w = (err, s1, j1, w1)" by (metis prod_cases4)
  have "sMetrics s' = sMetrics s1" using assms Builds b by (auto simp: build_step_def split: prod.splits)
  then show ?thesis using build_body_tallied [OF b] by (auto simp: tallied_def split: option.splits)
qed (use assms in \<open>auto simp: enter_step_def work_begin_def join_step_def collect_step_def check_step_def prepare_step_def stage_step_def
    move_step_def link_step_def relink_step_def Let_def
    split: prod.splits sum.splits outcome.splits option.splits if_splits dest: BootstrapProject_metrics join_metrics\<close>)

lemma daemon_step_metrics:
  assumes "daemon_inv env ps st es d" and "admitted env ps ev" and "daemon_step env web ev d = Ret d'"
  shows "sMetrics (dSrv d') = None \<longleftrightarrow> sMetrics (dSrv d) = None"
proof (cases ev)
  case (Gets q)
  have "Server.truncate (dSrv d') = Server.truncate (dSrv d)"
    using assms(2,3) Gets ServeHTTP_effect(2) [OF _ _ daemon_inv_names [OF assms(1)]]
    by (auto split: outcome.splits)
  then show ?thesis using truncate_sel(4) by metis
next
  case (Goes i)
  then show ?thesis using assms(3) by (auto simp: with_server_def split: option.splits outcome.splits dest: step_metrics)
next
  case Counts
  then show ?thesis
    using assms(3) by (auto simp: lift_outcome_Ret record_hosted_def with_server_def split: option.splits prod.splits sum.splits list.splits)
qed (use assms(3) in \<open>auto simp: pool_then_def broker_then_def lift_outcome_Ret simp del: broker_step.simps
    split: if_splits wstate.splits option.splits thread.splits conn.splits outcome.splits\<close>)

lemma pool_no_panic:
  assumes "pool_inv p"
  shows "work_receive i p \<noteq> Panic m" "work_finish i r p \<noteq> Panic m"
proof -
  show "work_receive i p \<noteq> Panic m" by (auto simp: work_receive_def split: list.splits)
  show "work_finish i r p \<noteq> Panic m"
  proof
    assume f: "work_finish i r p = Panic m"
    then obtain item where "i < length (pWorkers p)" "pWorkers p ! i = Busy item"
      by (auto simp: work_finish_def split: if_splits wstate.splits)
    moreover from this have "item \<in> set (open_items p)" by (force simp: open_items_def in_set_conv_nth)
    then have "pChans p ! wiResult item = \<lparr>rcBuf = None, rcClosed = False\<rparr>" using assms by (simp add: pool_inv_def)
    ultimately show False using f by (simp add: work_finish_def)
  qed
qed

lemma broker_no_panic:
  assumes "broker_inv br" and "\<forall>t \<in> set (brTails br). tkTailer t \<noteq> NilTailer"
  shows "broker_step (Disconnect c :: 'd broker_event) br \<noteq> Panic m" "broker_step (Line t msg :: 'd broker_event) br \<noteq> Panic m"
proof -
  have "tkTailer (brTails br ! k) \<noteq> NilTailer" if "live br i k" for i k using assms(2) that by (simp add: live_def)
  then show "broker_step (Disconnect c :: 'd broker_event) br \<noteq> Panic m"
    using inv_disconnect(2) [OF assms(1), of c] by (cases "c \<in> set (brClients br)") auto
  show "broker_step (Line t msg :: 'd broker_event) br \<noteq> Panic m"
  proof (cases "t < length (brTails br)")
    case True
    then obtain h where "scan_line t msg br = Ret (br\<lparr>brHeap := h\<rparr>)" using scan_line_ok [OF assms(1)] assms(2) nth_mem by metis
    then show ?thesis using True by simp
  qed simp
qed

lemma daemon_no_panic:
  fixes env :: "'d env"
  assumes "daemon_inv env ps st es d" and "sMetrics (dSrv d) \<noteq> None" and "\<forall>t \<in> set (brTails (sBr (dSrv d))). tkTailer t \<noteq> NilTailer"
  shows "daemon_step env web ev d \<noteq> Panic m"
proof (cases ev)
  case (Goes i)
  have inv: "sys_inv env ps st es (sys_of d)" "tasks_ok (dTask d) (sPool (dSrv d)) (dCalls d)" using assms(1) by (simp_all add: daemon_inv_def)
  have "thread_step env (Server.truncate (dSrv d)) (dCalls d ! n) (dWorld d) \<noteq> Panic m" if "dTask d i = Some n" for n
  proof -
    have "n < length (yCalls (sys_of d))" using inv(2) that by (simp add: tasks_ok_def sys_of_def)
    from sys_inv_no_panic [OF inv(1) this] show ?thesis by (simp add: sys_of_def)
  qed
  then show ?thesis using Goes by (auto split: option.splits outcome.splits)
next
  case Counts
  then show ?thesis using assms(2) by (auto simp: record_hosted_def split: option.splits prod.splits)
qed (use pool_no_panic [of "sPool (dSrv d)"] broker_no_panic [where 'd = 'd, OF _ assms(3)] assms(1) in
    \<open>auto simp: daemon_inv_def pool_then_def broker_then_def lift_outcome_Panic simp del: broker_step.simps
      split: if_splits wstate.splits option.splits thread.splits conn.splits outcome.splits\<close>)

section \<open>What clients get\<close>

lemma daemon_run_metrics:
  assumes "daemon_run env web ps d0 d" and "daemon_inv env ps st es d0"
  shows "sMetrics (dSrv d) = None \<longleftrightarrow> sMetrics (dSrv d0) = None"
  using assms(1)
proof induction
  case (happens d ev d')
  then show ?case using daemon_inv_run [OF _ assms(2)] daemon_step_metrics by metis
qed simp

lemma run_answers:
  assumes "daemon_inv env ps st es d"
  shows "store_history st es = Some (store_of (sCfg (dSrv d)) (root (dWorld d)))"
    and "Replied j r rw \<in> set (dConns d) \<Longrightarrow>
      rw = writeWorkResult j r NewResponseWriter \<and> (\<exists>n. explained es n (job_key j) (wrBuildInfo r, wrErr r))"
proof -
  show "store_history st es = Some (store_of (sCfg (dSrv d)) (root (dWorld d)))"
    using assms by (simp add: daemon_inv_def sys_inv_def sys_of_def Let_def)
  assume "Replied j r rw \<in> set (dConns d)"
  then have ok: "served_by (dCalls d) j r" "rw = writeWorkResult j r NewResponseWriter"
    using assms unfolding daemon_inv_def by (metis conn_ok.simps(2))+
  then obtain n i where n: "n < length (dCalls d)" "dCalls d ! n = Done (wrBuildInfo r, wrErr r) i" "job_key i = job_key j"
    unfolding served_by_def by blast
  have "phase_ok env es n (root (dWorld d)) (dCalls d ! n)"
    using assms n(1) by (simp add: daemon_inv_def sys_inv_def sys_of_def Let_def)
  then show "rw = writeWorkResult j r NewResponseWriter \<and> (\<exists>n. explained es n (job_key j) (wrBuildInfo r, wrErr r))"
    using n ok(2) by auto
qed


section \<open>A request from end to end\<close>

lemma call_alone_daemon:
  assumes "run_alone env k (Server.truncate (dSrv d)) (dCalls d ! n) (dWorld d) = Ret (rep, s, j, w)"
    and "daemon_run env web ps d0 d" and "dTask d i = Some n" and "n < length (dCalls d)"
  shows "daemon_run env web ps d0 (d\<lparr>dSrv := with_server (dSrv d) s, dWorld := w, dCalls := (dCalls d)[n := Done rep j]\<rparr>)"
  using assms
proof (induction k arbitrary: d)
  case 0
  then obtain "dCalls d ! n = Done rep j" "s = Server.truncate (dSrv d)" "w = dWorld d" by (cases "dCalls d ! n") auto
  then show ?case using 0(2) list_update_id [of "dCalls d" n] by (simp add: with_server_def)
next
  case (Suc k)
  show ?case
  proof (cases "thread_step env (Server.truncate (dSrv d)) (dCalls d ! n) (dWorld d)")
    case (Ret x)
    obtain s1 th1 w1 where x: "x = (s1, th1, w1)" by (metis prod_cases3)
    let ?d = "d\<lparr>dSrv := with_server (dSrv d) s1, dWorld := w1, dCalls := (dCalls d)[n := th1]\<rparr>"
    have "run_alone env k (Server.truncate (dSrv ?d)) (dCalls ?d ! n) (dWorld ?d) = Ret (rep, s, j, w)"
      using run_step [OF Ret [unfolded x], of k] Suc.prems(1,4) by simp
    moreover have "daemon_run env web ps d0 ?d"
      by (rule daemon_run.happens [OF Suc.prems(2), of "Goes i"]) (use Ret x Suc.prems(3) in simp_all)
    ultimately show ?thesis using Suc.IH [of ?d] Suc.prems(3,4) by (simp add: with_server_def)
  next
    case Blocked
    then obtain "dCalls d ! n = Done rep j" "s = Server.truncate (dSrv d)" "w = dWorld d"
      using Suc.prems(1) by (cases "dCalls d ! n") auto
    then show ?thesis using Suc.prems(2) list_update_id [of "dCalls d" n] by (simp add: with_server_def)
  next
    case (Panic m)
    then show ?thesis using Suc.prems(1) run_stops(1) by fastforce
  qed
qed

lemma demo_new_server: "NewServer None (Some demo_config) True = Ret (Inr demo_http)"
  using demo_pool_new by (simp add: NewServer_def demo_http_def demo_config_def)

text \<open>The daemon of the examples after one request.\<close>

lemma demo_asked:
  "\<exists>j w1. reads (demo_world demo_tree) w1 \<and>
     daemon_run (demo_env 0) demo_web {''app''} (ListenAndServe demo_http (demo_world demo_tree))
       \<lparr>dSrv = demo_http\<lparr>sPool := demo_pool\<lparr>pChans := [\<lparr>rcBuf = None, rcClosed = False\<rparr>],
        pQueue := [\<lparr>wiJob = j, wiResult = 0\<rparr>]\<rparr>\<rparr>, dWorld = w1, dConns = [Waits_For j 0 NewResponseWriter], dCalls = [], dTask = Map.empty\<rparr>"
proof -
  let ?p1 = "\<lambda>j. demo_pool\<lparr>pChans := [\<lparr>rcBuf = None, rcClosed = False\<rparr>], pQueue := [\<lparr>wiJob = j, wiResult = 0\<rparr>]\<rparr>"
  have q: "qMethod (demo_post []) = ''POST''" "qQuery (demo_post []) = []" "qPath (demo_post []) = ''/jobs''"
      "qBody (demo_post []) = Inr (Doc (marshal_JobRequest demo_request))" "rProject demo_request = ''app''" "rGroup demo_request = []"
    by (simp_all add: demo_post_def demo_request_def)
  obtain j w1 where a: "schedule_job (demo_env 0) demo_http (demo_post []) NewResponseWriter (demo_world demo_tree) =
      Ret (Awaits j 0 NewResponseWriter, demo_http\<lparr>sPool := ?p1 j\<rparr>, w1)"
    using demo_schedules [OF q(1,2,4) demo_request_decodes q(5,6)] by blast
  let ?d1 = "\<lparr>dSrv = demo_http\<lparr>sPool := ?p1 j\<rparr>, dWorld = w1, dConns = [Waits_For j 0 NewResponseWriter], dCalls = [], dTask = Map.empty\<rparr>"
  have "mux_handler ''POST'' ''/jobs'' = Handled New_Job" by code_simp
  then have "daemon_step (demo_env 0) demo_web (Gets (demo_post [])) (ListenAndServe demo_http (demo_world demo_tree)) = Ret ?d1"
    using a q(1,3) by (simp add: ServeHTTP_def ListenAndServe_def)
  moreover have "plain_request (demo_env 0) {''app''} (demo_post [])"
    using demo_request_decodes q(4) by (simp add: plain_request_def demo_request_def clean_name_def)
  ultimately have "daemon_run (demo_env 0) demo_web {''app''} (ListenAndServe demo_http (demo_world demo_tree)) ?d1"
    using daemon_run.happens [OF daemon_run.listens, of _ _ "Gets (demo_post [])"] by simp
  then show ?thesis using schedule_job_reads [OF a] by blast
qed

lemma demo_daemon:
  "\<exists>d j r rw. daemon_run (demo_env 0) demo_web {''app''} (ListenAndServe demo_http (demo_world demo_tree)) d \<and> dConns d = [Replied j r rw]"
proof -
  let ?run = "daemon_run (demo_env 0) demo_web {''app''} (ListenAndServe demo_http (demo_world demo_tree))"
  let ?p1 = "\<lambda>j. demo_pool\<lparr>pChans := [\<lparr>rcBuf = None, rcClosed = False\<rparr>], pQueue := [\<lparr>wiJob = j, wiResult = 0\<rparr>]\<rparr>"
  obtain j w1 where rd: "reads (demo_world demo_tree) w1"
      and r1: "?run \<lparr>dSrv = demo_http\<lparr>sPool := ?p1 j\<rparr>, dWorld = w1, dConns = [Waits_For j 0 NewResponseWriter], dCalls = [], dTask = Map.empty\<rparr>"
    using demo_asked by blast
  let ?d1 = "\<lparr>dSrv = demo_http\<lparr>sPool := ?p1 j\<rparr>, dWorld = w1, dConns = [Waits_For j 0 NewResponseWriter], dCalls = [], dTask = Map.empty\<rparr>"
  let ?p2 = "(?p1 j)\<lparr>pQueue := [], pWorkers := [Busy \<lparr>wiJob = j, wiResult = 0\<rparr>]\<rparr>"
  let ?d2 = "?d1\<lparr>dSrv := demo_http\<lparr>sPool := ?p2\<rparr>\<rparr>"
  let ?d3 = "?d2\<lparr>dCalls := [Enters j], dTask := [0 \<mapsto> 0]\<rparr>"
  obtain es where "daemon_inv (demo_env 0) {''app''} (store_of demo_config demo_tree) es ?d1"
    using daemon_inv_run [OF r1 daemon_inv_start [OF demo_new_server]] demo_serving demo_http_server by fastforce
  then have tk: "takes_job (demo_env 0) {''app''} demo_config j" by (simp add: daemon_inv_def queued_ok_def open_items_def)
  have "pWorkers demo_pool = [Idle]" by (simp add: demo_pool_def)
  then have r3: "?run ?d3"
    by (intro daemon_run.happens [OF daemon_run.happens [OF r1, of "Takes 0" ?d2], of "Begins 0"])
      (simp_all add: pool_then_def work_receive_def)
  have "serving (demo_env 0) {''app''} (demo_server, w1)"
    using demo_serving rd by (simp add: serving_def reads_def)
  then obtain rep s2 j2 w2 where W: "Work (demo_env 0) [] demo_server j w1 = Ret (rep, s2, j2, w2)"
    using serve_work_step [of "demo_env 0" "{''app''}" demo_server w1 j] tk by (metis demo_server_sel(1) fst_conv)
  then have al: "run_alone (demo_env 0) (0 + 9) demo_server (Enters j) w1 = Ret (rep, s2, j2, w2)"
    using run_uninterrupted [of demo_server j "demo_env 0" "[]" w1 0] by simp
  let ?d4 = "?d3\<lparr>dSrv := with_server (dSrv ?d3) s2, dWorld := w2, dCalls := [Done rep j2]\<rparr>"
  have r4: "?run ?d4"
    using call_alone_daemon [OF _ r3, of "0 + 9" 0 rep s2 j2 w2 0] al by (simp add: demo_http_server)
  let ?r = "\<lparr>wrBuildInfo = fst rep, wrErr = snd rep\<rparr>"
  let ?p5 = "?p2\<lparr>pChans := [\<lparr>rcBuf = Some ?r, rcClosed = True\<rparr>], pWorkers := [Idle]\<rparr>"
  let ?d5 = "?d4\<lparr>dTask := (dTask ?d4)(0 := None), dSrv := (dSrv ?d4)\<lparr>sPool := ?p5\<rparr>\<rparr>"
  have "daemon_step (demo_env 0) demo_web (Ends 0) ?d4 = Ret ?d5"
    by (cases rep) (simp add: pool_then_def work_finish_def)
  then have r5: "?run ?d5" using daemon_run.happens [OF r4, of "Ends 0"] by simp
  have "\<exists>d. daemon_step (demo_env 0) demo_web (Replies 0) ?d5 = Ret d \<and>
      dConns d = [Replied j ?r (writeWorkResult j ?r NewResponseWriter)]"
    by (simp add: FutureWorkResult_Wait_def)
  then show ?thesis using daemon_run.happens [OF r5, of "Replies 0"] by (metis admitted.simps(6))
qed


end
