(* ===== verification/Daemon.thy ===== *)
theory Daemon
  imports Handlers
begin

text \<open>
  The file \<open>cmd/mistryd/main.go\<close>: the two commands of the daemon, its flags and its end. The
  \<open>cli\<close> package is outside: what it makes of the arguments is an argument here. A server that has
  started serves requests until its process ends, so \<open>StartServer\<close> yields the server that runs.
\<close>

section \<open>Commands\<close>

definition SetUp :: "'d Config \<Rightarrow> 'd world \<Rightarrow> goerr option \<times> 'd world" where
  "SetUp cfg w =
     (case PruneZombieBuilds cfg w of
        (Some err, w) \<Rightarrow> (Some err, w)
      | (None, w) \<Rightarrow> (None, w))"

text \<open>Opening a directory succeeds; reading it fails.\<close>

definition parseConfigFromCli ::
  "'d env \<Rightarrow> string \<Rightarrow> string \<Rightarrow> string \<Rightarrow> 'd world \<Rightarrow> (goerr + 'd Config) \<times> 'd world" where
  "parseConfigFromCli env filesystem config addr w =
     (case Get env filesystem of
        Inl err \<Rightarrow> (Inl err, w)
      | Inr fs \<Rightarrow>
          (case (if config = [] then (Inl (PathError ''open'' [] ENOENT), w) else os_Open (fpath config) w) of
             (Inl err, w) \<Rightarrow> (Inl (ErrorString (''cannot parse configuration; '' @ Error err)), w)
           | (Inr (File c), w) \<Rightarrow> ParseConfig env addr fs c w
           | (Inr _, w) \<Rightarrow>
               (Inl (if addr = [] then ErrorString ''addr must be provided''
                     else PathError ''read'' (fpath config) EISDIR), w)))"

definition StartServer :: "goerr option \<Rightarrow> 'd Config \<Rightarrow> (goerr + 'd HttpServer) outcome" where
  "StartServer fserr cfg = NewServer fserr (Some cfg) True"

text \<open>The command without a name.\<close>

definition serve_action ::
  "'d env \<Rightarrow> goerr option \<Rightarrow> string \<Rightarrow> string \<Rightarrow> string \<Rightarrow> 'd world \<Rightarrow> ((goerr + 'd HttpServer) \<times> 'd world) outcome" where
  "serve_action env fserr filesystem config addr w =
     (case parseConfigFromCli env filesystem config addr w of
        (Inl err, w) \<Rightarrow> Ret (Inl err, w)
      | (Inr cfg, w) \<Rightarrow>
          (case SetUp cfg w of
             (Some err, w) \<Rightarrow> Ret (Inl err, w)
           | (None, w) \<Rightarrow>
               (case StartServer fserr cfg of
                  Blocked \<Rightarrow> Blocked
                | Panic m \<Rightarrow> Panic m
                | Ret r \<Rightarrow> Ret (r, w))))"

text \<open>The command \<open>rebuild\<close>: an error, or the last line it prints.\<close>

definition rebuild_action ::
  "'d env \<Rightarrow> (nat \<Rightarrow> string) \<Rightarrow> string \<Rightarrow> string \<Rightarrow> string \<Rightarrow> string list \<Rightarrow> bool \<Rightarrow> bool \<Rightarrow> 'd world \<Rightarrow>
     ((goerr + string) \<times> 'd world) outcome" where
  "rebuild_action env human_size filesystem config addr projects failFast verbose w =
     (case parseConfigFromCli env filesystem config addr w of
        (Inl err, w) \<Rightarrow> Ret (Inl err, w)
      | (Inr cfg, w) \<Rightarrow>
          (case RebuildImages env cfg projects failFast verbose w of
             Blocked \<Rightarrow> Blocked
           | Panic m \<Rightarrow> Panic m
           | Ret ((r, Some err), w) \<Rightarrow> Ret (Inl err, w)
           | Ret ((r, None), w) \<Rightarrow>
               if rFailed r \<noteq> [] then Ret (Inl (ErrorString (RebuildResult_String human_size r)), w)
               else Ret (Inr (''Finished. '' @ RebuildResult_String human_size r), w)))"

section \<open>The program\<close>

definition Version :: string where
  "Version = ''0.1.0''"

definition app_version :: "string \<Rightarrow> string outcome" where
  "app_version VersionSuffix =
     (if VersionSuffix = [] then Ret Version
      else if length VersionSuffix < 7 then Panic ''slice bounds out of range''
      else Ret (Version @ ''-'' @ take 7 VersionSuffix))"

record daemon_flags =
  dfAddr :: string
  dfConfig :: string
  dfFilesystem :: string

record rebuild_flags =
  rfFailFast :: bool
  rfProjects :: "string list"
  rfVerbose :: bool

definition daemon_defaults :: daemon_flags where
  "daemon_defaults = \<lparr>dfAddr = ''0.0.0.0:8462'', dfConfig = ''config.json'', dfFilesystem = ''plain''\<rparr>"

definition rebuild_defaults :: rebuild_flags where
  "rebuild_defaults = \<lparr>rfFailFast = False, rfProjects = [], rfVerbose = False\<rparr>"

datatype invocation = Run_Server daemon_flags | Run_Rebuild daemon_flags rebuild_flags

text \<open>What has become of the process: it serves, or it has exited with a status and a last line.\<close>

datatype 'd process = Is_Serving "'d HttpServer" | Exits int string

definition main ::
  "'d env \<Rightarrow> (nat \<Rightarrow> string) \<Rightarrow> goerr option \<Rightarrow> string \<Rightarrow> invocation \<Rightarrow> 'd world \<Rightarrow> ('d process \<times> 'd world) outcome" where
  "main env human_size fserr VersionSuffix cmd w =
     (case app_version VersionSuffix of
        Blocked \<Rightarrow> Blocked
      | Panic m \<Rightarrow> Panic m
      | Ret _ \<Rightarrow>
          (case cmd of
             Run_Server f \<Rightarrow>
               (case serve_action env fserr (dfFilesystem f) (dfConfig f) (dfAddr f) w of
                  Blocked \<Rightarrow> Blocked
                | Panic m \<Rightarrow> Panic m
                | Ret (Inl err, w) \<Rightarrow> Ret (Exits 1 (Error err), w)
                | Ret (Inr s, w) \<Rightarrow> Ret (Is_Serving s, w))
           | Run_Rebuild f r \<Rightarrow>
               (case rebuild_action env human_size (dfFilesystem f) (dfConfig f) (dfAddr f) (rfProjects r) (rfFailFast r) (rfVerbose r) w of
                  Blocked \<Rightarrow> Blocked
                | Panic m \<Rightarrow> Panic m
                | Ret (Inl err, w) \<Rightarrow> Ret (Exits 1 (Error err), w)
                | Ret (Inr out, w) \<Rightarrow> Ret (Exits 0 out, w))))"

text \<open>
  The goroutine of \<open>StartServer\<close>, when \<open>ListenAndServe\<close> has returned: \<open>log.Fatal\<close> ends the process
  at once; only without an error the pool would be stopped and \<open>main\<close> return.
\<close>

definition server_ends :: "goerr option \<Rightarrow> 'd HttpServer \<Rightarrow> ('d process) outcome" where
  "server_ends err s =
     (case err of
        Some e \<Rightarrow> Ret (Exits 1 (Error e))
      | None \<Rightarrow>
          (case Stop_close (sPool s) of
             Blocked \<Rightarrow> Blocked
           | Panic m \<Rightarrow> Panic m
           | Ret p \<Rightarrow> (case Stop_wait p of Blocked \<Rightarrow> Blocked | Panic m \<Rightarrow> Panic m | Ret p \<Rightarrow> Ret (Exits 0 []))))"

section \<open>The configuration\<close>

lemma PathIsDir_dir: "PathIsDir p w = (None, w') \<Longrightarrow> \<exists>q es. fs_stat max_links True (fpath p) (root w) = Inr (q, Dir es)"
  by (auto simp: PathIsDir_def os_Stat_def IsDir_iff map_sum_def split: if_splits prod.splits sum.splits dest!: path_get_Inr)


definition demo_config_doc :: "int \<Rightarrow> content" where
  "demo_config_doc n = Doc (JObj [(''projects_path'', JStr ''/projects''), (''build_path'', JStr ''/build''), (''job_backlog'', JInt n)])"

lemma config_keys [simp]:
  "lower ''projects_path'' = ''projects_path''" "lower ''build_path'' = ''build_path''" "lower ''job_backlog'' = ''job_backlog''"
  by code_simp+

lemma ParseConfig_backlog:
  assumes "quiet w" and "addr \<noteq> []" and "P \<noteq> []" and "B \<noteq> []" and "is_dir (root w) (fpath P)" and "is_dir (root w) (fpath B)"
  shows "\<exists>cfg. ParseConfig env addr fs (Doc (JObj [(''projects_path'', JStr P), (''build_path'', JStr B), (''job_backlog'', JInt n)])) w = (Inr cfg, w) \<and>
     cBacklog cfg = (if n = 0 then num_cpu env * 2 else n) \<and> cConcurrency cfg = num_cpu env"
proof -
  obtain es es' where d: "lookup (root w) (fpath P) = Some (Dir es)" "lookup (root w) (fpath B) = Some (Dir es')"
    using assms(5,6) by (auto simp: is_dir_iff)
  then show ?thesis
    using assms(1-4)
    by (simp add: ParseConfig_def unmarshal_struct_def set_Config_field_def Let_def PathIsDir_def os_simps config_defaults_def)
qed


text \<open>
  A negative backlog passes \<open>ParseConfig\<close>, and the server panics when it makes the channel of
  its worker pool.
\<close>

theorem negative_backlog_panics:
  assumes "quiet w" and "addr \<noteq> []" and "P \<noteq> []" and "B \<noteq> []" and "is_dir (root w) (fpath P)" and "is_dir (root w) (fpath B)"
    and "n < 0"
  shows "\<exists>cfg. ParseConfig env addr fs (Doc (JObj [(''projects_path'', JStr P), (''build_path'', JStr B), (''job_backlog'', JInt n)])) w = (Inr cfg, w) \<and>
     StartServer None cfg = Panic ''makechan: size out of range''"
proof -
  obtain cfg where c: "ParseConfig env addr fs (Doc (JObj [(''projects_path'', JStr P), (''build_path'', JStr B), (''job_backlog'', JInt n)])) w = (Inr cfg, w)"
      "cBacklog cfg = (if n = 0 then num_cpu env * 2 else n)"
    using ParseConfig_backlog [OF assms(1-6), of env fs n] by blast
  then have "cBacklog cfg < 0" using assms(7) by simp
  then have "StartServer None cfg = Panic ''makechan: size out of range''"
    by (simp add: StartServer_def NewServer_def NewWorkerPool_def)
  with c(1) show ?thesis by blast
qed

theorem negative_backlog_panics_witness:
  "\<exists>cfg. ParseConfig (demo_env 0) ''0.0.0.0:8462'' (PlainFS (demo_env 0)) (demo_config_doc (- 1)) (demo_world demo_tree) = (Inr cfg, demo_world demo_tree) \<and>
     StartServer None cfg = Panic ''makechan: size out of range''"
  using negative_backlog_panics [of "demo_world demo_tree" "''0.0.0.0:8462''" "''/projects''" "''/build''" "- 1" "demo_env 0" "PlainFS (demo_env 0)"]
  by (simp add: demo_config_doc_def is_dir_def demo_tree_def)

section \<open>Recovery\<close>

text \<open>A job whose pending directory an earlier server has left behind.\<close>

definition interrupted :: "'d env \<Rightarrow> 'd Server \<Rightarrow> Job \<Rightarrow> node \<Rightarrow> bool" where
  "interrupted env s j r \<longleftrightarrow>
     keeps_mounts env \<and> cMounts (sCfg s) = [] \<and> cFileSystem (sCfg s) = PlainFS env \<and> wf_job j \<and> plain_params j \<and>
     jRootBuildPath j = build_dir (sCfg s) @ [jProject j] \<and> clean_name (jProject j) \<and> layout j r \<and> has_base env j r \<and>
     is_dir r (projects_dir (sCfg s) @ [jProject j]) \<and> \<not> prefix (build_dir (sCfg s)) (projects_dir (sCfg s)) \<and>
     lookup r (jPendingBuildPath j) \<noteq> None \<and> lookup r (jReadyBuildPath j) = None \<and> \<not> held (sPq s) (jProject j)"

lemma interrupted_pruned:
  assumes "interrupted env s j r" and "pruned (build_dir (sCfg s)) ps r r'" and "jProject j \<in> set ps"
  shows "can_build env s j r' \<and> lookup r' (jReadyBuildPath j) = None"
proof -
  let ?B = "build_dir (sCfg s)" and ?R = "jRootBuildPath j"
  have R: "?R = ?B @ [jProject j]" and wf: "wf_job j" and lay: "layout j r"
    using assms(1) by (simp_all add: interrupted_def)
  have P: "jPendingBuildPath j = ?B @ [jProject j, ''pending'', jID j]" "jReadyBuildPath j = ?R @ [''ready'', jID j]"
    using wf R by (simp_all add: wf_job_def)
  have keep: "lookup r' (?R @ c # q) = lookup r (?R @ c # q)" if "c \<noteq> ''pending''" for c q
    by (rule pruned_keeps [OF assms(2)]) (use that R in auto)
  have dir: "is_dir r' q" if "is_dir r q" "\<And>p. p \<in> set ps \<Longrightarrow> \<not> strict_prefix (pending_dir ?B p) q" for q
    using assms(2) that by (simp add: pruned_def)
  have "lookup r (pending_dir ?B (jProject j) @ [jID j]) \<noteq> None"
    using assms(1) P(1) by (simp add: interrupted_def)
  then have dp: "is_dir r (pending_dir ?B (jProject j))" by (rule lookup_snoc_dir)
  then have pd: "lookup r' (pending_dir ?B (jProject j)) = Some (Dir [])"
    using assms(2,3) by (auto simp: pruned_def is_dir_iff)
  then have new: "lookup r' (jPendingBuildPath j) = None"
    using P(1) lookup_snoc [of r' "pending_dir ?B (jProject j)" "jID j"] by simp
  have root: "is_dir r ?R" using dp R by (auto intro: is_dir_prefix)
  have "is_dir r' ?R" by (rule dir [OF root]) (auto simp: R strict_prefix_def dest: prefix_length_le)
  moreover have "is_dir r' ?B"
    by (rule dir) (use root R in \<open>auto simp: strict_prefix_def intro: is_dir_prefix dest: prefix_length_le\<close>)
  moreover have "is_dir r' (?R @ [''pending''])" using pd R by (simp add: is_dir_def)
  moreover have latest: "lookup r' (jLatestBuildPath j) = lookup r (jLatestBuildPath j)"
    using wf keep [of "''latest''" "[]"] keep [of "''groups''" "[jGroup j]"] by (auto simp: wf_job_def)
  ultimately have "layout j r'"
    using lay keep [of "''ready''" "[]"] keep [of "''groups''" "[]"] R by (simp add: layout_def dir_or_new_def is_dir_def)
  moreover have "has_base env j r'"
    using assms(1) latest keep [of "''ready''"] by (auto simp: interrupted_def has_base_def no_base_def based_on_def)
  moreover have "is_dir r' (projects_dir (sCfg s) @ [jProject j])"
  proof (rule dir)
    show "is_dir r (projects_dir (sCfg s) @ [jProject j])" using assms(1) by (simp add: interrupted_def)
    show "\<not> strict_prefix (pending_dir ?B p) (projects_dir (sCfg s) @ [jProject j])" for p
    proof
      assume a: "strict_prefix (pending_dir ?B p) (projects_dir (sCfg s) @ [jProject j])"
      then have "prefix (pending_dir ?B p) (projects_dir (sCfg s))" by (auto simp: strict_prefix_def)
      then show False using assms(1) by (auto simp: interrupted_def dest: append_prefixD)
    qed
  qed
  moreover have "lookup r (jReadyBuildPath j) = None" using assms(1) by (simp add: interrupted_def)
  then have "lookup r' (jReadyBuildPath j) = None"
    unfolding P(2) using keep [of "''ready''" "[jID j]"] by simp
  ultimately show ?thesis
    using assms(1) new by (simp add: interrupted_def can_build_def buildable_def)
qed

text \<open>
  Recovery after a crash: for a job whose build an earlier server did not finish, \<open>SetUp\<close>
  clears what it left, and the next request for the job is an ordinary fresh build, which is
  followed through and published.
\<close>

theorem SetUp_recovers:
  assumes "interrupted env s j (root w)" and "quiet w" and "\<not> enqueued (sJq s) (jID j)"
    and "lookup (root w) (projects_dir (sCfg s)) = Some (Dir es)" and "plain_entries es"
    and "\<forall>p \<in> set (map fst (filter is_project es)). prunable (build_dir (sCfg s)) (root w) p"
    and "jProject j \<in> set (map fst (filter is_project es))"
  shows "\<exists>w' bi err s' j' w''. SetUp (sCfg s) w = (None, w') \<and>
     Work env evs s j w' = Ret ((Some bi, err), s', j', w'') \<and>
     finished j (err = None \<and> bExitCode bi = 0) bi (root w') (root w'')"
proof -
  let ?ps = "map fst (filter is_project (sort_key fst es))"
  have "distinct (map fst (sort_key fst es))" using assms(5) by (simp add: plain_entries_def)
  then have "distinct ?ps" by (rule distinct_map_filter)
  moreover have "cFileSystem (sCfg s) = PlainFS env" using assms(1) by (simp add: interrupted_def)
  moreover have "\<forall>p \<in> set ?ps. prunable (build_dir (sCfg s)) (root w) p" using assms(6) by simp
  ultimately obtain w' where p: "prune_projects (sCfg s) ?ps w = (None, w')" "quiet w'" "pruned (build_dir (sCfg s)) ?ps (root w) (root w')"
    using prune_projects_plain [of "sCfg s" env w ?ps] assms(2) by blast
  have "SetUp (sCfg s) w = (None, w')"
    using p(1) getProjects_quiet [OF assms(2,4,5)] by (simp add: SetUp_def PruneZombieBuilds_def)
  moreover have "can_build env s j (root w')" "lookup (root w') (jReadyBuildPath j) = None"
    using interrupted_pruned [OF assms(1) p(3)] assms(7) by auto
  ultimately show ?thesis
    using Work_builds [OF _ p(2) assms(3), where evs = evs] by blast
qed

theorem SetUp_recovers_witness:
  "\<exists>w' bi err s' j' w''. SetUp demo_config (demo_world demo_zombies) = (None, w') \<and>
     Work (demo_env 0) [] demo_server (demo_job []) w' = Ret ((Some bi, err), s', j', w'') \<and>
     lookup (root w'') (jPendingBuildPath (demo_job [])) = None"
proof -
  let ?es = "[(''web'', demo_project), (''app'', demo_project), (''notes'', Dir [])]"
  have "interrupted (demo_env 0) demo_server (demo_job []) demo_zombies"
    by (simp add: interrupted_def demo_keeps_mounts demo_wf_job demo_plain_params demo_has_base layout_def dir_or_new_def is_dir_def
        demo_zombies_def demo_project_def clean_name_def) (simp add: demo_job_def latest_path_def)
  moreover have "''app'' \<in> set (map fst (filter is_project ?es))" by (simp add: is_project_def demo_project_def)
  ultimately show ?thesis
    using SetUp_recovers [of "demo_env 0" demo_server "demo_job []" "demo_world demo_zombies" ?es "[]"] demo_zombies_lookup
    by (fastforce simp: finished_def)
qed

end
