(* ===== verification/Startup.thy ===== *)
theory Startup
  imports Running Daemon
begin

text \<open>
  From the command line to the answers: \<open>mistryd\<close> (\<open>cmd/mistryd/main.go\<close>) is started over the files
  that an earlier process left behind, which may have been killed at any moment.
\<close>

section \<open>What a killed daemon leaves\<close>

text \<open>Pending builds may be in any state; all else is in order.\<close>

lemma killed_leaves:
  assumes "NewServer None (Some cfg) metrics = Ret (Inr s)" and "serving env ps (Server.truncate s, w)"
    and "daemon_run env web ps (ListenAndServe s w) d" and "p \<in> ps"
  shows "project_files env (sCfg (dSrv d)) UNIV (root (dWorld d)) p"
proof -
  obtain es where "daemon_inv env ps (store_of cfg (root w)) es d"
    using daemon_inv_run [OF assms(3) daemon_inv_start [OF assms(1,2)]] by auto
  then have "project_files env (sCfg (dSrv d)) (busy_of (dCalls d)) (root (dWorld d)) p"
    using assms(4) by (simp add: daemon_inv_def sys_inv_def sys_of_def site_def Let_def)
  then show ?thesis by (simp add: project_files_def Let_def)
qed

section \<open>What pruning makes of it\<close>

lemma pruned_outside_pending:
  assumes "pruned B ps r r'" and "c \<noteq> ''pending''"
  shows "lookup r' (B @ p # c # q) = lookup r (B @ p # c # q)"
  by (rule pruned_keeps [OF assms(1)]) (use assms(2) in auto)

lemma pruned_project_files:
  assumes "pruned (build_dir cfg) ps r r'" and "project_files env cfg UNIV r p" and "p \<in> set ps"
  shows "good_project env cfg r' p"
proof -
  let ?B = "build_dir cfg"
  have pf: "clean_name p" "is_dir r (projects_dir cfg @ [p])" "\<not> prefix ?B (projects_dir cfg @ [p])"
      "is_dir r ?B" "dir_or_new r (?B @ [p])" "dir_or_new r (?B @ [p, ''pending''])" "dir_or_new r (?B @ [p, ''ready''])"
      "dir_or_new r (?B @ [p, ''groups''])" "\<And>g. link_ok (?B @ [p]) g r"
      "\<forall>i. lookup r (?B @ [p, ''ready'', i]) = None \<or> result_at env (?B @ [p, ''ready'', i]) r"
    using assms(2) by (simp_all add: project_files_def Let_def)
  note keep = pruned_outside_pending [OF assms(1)]
  have dir: "is_dir r' q" if "is_dir r q" "\<And>p. \<not> strict_prefix (pending_dir ?B p) q" for q
    using assms(1) that by (simp add: pruned_def)
  have "\<not> prefix (pending_dir ?B q) (projects_dir cfg @ [p])" for q
    using pf(3) append_prefixD by blast
  then have "is_dir r' (projects_dir cfg @ [p])" by (intro dir [OF pf(2)]) (simp add: strict_prefix_def)
  moreover have "is_dir r' ?B" by (rule dir [OF pf(4)]) (auto simp: strict_prefix_def dest: prefix_length_le)
  moreover have pend: "lookup r' (?B @ [p, ''pending'']) = (if lookup r (?B @ [p, ''pending'']) = None then None else Some (Dir []))"
    using assms(1,3) by (simp add: pruned_def)
  then have "dir_or_new r' (?B @ [p, ''pending''])" by (simp add: dir_or_new_def is_dir_def)
  moreover have "lookup r' (?B @ [p, ''pending'', i]) = None" for i
    using pend lookup_snoc [of r' "?B @ [p, ''pending'']" i] by (simp split: if_splits)
  moreover have "dir_or_new r' (?B @ [p])"
  proof (cases "is_dir r (?B @ [p])")
    case True
    then have "is_dir r' (?B @ [p])" by (rule dir) (auto simp: strict_prefix_def dest: prefix_length_le)
    then show ?thesis by (simp add: dir_or_new_def)
  next
    case False
    then have "lookup r (?B @ [p]) = None" using pf(5) by (simp add: dir_or_new_def)
    then have "lookup r' (?B @ [p]) = None" using assms(1) by (simp add: pruned_def)
    then show ?thesis by (simp add: dir_or_new_def)
  qed
  moreover have res: "result_at env (?B @ [p, ''ready'', i]) r' = result_at env (?B @ [p, ''ready'', i]) r"
      "success_at (?B @ [p, ''ready'', i]) r' = success_at (?B @ [p, ''ready'', i]) r" for i
    by (rule result_cong; simp add: keep)+
  moreover have "link_ok (?B @ [p]) g r'" for g
    by (rule link_ok_cong [OF _ _ pf(9) [of g]]) (simp_all add: link_name_def keep res)
  ultimately show ?thesis
    using pf by (simp add: project_files_def Let_def keep dir_or_new_cong [OF keep])
qed

lemma pruned_store_of:
  assumes "pruned (build_dir cfg) ps r r'"
  shows "store_of cfg r' = store_of cfg r"
proof -
  have "lookup r' (build_dir cfg @ p # link_name g) = lookup r (build_dir cfg @ p # link_name g)" for p g
    by (simp add: link_name_def pruned_outside_pending [OF assms])
  then show ?thesis by (simp add: store_of_def pruned_outside_pending [OF assms])
qed

section \<open>Restart\<close>

lemma main_starts:
  assumes "parseConfigFromCli env (dfFilesystem f) (dfConfig f) (dfAddr f) w = (Inr cfg, w)"
    and "VersionSuffix = [] \<or> 7 \<le> length VersionSuffix" and "0 \<le> cBacklog cfg" and "PruneZombieBuilds cfg w = (None, w')"
  shows "\<exists>s. main env human_size None VersionSuffix (Run_Server f) w = Ret (Is_Serving s, w') \<and>
     NewServer None (Some cfg) True = Ret (Inr s)"
  using assms
  by (auto simp: main_def app_version_def serve_action_def SetUp_def StartServer_def NewServer_def NewWorkerPool_def)


definition demo_left :: node where
  "demo_left = Dir
     [(''config.json'', File (demo_config_doc 0)),
      (''projects'', Dir [(''web'', demo_project), (''app'', demo_project), (''notes'', Dir [])]),
      (''build'', Dir
         [(''app'', Dir [(''pending'', Dir [(''abcdef01'', Dir [(''data'', Dir [])]), (''abcdef02'', Dir [])]),
             (''ready'', Dir [])])])]"

lemma demo_left_config:
  "\<exists>cfg. parseConfigFromCli (demo_env 0) ''plain'' ''config.json'' ''0.0.0.0:8462'' (demo_world demo_left) = (Inr cfg, demo_world demo_left) \<and>
     cFileSystem cfg = PlainFS (demo_env 0) \<and> cMounts cfg = [] \<and> 0 \<le> cBacklog cfg \<and>
     cProjectsPath cfg = ''/projects'' \<and> cBuildPath cfg = ''/build''"
proof -
  let ?w = "demo_world demo_left"
  have fp: "fpath ''config.json'' = [''config.json'']" by code_simp
  have "lookup demo_left [''config.json''] = Some (File (demo_config_doc 0))" by (simp add: demo_left_def)
  then have o: "os_Open (fpath ''config.json'') ?w = (Inr (File (demo_config_doc 0)), ?w)"
    by (simp add: os_Open_def os_simps fp fs_stat_found)
  have d: "lookup demo_left [''projects''] = Some (Dir [(''web'', demo_project), (''app'', demo_project), (''notes'', Dir [])])"
      "\<exists>es. lookup demo_left [''build''] = Some (Dir es)"
    by (simp_all add: demo_left_def)
  have "num_cpu (demo_env 0) = 4" by (simp add: demo_env_def)
  then have "\<exists>cfg. ParseConfig (demo_env 0) ''0.0.0.0:8462'' (PlainFS (demo_env 0)) (demo_config_doc 0) ?w = (Inr cfg, ?w) \<and>
     cFileSystem cfg = PlainFS (demo_env 0) \<and> cMounts cfg = [] \<and> 0 \<le> cBacklog cfg \<and>
     cProjectsPath cfg = ''/projects'' \<and> cBuildPath cfg = ''/build''"
    using d by (auto simp: demo_config_doc_def ParseConfig_def unmarshal_struct_def set_Config_field_def Let_def PathIsDir_def os_simps config_defaults_def)
  then show ?thesis using o by (simp add: parseConfigFromCli_def Get_def Registry_def)
qed


end
