(* ===== verification/Answers.thy ===== *)
theory Answers
  imports Running
begin

text \<open>
  Nobody waits forever: in a running daemon (\<open>cmd/mistryd/server.go\<close>, \<open>worker_pool.go\<close>), what the
  pool, the calls of \<open>Work\<close> and the handlers have left to do is finite, and they are never stuck
  while a client waits.
\<close>

section \<open>What is left to do\<close>

text \<open>The events that need nobody from outside.\<close>

fun inner :: "daemon_event \<Rightarrow> bool" where
  "inner (Takes i) = True"
| "inner (Begins i) = True"
| "inner (Goes i) = True"
| "inner (Ends i) = True"
| "inner (Replies k) = True"
| "inner ev = False"

text \<open>A number of inner events, other than ticks at which a waiting call finds nothing.\<close>

inductive daemon_works :: "'d env \<Rightarrow> web \<Rightarrow> nat \<Rightarrow> 'd daemon \<Rightarrow> 'd daemon \<Rightarrow> bool" for env web where
  idles: "daemon_works env web 0 d d"
| acts: "daemon_works env web k d0 d \<Longrightarrow> inner ev \<Longrightarrow> daemon_step env web ev d = Ret d' \<Longrightarrow>
    (\<forall>i. ev = Goes i \<longrightarrow> dCalls d' \<noteq> dCalls d) \<Longrightarrow> daemon_works env web (Suc k) d0 d'"

definition waits :: "conn \<Rightarrow> bool" where
  "waits c \<longleftrightarrow> (case c of Waits_For j f rw \<Rightarrow> True | _ \<Rightarrow> False)"

definition worker_load :: "wstate list \<Rightarrow> (nat \<rightharpoonup> nat) \<Rightarrow> thread list \<Rightarrow> nat \<Rightarrow> nat" where
  "worker_load ws task ths i =
     (case ws ! i of
        Idle \<Rightarrow> 1
      | Busy item \<Rightarrow> (case task i of None \<Rightarrow> 13 | Some n \<Rightarrow> rank (ths ! n) + 2)
      | _ \<Rightarrow> 0)"

definition load :: "'d daemon \<Rightarrow> nat" where
  "load d =
     13 * length (pQueue (sPool (dSrv d))) +
     (\<Sum>i < length (pWorkers (sPool (dSrv d))). worker_load (pWorkers (sPool (dSrv d))) (dTask d) (dCalls d) i) +
     length (filter waits (dConns d))"

lemma worker_load_le: "worker_load ws task ths i \<le> 13"
proof -
  have "rank th + 2 \<le> 13" for th using rank_le [of th] by simp
  then show ?thesis by (simp add: worker_load_def split: wstate.splits option.splits)
qed

lemma sum_upd:
  fixes f g :: "nat \<Rightarrow> nat"
  assumes "i < n" and "\<And>k. k < n \<Longrightarrow> k \<noteq> i \<Longrightarrow> g k = f k"
  shows "(\<Sum>k<n. g k) + f i = (\<Sum>k<n. f k) + g i"
proof -
  have "(\<Sum>k<n. g k) = g i + (\<Sum>k \<in> {..<n} - {i}. g k)" "(\<Sum>k<n. f k) = f i + (\<Sum>k \<in> {..<n} - {i}. f k)"
    using assms(1) by (simp_all add: sum.remove)
  moreover have "(\<Sum>k \<in> {..<n} - {i}. g k) = (\<Sum>k \<in> {..<n} - {i}. f k)"
    by (rule sum.cong) (use assms(2) in auto)
  ultimately show ?thesis by simp
qed

section \<open>Every inner event leaves less to do\<close>

text \<open>An event that changes one worker.\<close>

lemma one_worker:
  assumes "i < length ws" and "length ws' = length ws"
    and "\<And>k. k < length ws \<Longrightarrow> k \<noteq> i \<Longrightarrow> worker_load ws' task' ths' k = worker_load ws task ths k"
  shows "(\<Sum>k < length ws'. worker_load ws' task' ths' k) + worker_load ws task ths i =
     (\<Sum>k < length ws. worker_load ws task ths k) + worker_load ws' task' ths' i"
  using sum_upd [OF assms(1,3)] assms(2) by simp

lemma load_takes:
  assumes "daemon_step env web (Takes i) d = Ret d'"
  shows "load d' < load d \<and> dConns d' = dConns d"
proof -
  let ?p = "sPool (dSrv d)"
  obtain p where p: "work_receive i ?p = Ret p" "d' = d\<lparr>dSrv := (dSrv d)\<lparr>sPool := p\<rparr>\<rparr>"
    using assms by (auto simp: pool_then_def lift_outcome_Ret)
  have i: "i < length (pWorkers ?p)" "pWorkers ?p ! i = Idle" using p(1) by (auto simp: work_receive_def split: if_splits)
  obtain x where x: "pWorkers p = (pWorkers ?p)[i := x]" "pQueue p = tl (pQueue ?p)"
      "pQueue ?p = [] \<longrightarrow> worker_load (pWorkers p) (dTask d) (dCalls d) i = 0"
    using p(1) i by (auto simp: work_receive_def worker_load_def split: list.splits if_splits)
  have "worker_load (pWorkers p) (dTask d) (dCalls d) k = worker_load (pWorkers ?p) (dTask d) (dCalls d) k" if "k \<noteq> i" for k
    using that by (simp add: worker_load_def x(1))
  moreover have "worker_load (pWorkers ?p) (dTask d) (dCalls d) i = 1" using i(2) by (simp add: worker_load_def)
  ultimately show ?thesis
    using one_worker [OF i(1), of "pWorkers p" "dTask d" "dCalls d" "dTask d" "dCalls d"] x worker_load_le [of "pWorkers p" "dTask d" "dCalls d" i]
    by (cases "pQueue ?p") (simp_all add: load_def p(2))
qed

lemma load_begins:
  assumes "tasks_ok (dTask d) (sPool (dSrv d)) (dCalls d)" and "daemon_step env web (Begins i) d = Ret d'"
  shows "load d' < load d \<and> dConns d' = dConns d"
proof -
  let ?p = "sPool (dSrv d)"
  obtain item where i: "i < length (pWorkers ?p)" "dTask d i = None" "pWorkers ?p ! i = Busy item"
      and d': "d' = d\<lparr>dCalls := dCalls d @ [Enters (wiJob item)], dTask := (dTask d)(i \<mapsto> length (dCalls d))\<rparr>"
    using assms(2) by (auto split: if_splits wstate.splits)
  have "n < length (dCalls d)" if "dTask d k = Some n" for k n using assms(1) that by (simp add: tasks_ok_def)
  then have "worker_load (pWorkers ?p) (dTask d') (dCalls d') k = worker_load (pWorkers ?p) (dTask d) (dCalls d) k" if "k \<noteq> i" for k
    using that by (auto simp: worker_load_def d' nth_append split: wstate.splits option.splits)
  moreover have "worker_load (pWorkers ?p) (dTask d) (dCalls d) i = 13" "worker_load (pWorkers ?p) (dTask d') (dCalls d') i = 12"
    using i by (simp_all add: worker_load_def d')
  ultimately show ?thesis
    using one_worker [OF i(1) refl, of "dTask d'" "dCalls d'" "dTask d" "dCalls d"] by (simp add: load_def d')
qed

lemma load_goes:
  assumes "tasks_ok (dTask d) (sPool (dSrv d)) (dCalls d)" and "daemon_step env web (Goes i) d = Ret d'" and "dCalls d' \<noteq> dCalls d"
  shows "load d' < load d \<and> dConns d' = dConns d"
proof -
  let ?p = "sPool (dSrv d)"
  obtain n s th w where n: "dTask d i = Some n" and st: "thread_step env (Server.truncate (dSrv d)) (dCalls d ! n) (dWorld d) = Ret (s, th, w)"
      and d': "d' = d\<lparr>dSrv := with_server (dSrv d) s, dWorld := w, dCalls := (dCalls d)[n := th]\<rparr>"
    using assms(2) by (auto split: option.splits outcome.splits)
  obtain item where t: "n < length (dCalls d)" "i < length (pWorkers ?p)" "pWorkers ?p ! i = Busy item"
    using assms(1) n by (auto simp: tasks_ok_def)
  have "th \<noteq> dCalls d ! n" using assms(3) by (auto simp: d')
  then have lt: "rank th < rank (dCalls d ! n)" by (rule rank_step [OF st])
  then have r: "rank ((dCalls d)[n := th] ! m) \<le> rank (dCalls d ! m)" for m
    using t(1) by (cases "m = n") simp_all
  have "(\<Sum>k < length (pWorkers ?p). worker_load (pWorkers ?p) (dTask d) ((dCalls d)[n := th]) k) <
      (\<Sum>k < length (pWorkers ?p). worker_load (pWorkers ?p) (dTask d) (dCalls d) k)"
  proof (rule sum_strict_mono_ex1)
    show "\<forall>k \<in> {..<length (pWorkers ?p)}. worker_load (pWorkers ?p) (dTask d) ((dCalls d)[n := th]) k \<le> worker_load (pWorkers ?p) (dTask d) (dCalls d) k"
      using r by (auto simp: worker_load_def split: wstate.splits option.splits)
    show "\<exists>k \<in> {..<length (pWorkers ?p)}. worker_load (pWorkers ?p) (dTask d) ((dCalls d)[n := th]) k < worker_load (pWorkers ?p) (dTask d) (dCalls d) k"
      using t n lt by (intro bexI [of _ i]) (simp_all add: worker_load_def)
  qed simp
  then show ?thesis by (simp add: load_def d')
qed

lemma load_ends:
  assumes "pool_inv (sPool (dSrv d))" and "daemon_step env web (Ends i) d = Ret d'"
  shows "load d' < load d \<and> dConns d' = dConns d"
proof -
  let ?p = "sPool (dSrv d)"
  obtain n bi err j p where n: "dTask d i = Some n" "dCalls d ! n = Done (bi, err) j"
      and f: "work_finish i \<lparr>wrBuildInfo = bi, wrErr = err\<rparr> ?p = Ret p"
      and d': "d' = d\<lparr>dTask := (dTask d)(i := None), dSrv := (dSrv d)\<lparr>sPool := p\<rparr>\<rparr>"
    using assms(2) by (auto simp: pool_then_def lift_outcome_Ret split: option.splits thread.splits)
  obtain item where i: "i < length (pWorkers ?p)" "pWorkers ?p ! i = Busy item" "pWorkers p = (pWorkers ?p)[i := Idle]" "pQueue p = pQueue ?p"
    using f by (auto simp: work_finish_def Let_def split: if_splits wstate.splits)
  have "worker_load (pWorkers p) (dTask d') (dCalls d) k = worker_load (pWorkers ?p) (dTask d) (dCalls d) k" if "k \<noteq> i" for k
    using that by (simp add: worker_load_def i(3) d' split: wstate.split)
  moreover have "worker_load (pWorkers ?p) (dTask d) (dCalls d) i = 2" "worker_load (pWorkers p) (dTask d') (dCalls d) i = 1"
    using i n by (simp_all add: worker_load_def)
  moreover have "length (pWorkers p) = length (pWorkers ?p)" using i(3) by simp
  ultimately show ?thesis
    using one_worker [OF i(1), of "pWorkers p" "dTask d'" "dCalls d" "dTask d" "dCalls d"] by (simp add: load_def d' i(4))
qed

text \<open>A reply answers one client; the channel it waits for is never found closed and empty.\<close>

lemma replies_effect:
  assumes "daemon_inv env ps st es d" and "daemon_step env web (Replies k) d = Ret d'"
  obtains j f rw r where "k < length (dConns d)" and "dConns d ! k = Waits_For j f rw"
    and "dConns d' = (dConns d)[k := Replied j r (writeWorkResult j r rw)]" and "load d' < load d" and "dCalls d' = dCalls d"
proof -
  let ?p = "sPool (dSrv d)"
  obtain j f rw where k: "k < length (dConns d)" "dConns d ! k = Waits_For j f rw"
    using assms(2) by (auto split: if_splits conn.splits)
  have pi: "pool_inv ?p" and "conn_ok ?p (dCalls d) (Waits_For j f rw)"
    using assms(1) nth_mem [OF k(1)] k(2) unfolding daemon_inv_def by metis+
  then have "rcBuf (pChans ?p ! f) \<noteq> None \<or> \<not> rcClosed (pChans ?p ! f)" by (force simp: pool_inv_def)
  then obtain r p where W: "FutureWorkResult_Wait f ?p = Ret (r, p)"
    using assms(2) k by (auto simp: FutureWorkResult_Wait_def split: option.splits if_splits)
  have d': "d' = d\<lparr>dSrv := (dSrv d)\<lparr>sPool := p\<rparr>, dConns := (dConns d)[k := Replied j r (writeWorkResult j r rw)]\<rparr>"
    using assms(2) k W by simp
  have "pWorkers p = pWorkers ?p" "pQueue p = pQueue ?p" using W by (auto simp: FutureWorkResult_Wait_def split: option.splits if_splits)
  then have "load d' < load d"
    using length_filter_update [OF k(1), of waits "Replied j r (writeWorkResult j r rw)"] k(2) by (simp add: load_def d' waits_def)
  then show ?thesis using that k d' by simp
qed

lemma inner_load:
  assumes "daemon_inv env ps st es d" and "inner ev" and "daemon_step env web ev d = Ret d'"
    and "\<forall>i. ev = Goes i \<longrightarrow> dCalls d' \<noteq> dCalls d"
  shows "load d' < load d"
proof -
  have t: "tasks_ok (dTask d) (sPool (dSrv d)) (dCalls d)" "pool_inv (sPool (dSrv d))" using assms(1) by (simp_all add: daemon_inv_def)
  show ?thesis
  proof (cases ev)
    case (Takes i)
    then show ?thesis using load_takes assms(3) by blast
  next
    case (Begins i)
    then show ?thesis using load_begins [OF t(1)] assms(3) by blast
  next
    case (Goes i)
    then show ?thesis using load_goes [OF t(1)] assms(3,4) by blast
  next
    case (Ends i)
    then show ?thesis using load_ends [OF t(2)] assms(3) by blast
  next
    case (Replies k)
    then show ?thesis using replies_effect [OF assms(1)] assms(3) by blast
  qed (use assms(2) in simp_all)
qed

section \<open>Nobody is stuck\<close>

text \<open>Every call that has not returned is in the hands of a worker, and there are workers.\<close>

definition staffed :: "'d daemon \<Rightarrow> bool" where
  "staffed d \<longleftrightarrow> 0 < length (pWorkers (sPool (dSrv d))) \<and> waits_ok (root (dWorld d)) (dCalls d) \<and>
     (\<forall>n < length (dCalls d). (\<exists>i. dTask d i = Some n) \<or> (\<exists>rep j. dCalls d ! n = Done rep j))"

lemma SendWork_workers:
  "SendWork p j = Ret (x, p') \<Longrightarrow> length (pWorkers p') = length (pWorkers p)"
  by (auto simp: SendWork_def Let_def split: if_splits list.splits)

lemma new_item_workers: "new_item env ps cfg p c p' \<Longrightarrow> length (pWorkers p') = length (pWorkers p)"
  by (auto simp: new_item_def dest: SendWork_workers)

lemma staffed_goes:
  assumes "daemon_inv env ps st es d" and "staffed d" and "daemon_step env web (Goes i) d = Ret d'"
  shows "staffed d'"
proof -
  obtain n s th w where n: "dTask d i = Some n" and step: "thread_step env (Server.truncate (dSrv d)) (dCalls d ! n) (dWorld d) = Ret (s, th, w)"
      and d': "d' = d\<lparr>dSrv := with_server (dSrv d) s, dWorld := w, dCalls := (dCalls d)[n := th]\<rparr>"
    using assms(3) by (auto split: option.splits outcome.splits)
  have inv: "sys_inv env ps st es (sys_of d)" and len: "n < length (dCalls d)"
    using assms(1) n by (simp_all add: daemon_inv_def tasks_ok_def)
  obtain fs where fs: "steps_to env es n (Server.truncate (dSrv d)) (dCalls d ! n) (dWorld d) s th w fs"
    using sys_inv_went [OF inv, of n s th w] len step by (auto simp: sys_of_def)
  have "waits_ok (root w) ((dCalls d)[n := th])"
    using waits_step [OF inv, of n s th w fs] assms(2) len fs by (simp add: sys_of_def staffed_def)
  moreover have "(\<exists>i. dTask d i = Some m) \<or> (\<exists>rep j. (dCalls d)[n := th] ! m = Done rep j)" if "m < length (dCalls d)" for m
    using assms(2) that n by (cases "m = n") (auto simp: staffed_def)
  ultimately show ?thesis using assms(2) by (simp add: staffed_def d')
qed

lemma staffed_same:
  assumes "staffed d" and "length (pWorkers (sPool (dSrv d'))) = length (pWorkers (sPool (dSrv d)))"
    and "root (dWorld d') = root (dWorld d)" and "dCalls d' = dCalls d" and "dTask d' = dTask d"
  shows "staffed d'"
  using assms by (simp add: staffed_def)

lemma staffed_step:
  assumes "daemon_inv env ps st es d" and "staffed d" and "admitted env ps ev" and "daemon_step env web ev d = Ret d'"
  shows "staffed d'"
proof (cases ev)
  case (Gets q)
  show ?thesis
  proof (cases "ServeHTTP env web (dSrv d) q (dWorld d)")
    case (Ret x)
    obtain c s w where x: "x = (c, s, w)" by (metis prod_cases3)
    have q: "plain_request env ps q" using assms(3) Gets by simp
    note S = ServeHTTP_effect [OF Ret [unfolded x] q daemon_inv_names [OF assms(1)]]
    have "d' = d\<lparr>dSrv := s, dWorld := w, dConns := dConns d @ [c]\<rparr>" using assms(4) Gets Ret x by simp
    then show ?thesis using S(1) new_item_workers [OF S(3)] by (intro staffed_same [OF assms(2)]) (simp_all add: reads_def)
  next
    case Blocked
    then show ?thesis using assms(4) Gets by simp
  next
    case (Panic m)
    then show ?thesis using assms(4) Gets by (intro staffed_same [OF assms(2)]) auto
  qed
next
  case (Takes i)
  then obtain p where "work_receive i (sPool (dSrv d)) = Ret p" "d' = d\<lparr>dSrv := (dSrv d)\<lparr>sPool := p\<rparr>\<rparr>"
    using assms(4) by (auto simp: pool_then_def lift_outcome_Ret)
  then show ?thesis using Receive_items(3) by (intro staffed_same [OF assms(2)]) simp_all
next
  case (Begins i)
  then obtain item where "pWorkers (sPool (dSrv d)) ! i = Busy item" and i: "dTask d i = None"
      and d': "d' = d\<lparr>dCalls := dCalls d @ [Enters (wiJob item)], dTask := (dTask d)(i \<mapsto> length (dCalls d))\<rparr>"
    using assms(4) by (auto split: if_splits wstate.splits)
  have "(\<exists>k. ((dTask d)(i \<mapsto> length (dCalls d))) k = Some n) \<or> (\<exists>rep j. dCalls d ! n = Done rep j)" if "n < length (dCalls d)" for n
    using assms(2) that i unfolding staffed_def by (metis fun_upd_other option.distinct(1))
  moreover have "\<exists>k. ((dTask d)(i \<mapsto> length (dCalls d))) k = Some (length (dCalls d))" by (intro exI [of _ i]) simp
  ultimately show ?thesis
    using assms(2) waits_call unfolding staffed_def d' by (simp add: nth_append less_Suc_eq)
next
  case (Goes i)
  then show ?thesis using staffed_goes assms by blast
next
  case (Ends i)
  then obtain n bi err j p where "dTask d i = Some n" "dCalls d ! n = Done (bi, err) j"
      "work_finish i \<lparr>wrBuildInfo = bi, wrErr = err\<rparr> (sPool (dSrv d)) = Ret p"
      "d' = d\<lparr>dTask := (dTask d)(i := None), dSrv := (dSrv d)\<lparr>sPool := p\<rparr>\<rparr>"
    using assms(4) by (auto simp: pool_then_def lift_outcome_Ret split: option.splits thread.splits)
  moreover from this have "length (pWorkers p) = length (pWorkers (sPool (dSrv d)))"
    by (auto simp: work_finish_def Let_def split: if_splits wstate.splits)
  ultimately show ?thesis using assms(2) unfolding staffed_def by (simp, metis option.inject)
next
  case (Replies k)
  then show ?thesis
    using assms(4)
    by (intro staffed_same [OF assms(2)]) (auto simp: FutureWorkResult_Wait_def split: if_splits conn.splits outcome.splits option.splits)
next
  case (Hangs_Up k)
  then show ?thesis
    using assms(4)
    by (intro staffed_same [OF assms(2)]) (auto simp: broker_then_def lift_outcome_Ret simp del: broker_step.simps split: if_splits conn.splits)
next
  case (Tails t msg)
  then show ?thesis
    using assms(4) by (intro staffed_same [OF assms(2)]) (auto simp: broker_then_def lift_outcome_Ret simp del: broker_step.simps)
next
  case Counts
  then show ?thesis
    using assms(4) by (intro staffed_same [OF assms(2)]) (auto simp: lift_outcome_Ret reads_def dest!: record_hosted_reads)
qed

inductive_cases no_works: "sys_works env 0 y y'"

lemma one_work:
  assumes "sys_works env 1 y y'"
  obtains n s th w where "n < length (yCalls y)" and "thread_step env (ySrv y) (yCalls y ! n) (yWorld y) = Ret (s, th, w)"
    and "th \<noteq> yCalls y ! n"
  using assms by cases (auto elim: no_works)

lemma somebody_acts:
  assumes "daemon_inv env ps st es d" and "staffed d" and "c \<in> set (dConns d)" and "waits c"
    and "\<forall>a \<in> set (dCalls d). \<forall>b \<in> set (dCalls d).
      jID (thread_job a) = jID (thread_job b) \<longrightarrow> jProject (thread_job a) = jProject (thread_job b)"
  shows "\<exists>d'. daemon_works env web 1 d d'"
proof -
  let ?p = "sPool (dSrv d)"
  have act: "\<exists>d'. daemon_works env web 1 d d'"
    if "inner ev" "daemon_step env web ev d = Ret d'" "\<forall>i. ev = Goes i \<longrightarrow> dCalls d' \<noteq> dCalls d" for ev d'
    using daemon_works.acts [OF daemon_works.idles that] by auto
  have inv: "pool_inv ?p" "tasks_ok (dTask d) ?p (dCalls d)" "sys_inv env ps st es (sys_of d)" "conn_ok ?p (dCalls d) c"
    using assms(1,3) by (simp_all add: daemon_inv_def)
  obtain j f rw where c: "c = Waits_For j f rw" using assms(4) by (auto simp: waits_def split: conn.splits)
  obtain k where k: "k < length (dConns d)" "dConns d ! k = Waits_For j f rw" using assms(3) c by (auto simp: in_set_conv_nth)
  show ?thesis
  proof (cases "rcBuf (pChans ?p ! f)")
    case (Some r)
    then show ?thesis using act [of "Replies k"] k by (simp add: FutureWorkResult_Wait_def)
  next
    case None
    then have item: "\<lparr>wiJob = j, wiResult = f\<rparr> \<in> set (open_items ?p)" using inv(4) c by auto
    show ?thesis
    proof (cases "\<exists>i item. i < length (pWorkers ?p) \<and> pWorkers ?p ! i = Busy item")
      case True
      then obtain i item where i: "i < length (pWorkers ?p)" "pWorkers ?p ! i = Busy item" by blast
      show ?thesis
      proof (cases "dTask d i")
        case None
        then show ?thesis using act [of "Begins i"] i by simp
      next
        case (Some n)
        then have n: "n < length (dCalls d)" using inv(2) by (simp add: tasks_ok_def)
        show ?thesis
        proof (cases "\<exists>rep j. dCalls d ! n = Done rep j")
          case True
          then obtain bi err j' where dn: "dCalls d ! n = Done (bi, err) j'" by (metis surj_pair)
          have "work_finish i r ?p \<noteq> Blocked" for r using i by (simp add: work_finish_def Let_def)
          then obtain p where "work_finish i \<lparr>wrBuildInfo = bi, wrErr = err\<rparr> ?p = Ret p"
            using pool_no_panic(2) [OF inv(1)] by (metis outcome.exhaust)
          then show ?thesis using act [of "Ends i"] Some dn by (simp add: pool_then_def)
        next
          case False
          have y: "yCalls (sys_of d) = dCalls d" "yWorld (sys_of d) = dWorld d" by (simp_all add: sys_of_def)
          have "waits_ok (root (yWorld (sys_of d))) (yCalls (sys_of d))" using assms(2) by (simp add: staffed_def y)
          from somebody_works [OF inv(3) this, unfolded y, OF assms(5) nth_mem [OF n]] False
          obtain y' where "sys_works env 1 (sys_of d) y'" by blast
          then obtain m s th w where m: "m < length (dCalls d)"
              "thread_step env (Server.truncate (dSrv d)) (dCalls d ! m) (dWorld d) = Ret (s, th, w)" "th \<noteq> dCalls d ! m"
            by (rule one_work) (auto simp: sys_of_def)
          have "dCalls d ! m \<noteq> Done rep j" for rep j using m(2) by (cases rep) auto
          then obtain l where l: "dTask d l = Some m" using assms(2) m(1) unfolding staffed_def by metis
          have "(dCalls d)[m := th] \<noteq> dCalls d" using m(1,3) nth_list_update_eq by metis
          then show ?thesis using act [of "Goes l"] l m(2) by simp
        qed
      qed
    next
      case False
      then have q: "pQueue ?p \<noteq> []"
      proof -
        have "item_of x = []" if "x \<in> set (pWorkers ?p)" for x
          using False that by (cases x) (auto simp: in_set_conv_nth)
        then have "concat (map item_of (pWorkers ?p)) = []" by simp
        then show ?thesis using item by (auto simp: open_items_def)
      qed
      have "0 < length (pWorkers ?p)" using assms(2) by (simp add: staffed_def)
      moreover from this have "pWorkers ?p ! 0 \<noteq> Waiting" "pWorkers ?p ! 0 \<noteq> Exited"
        using inv(1) q nth_mem [of 0 "pWorkers ?p"] unfolding pool_inv_def by (force, metis)
      moreover from calculation have "pWorkers ?p ! 0 = Idle" using False by (cases "pWorkers ?p ! 0") auto
      ultimately show ?thesis
        using act [of "Takes 0"] q by (cases "pQueue ?p") (auto simp: work_receive_def pool_then_def)
    qed
  qed
qed

section \<open>Every client is answered\<close>

lemma works_inv:
  assumes "daemon_works env web k d d'" and "daemon_inv env ps st es d" and "staffed d"
  shows "\<exists>fs. daemon_inv env ps st (es @ fs) d'" and "staffed d'" and "k + load d' \<le> load d"
    and "\<forall>m < length (dConns d). \<forall>j f rw. dConns d ! m = Waits_For j f rw \<longrightarrow>
      m < length (dConns d') \<and> (dConns d' ! m = Waits_For j f rw \<or> (\<exists>r. dConns d' ! m = Replied j r (writeWorkResult j r rw)))"
  using assms
proof (induction)
  case (idles d)
  { case 1 then show ?case by (metis append_Nil2) }
  { case 2 then show ?case by simp }
  { case 3 then show ?case by simp }
  { case 4 then show ?case by simp }
next
  case (acts k d0 d ev d')
  have adm: "admitted env ps ev" using acts.hyps(2) by (cases ev) simp_all
  { case 1
    then show ?case using acts.IH(1) daemon_inv_step [OF _ adm acts.hyps(3)] by (metis append_assoc) }
  { case 2
    then show ?case using acts.IH(1,2) staffed_step [OF _ _ adm acts.hyps(3)] by metis }
  { case 3
    then obtain fs where "daemon_inv env ps st (es @ fs) d" using acts.IH(1) by blast
    then have "load d' < load d" using inner_load acts.hyps(2-4) by blast
    then show ?case using acts.IH(3) 3 by simp }
  { case 4
    then obtain fs where inv: "daemon_inv env ps st (es @ fs) d" using acts.IH(1) by blast
    then have t: "tasks_ok (dTask d) (sPool (dSrv d)) (dCalls d)" "pool_inv (sPool (dSrv d))" by (simp_all add: daemon_inv_def)
    have step: "dConns d' = dConns d \<or> (\<exists>m j f rw r. m < length (dConns d) \<and> dConns d ! m = Waits_For j f rw \<and>
        dConns d' = (dConns d)[m := Replied j r (writeWorkResult j r rw)])"
    proof (cases ev)
      case (Replies m)
      then show ?thesis using replies_effect [OF inv] acts.hyps(3) by metis
    qed (use acts.hyps(2-4) load_takes load_begins [OF t(1)] load_goes [OF t(1)] load_ends [OF t(2)] in \<open>simp_all del: daemon_step.simps, (blast)+\<close>)
    show ?case
    proof (intro allI impI)
      fix m j f rw
      assume "m < length (dConns d0)" "dConns d0 ! m = Waits_For j f rw"
      then have "m < length (dConns d)" "dConns d ! m = Waits_For j f rw \<or> (\<exists>r. dConns d ! m = Replied j r (writeWorkResult j r rw))"
        using acts.IH(4) 4 by blast+
      then show "m < length (dConns d') \<and> (dConns d' ! m = Waits_For j f rw \<or> (\<exists>r. dConns d' ! m = Replied j r (writeWorkResult j r rw)))"
        using step by (auto simp: nth_list_update split: if_splits)
    qed }
qed

lemma staffed_run:
  assumes "daemon_run env web ps d0 d" and "daemon_inv env ps st es d0" and "staffed d0"
  shows "staffed d"
  using assms(1)
proof induction
  case (happens d ev d')
  then show ?case using daemon_inv_run [OF _ assms(2)] staffed_step by metis
qed (rule assms(3))

lemma staffed_start:
  assumes "NewServer None (Some cfg) metrics = Ret (Inr s)" and "0 < cConcurrency cfg"
  shows "staffed (ListenAndServe s w)"
  using assms by (auto simp: NewServer_def NewWorkerPool_def staffed_def ListenAndServe_def waits_ok_def split: if_splits)

lemma load_le:
  "load d \<le> 13 * (length (pQueue (sPool (dSrv d))) + length (pWorkers (sPool (dSrv d)))) + length (dConns d)"
proof -
  have "(\<Sum>i < length (pWorkers (sPool (dSrv d))). worker_load (pWorkers (sPool (dSrv d))) (dTask d) (dCalls d) i) \<le>
      length (pWorkers (sPool (dSrv d))) * 13"
    using sum_bounded_above [where A = "{..<length (pWorkers (sPool (dSrv d)))}" and K = "13 :: nat", OF worker_load_le] by simp
  moreover have "length (filter waits (dConns d)) \<le> length (dConns d)" by (rule length_filter_le)
  moreover have "13 * a + x + y \<le> 13 * (a + b) + c" if "x \<le> b * 13" "y \<le> c" for a b c x y :: nat
    using that add_mono [OF that] by (simp add: distrib_left mult.commute)
  ultimately show ?thesis unfolding load_def by blast
qed



end
