(* ===== verification/Races.thy ===== *)
theory Races
  imports Histories
begin

text \<open>
  Two calls of \<open>Work\<close> (\<open>cmd/mistryd/worker.go\<close>) for a job whose last build has failed: the one that
  waits for the other can report the old failure, or find nothing.
\<close>

lemma enters:
  assumes "quiet w"
  shows "\<exists>s' start j' w'. thread_step env s (Enters j) w =
       Ret (s', if enqueued (sJq s) (jID j) then Joins j' else Checks start j', w') \<and>
     same_job j j' \<and> root w' = root w \<and> quiet w' \<and> sCfg s' = sCfg s \<and> enqueued (sJq s') (jID j)"
proof -
  obtain start s1 j1 w1 where b: "work_begin s j w = (start, s1, j1, w1)" by (metis prod_cases4)
  note f = work_begin_sel [OF b]
  have "thread_step env s (Enters j) w =
      Ret (s1\<lparr>sJq := snd (Add (sJq s1) j1)\<rparr>, if enqueued (sJq s) (jID j) then Joins j1 else Checks start j1, w1)"
    using b f same_job_sel(1) [of j j1] jq.claim_iff [of "sJq s1" j1]
    by (cases "Add (sJq s1) j1") (simp add: enter_step_def same_queues_def)
  moreover have "enqueued (snd (Add (sJq s1) j1)) (jID j)" using f same_job_sel(1) [of j j1] by (simp add: jq.taken_claim)
  moreover have "quiet w1" using f assms by simp
  ultimately show ?thesis using f by (auto simp: same_queues_def)
qed

text \<open>One call has claimed the job, the other one has looked for the build and found the failed one.\<close>

lemma waits_for_failed:
  assumes "serving env ps (s, w)" and "takes_job env ps (sCfg s) j" and "stored (jReadyBuildPath j) bi c (root w)"
  shows "\<exists>y start i k. sys_run env ps \<lparr>ySrv = s, yWorld = w, yCalls = []\<rparr> y \<and> yCalls y = [Checks start i, Collects k] \<and>
     same_job j i \<and> same_job j k \<and> root (yWorld y) = root w \<and> quiet (yWorld y) \<and> sCfg (ySrv y) = sCfg s"
proof -
  let ?run = "sys_run env ps \<lparr>ySrv = s, yWorld = w, yCalls = []\<rparr>"
  have q: "quiet w" "\<not> enqueued (sJq s) (jID j)" using assms(1) by (simp_all add: serving_def)
  have goes: "?run \<lparr>ySrv = t', yWorld = v', yCalls = ths[n := th]\<rparr>"
    if "?run \<lparr>ySrv = t, yWorld = v, yCalls = ths\<rparr>" "n < length ths" "thread_step env t (ths ! n) v = Ret (t', th, v')" for t v ths n t' th v'
    using sys_run.then_step [OF that(1)] sys_step.goes [of n "\<lparr>ySrv = t, yWorld = v, yCalls = ths\<rparr>" env t' th v' ps] that(2,3) by simp
  have call: "?run \<lparr>ySrv = t, yWorld = v, yCalls = ths @ [Enters j]\<rparr>"
    if "?run \<lparr>ySrv = t, yWorld = v, yCalls = ths\<rparr>" "sCfg t = sCfg s" for t v ths
    using sys_run.then_step [OF that(1)] sys_step.call [of env ps "\<lparr>ySrv = t, yWorld = v, yCalls = ths\<rparr>" j] that(2) assms(2) by simp
  have r0: "?run \<lparr>ySrv = s, yWorld = w, yCalls = [Enters j, Enters j]\<rparr>"
    using call [OF call [OF sys_run.start refl] refl] by simp
  obtain s1 start i w1 where a: "thread_step env s (Enters j) w = Ret (s1, Checks start i, w1)" "same_job j i"
      "root w1 = root w" "quiet w1" "sCfg s1 = sCfg s" "enqueued (sJq s1) (jID j)"
    using enters [OF q(1), of env s j] q(2) by auto
  obtain s2 k w2 where b: "thread_step env s1 (Enters j) w1 = Ret (s2, Joins k, w2)" "same_job j k"
      "root w2 = root w" "quiet w2" "sCfg s2 = sCfg s"
    using enters [OF a(4), of env s1 j] a(3,5,6) by auto
  have r2: "?run \<lparr>ySrv = s2, yWorld = w2, yCalls = [Checks start i, Joins k]\<rparr>"
    using goes [OF goes [OF r0, of 0 s1 "Checks start i" w1], of 1 s2 "Joins k" w2] a(1) b(1) by simp
  have "thread_step env s2 (Joins k) w2 = Ret (s2, Collects k, w2)"
    using joins_stored [OF b(4), of k bi c] assms(3) b(3) same_job_sel [OF b(2)] by simp
  then have "?run \<lparr>ySrv = s2, yWorld = w2, yCalls = [Checks start i, Collects k]\<rparr>"
    using goes [OF r2, of 1 s2 "Collects k" w2] by simp
  then show ?thesis using a(2) b(2-5) by fastforce
qed

text \<open>
  Then the waiting call can read the exit code of the failed build, which is about to be repeated;
  or the other call removes the failed build first, and the waiting call fails.
\<close>

lemma waiting_call_reports_old_failure:
  assumes "serving env ps (s, w)" and "takes_job env ps (sCfg s) j" and "stored (jReadyBuildPath j) bi c (root w)"
  shows "\<exists>y start i b k. sys_run env ps \<lparr>ySrv = s, yWorld = w, yCalls = []\<rparr> y \<and>
     yCalls y = [Checks start i, Done (Some b, None) k] \<and> bCoalesced b \<and> bExitCode b = bExitCode bi"
proof -
  obtain y start i k where y: "sys_run env ps \<lparr>ySrv = s, yWorld = w, yCalls = []\<rparr> y" "yCalls y = [Checks start i, Collects k]"
      "same_job j k" "root (yWorld y) = root w" "quiet (yWorld y)"
    using waits_for_failed [OF assms] by blast
  have st: "stored (jReadyBuildPath k) bi c (root (yWorld y))" using assms(3) y(4) same_job_sel [OF y(3)] by simp
  obtain s' b k' w' where "thread_step env (ySrv y) (yCalls y ! 1) (yWorld y) = Ret (s', Done (Some b, None) k', w')"
      "bCoalesced b" "bExitCode b = bExitCode bi"
    using join_result_stored [OF y(5) st, of "ySrv y"] y(2) by (auto simp: collect_step_def)
  then show ?thesis
    using sys_run.then_step [OF y(1) sys_step.goes [of 1]] y(2) by fastforce
qed

lemma waiting_call_finds_nothing:
  assumes "serving env ps (s, w)" and "takes_job env ps (sCfg s) j" and "stored (jReadyBuildPath j) bi c (root w)"
    and "bExitCode bi \<noteq> 0"
  shows "\<exists>y start i b err k. sys_run env ps \<lparr>ySrv = s, yWorld = w, yCalls = []\<rparr> y \<and>
     yCalls y = [Prepares start i, Done (Some b, Some err) k]"
proof -
  let ?y0 = "\<lparr>ySrv = s, yWorld = w, yCalls = []\<rparr>"
  obtain y start i k where y: "sys_run env ps ?y0 y" "yCalls y = [Checks start i, Collects k]"
      "same_job j i" "same_job j k" "root (yWorld y) = root w" "quiet (yWorld y)" "sCfg (ySrv y) = sCfg s"
    using waits_for_failed [OF assms(1-3)] by blast
  have st: "stored (jReadyBuildPath i) bi c (root (yWorld y))" using assms(3) y(5) same_job_sel [OF y(3)] by simp
  have fs: "cFileSystem (sCfg (ySrv y)) = PlainFS env" using assms(1) y(7) by (simp add: serving_def)
  obtain w1 where c: "thread_step env (ySrv y) (Checks start i) (yWorld y) =
      Ret (ySrv y, Prepares start i, w1\<lparr>root := del (jReadyBuildPath i) (root (yWorld y))\<rparr>)"
    using check_removes [OF y(6) fs st assms(4)] by blast
  let ?y1 = "\<lparr>ySrv = ySrv y, yWorld = w1\<lparr>root := del (jReadyBuildPath i) (root (yWorld y))\<rparr>, yCalls = [Prepares start i, Collects k]\<rparr>"
  have r1: "sys_run env ps ?y0 ?y1"
    using sys_run.then_step [OF y(1) sys_step.goes [of 0]] c y(2) by fastforce
  obtain es where inv: "sys_inv env ps (store_of (sCfg s) (root w)) es ?y1"
    using sys_inv_run [OF r1 sys_inv_start [OF assms(1)]] by auto
  note I = sys_inv_sel [OF inv]
  have tk: "takes_job env ps (sCfg (ySrv y)) k" and q: "quiet w1"
    using I(2) [of 1] I(1) by (simp_all add: site_def)
  have gone: "lookup (root (yWorld ?y1)) (jReadyBuildPath k) = None"
    using I(3) [of 0] same_job_sel [OF y(3)] same_job_sel [OF y(4)] by simp
  obtain b err k' w' where "thread_step env (ySrv ?y1) (yCalls ?y1 ! 1) (yWorld ?y1) = Ret (ySrv y, Done (Some b, Some err) k', w')"
    using join_result_missing [OF _ _ site_layout(1) [OF I(1)] gone, where s = "ySrv y"] tk q
    by (fastforce simp: collect_step_def takes_job_def)
  then show ?thesis using sys_run.then_step [OF r1 sys_step.goes [of 1]] by fastforce
qed

end
