(* ===== verification/Workers.thy ===== *)
theory Workers
  imports Work_Props
begin

text \<open>
  Several workers at once. What \<open>Work\<close> (\<open>cmd/mistryd/worker.go\<close>) does with the state that the
  workers share, the job queue and the mutexes of the projects, is a protocol with one step per
  operation on them. Every call of \<open>Work\<close> that returns follows it, and under every interleaving
  of any number of workers it excludes two builders of one job and two users of one project's
  link and directories, and it cannot get stuck.
\<close>

section \<open>The protocol of one worker\<close>

text \<open>
  Where a call of \<open>Work\<close> is: before \<open>jq.Add\<close>; in the loop that waits for another builder; before
  \<open>BootstrapProject\<close>; at its \<open>pq.Lock\<close>; in its critical section; after it; at the \<open>pq.Lock\<close> of the
  deferred function that moves the latest link; in that critical section; after it; after the
  deferred \<open>jq.Delete\<close>. A worker that is at a \<open>Lock\<close> can do nothing but take the mutex.
\<close>

datatype phase = Entering | Coalescing | Preparing | AtBootstrap | Bootstrapping | Running | AtLink | Linking
  | Closing | Returned

type_synonym shared = "phase \<times> JobQueue \<times> ProjectQueue"

inductive work_step :: "Job \<Rightarrow> shared \<Rightarrow> shared \<Rightarrow> bool" for j where
  claim: "Add q j = (True, q') \<Longrightarrow> work_step j (Entering, q, l) (Preparing, q', l)"
| join: "Add q j = (False, q') \<Longrightarrow> work_step j (Entering, q, l) (Coalescing, q', l)"
| joined: "work_step j (Coalescing, q, l) (Returned, q, l)"
| bootstrap: "work_step j (Preparing, q, l) (AtBootstrap, q, l)"
| bootstrap_lock: "Lock l (jProject j) = Ret l' \<Longrightarrow> work_step j (AtBootstrap, q, l) (Bootstrapping, q, l')"
| bootstrap_unlock: "Unlock l (jProject j) = Ret l' \<Longrightarrow> work_step j (Bootstrapping, q, l) (Running, q, l')"
| link: "work_step j (Running, q, l) (AtLink, q, l)"
| link_lock: "Lock l (jProject j) = Ret l' \<Longrightarrow> work_step j (AtLink, q, l) (Linking, q, l')"
| link_unlock: "Unlock l (jProject j) = Ret l' \<Longrightarrow> work_step j (Linking, q, l) (Closing, q, l')"
| leave: "ph \<in> {Preparing, Running, Closing} \<Longrightarrow> work_step j (ph, q, l) (Returned, Delete q j, l)"

inductive_simps work_step_phases:
  "work_step j (Entering, q, l) x" "work_step j (Coalescing, q, l) x" "work_step j (Preparing, q, l) x"
  "work_step j (AtBootstrap, q, l) x" "work_step j (Bootstrapping, q, l) x" "work_step j (Running, q, l) x"
  "work_step j (AtLink, q, l) x" "work_step j (Linking, q, l) x"
  "work_step j (Closing, q, l) x" "work_step j (Returned, q, l) x"

definition owns :: "phase \<Rightarrow> bool" where
  "owns ph \<longleftrightarrow> ph \<in> {Preparing, AtBootstrap, Bootstrapping, Running, AtLink, Linking, Closing}"

definition critical :: "phase \<Rightarrow> bool" where
  "critical ph \<longleftrightarrow> ph \<in> {Bootstrapping, Linking}"

lemma phase_simps [simp]:
  "owns Preparing" "owns AtBootstrap" "owns Bootstrapping" "owns Running" "owns AtLink" "owns Linking" "owns Closing"
  "\<not> owns Entering" "\<not> owns Coalescing" "\<not> owns Returned"
  "critical Bootstrapping" "critical Linking" "\<not> critical Entering" "\<not> critical Coalescing"
  "\<not> critical Preparing" "\<not> critical AtBootstrap" "\<not> critical Running" "\<not> critical AtLink" "\<not> critical Closing" "\<not> critical Returned"
  by (simp_all add: owns_def critical_def)

section \<open>\<open>Work\<close> follows the protocol\<close>

lemma BootstrapProject_sections:
  assumes "BootstrapProject s j w = Ret (err, s', w')"
  shows "(work_step j)\<^sup>*\<^sup>* (Preparing, q, sPq s) (Running, q, sPq s')"
proof -
  obtain l where "Lock (sPq s) (jProject j) = Ret l" "Unlock l (jProject j) = Ret (sPq s')"
    using assms by (auto simp: BootstrapProject_def Let_def split: outcome.splits prod.splits)
  then have "work_step j (Preparing, q, sPq s) (AtBootstrap, q, sPq s)"
    "work_step j (AtBootstrap, q, sPq s) (Bootstrapping, q, l)" "work_step j (Bootstrapping, q, l) (Running, q, sPq s')"
    by (simp_all add: work_step_phases)
  then show ?thesis by (meson converse_rtranclp_into_rtranclp rtranclp.rtrancl_refl)
qed

lemma finish_move_sections:
  assumes "finish_move err s j w = Ret (err', s', w')"
  shows "\<exists>ph \<in> {Running, Closing}. (work_step j)\<^sup>*\<^sup>* (Running, q, sPq s) (ph, q, sPq s')"
proof -
  consider "sPq s' = sPq s" | l where "Lock (sPq s) (jProject j) = Ret l" "Unlock l (jProject j) = Ret (sPq s')"
    using assms by (auto simp: finish_move_def Let_def split: outcome.splits prod.splits if_splits)
  then show ?thesis
  proof cases
    case 2
    then have "work_step j (Running, q, sPq s) (AtLink, q, sPq s)"
      "work_step j (AtLink, q, sPq s) (Linking, q, l)" "work_step j (Linking, q, l) (Closing, q, sPq s')"
      by (simp_all add: work_step_phases)
    then show ?thesis by (meson converse_rtranclp_into_rtranclp rtranclp.rtrancl_refl insertI1 insertI2)
  qed auto
qed

text \<open>The protocol depends on the ID and the project of a job only.\<close>

lemma work_step_same_job:
  assumes "same_job j j'"
  shows "work_step j' = work_step j"
proof -
  have e: "jID j' = jID j" "jProject j' = jProject j" using same_job_sel(1,2) [OF assms] by simp_all
  have "Add q j' = Add q j" "Delete q j' = Delete q j" for q
    by (simp_all add: Add_def Delete_def e)
  then show ?thesis
    by (intro ext) (simp add: work_step.simps e)
qed

lemma work_build_sections:
  assumes "work_build env s j start w = Ret (r, s', j', w')"
  shows "\<exists>ph \<in> {Running, Closing}. (work_step j)\<^sup>*\<^sup>* (Running, q, sPq s) (ph, q, sPq s')"
proof -
  obtain err1 s1 j1 w1 where b: "build_body env s j start w = (err1, s1, j1, w1)" by (metis prod_cases4)
  obtain err2 j2 w2 where f: "finish_info err1 j1 w1 = (err2, j2, w2)" by (metis prod_cases3)
  obtain err3 s3 w3 where m: "finish_move err2 s1 j2 w2 = Ret (err3, s3, w3)" "s' = s3"
    using assms b f by (auto simp: work_build_def split: outcome.splits prod.splits)
  have "same_job j j2" using build_body_job [OF b] finish_info_job [OF f] same_job_trans by blast
  moreover have "sPq s1 = sPq s" using build_body_queues [OF b] by (simp add: same_queues_def)
  ultimately show ?thesis
    using finish_move_sections [OF m(1), of q] m(2) work_step_same_job by simp
qed

lemma work_fresh_sections:
  assumes "work_fresh env s j start w = Ret (r, s', j', w')"
  shows "\<exists>ph \<in> {Preparing, Running, Closing}. (work_step j)\<^sup>*\<^sup>* (Preparing, q, sPq s) (ph, q, sPq s')"
proof (cases "sPq s' = sPq s")
  case False
  obtain err w1 s1 w2 where b: "BootstrapProject s j w1 = Ret (err, s1, w2)"
      and rest: "sPq s' = sPq s1 \<or>
        (\<exists>j1 w3. same_job j j1 \<and> work_build env s1 j1 start w3 = Ret (r, s', j', w'))"
    using assms False
    by (auto simp: work_fresh_def Let_def split: prod.splits outcome.splits option.splits sum.splits if_splits
        dest!: BootstrapBuildDir_job) blast+
  have "\<exists>ph \<in> {Running, Closing}. (work_step j)\<^sup>*\<^sup>* (Running, q, sPq s1) (ph, q, sPq s')"
    using rest
  proof
    assume "sPq s' = sPq s1"
    then show ?thesis by auto
  next
    assume "\<exists>j1 w3. same_job j j1 \<and> work_build env s1 j1 start w3 = Ret (r, s', j', w')"
    then obtain j1 w3 where "same_job j j1" "work_build env s1 j1 start w3 = Ret (r, s', j', w')" by blast
    then show ?thesis using work_build_sections work_step_same_job by metis
  qed
  then show ?thesis using BootstrapProject_sections [OF b, of q] by (meson insertCI insertE rtranclp_trans)
qed auto

lemma work_cache_sections:
  assumes "work_cache env s j start w = Ret (r, s', j', w')"
  shows "\<exists>ph \<in> {Preparing, Running, Closing}. (work_step j)\<^sup>*\<^sup>* (Preparing, q, sPq s) (ph, q, sPq s')"
proof -
  have "sPq s' = sPq s \<or> (\<exists>w1. work_fresh env s j start w1 = Ret (r, s', j', w'))"
    using assms
    by (auto simp: work_cache_def split: prod.splits outcome.splits option.splits sum.splits if_splits)
  then show ?thesis
  proof
    assume "sPq s' = sPq s"
    then show ?thesis by auto
  next
    assume "\<exists>w1. work_fresh env s j start w1 = Ret (r, s', j', w')"
    then show ?thesis using work_fresh_sections by blast
  qed
qed

text \<open>
  Every call of \<open>Work\<close> that returns, under any faults and any answers of Docker, treats the
  job queue and the mutexes as the protocol says: its effect on them is that of a run of the
  protocol from the start to the end.
\<close>

theorem Work_follows_protocol:
  assumes "Work env evs s j w = Ret (r, s', j', w')"
  shows "(work_step j)\<^sup>*\<^sup>* (Entering, sJq s, sPq s) (Returned, sJq s', sPq s')"
proof (cases "enqueued (sJq s) (jID j)")
  case True
  then obtain s1 j1 w1 where W: "Work env evs s j w = coalesce s1 j1 evs w1" "same_queues s s1"
    by (rule Work_waiter)
  have "coalesce s1 j1 evs w1 = Ret (r, s', j', w')" using W(1) assms by simp
  then have "same_queues s1 s'" by (rule coalesce_server)
  then have "same_queues s s'" using W(2) by (simp add: same_queues_def)
  moreover have "Add (sJq s) j = (False, sJq s)" using True by (simp add: Add_def enqueued_def)
  then have "work_step j (Entering, sJq s, sPq s) (Coalescing, sJq s, sPq s)"
    "work_step j (Coalescing, sJq s, sPq s) (Returned, sJq s, sPq s)"
    by (simp_all add: work_step_phases)
  ultimately have "(work_step j)\<^sup>*\<^sup>* (Entering, sJq s, sPq s) (Returned, sJq s, sPq s)"
    by (meson converse_rtranclp_into_rtranclp r_into_rtranclp)
  then show ?thesis using \<open>same_queues s s'\<close> by (simp add: same_queues_def)
next
  case False
  then obtain start s1 j1 w1 where W: "Work env evs s j w = unqueue j1 (work_cache env s1 j1 start w1)"
    and f: "sPq s1 = sPq s" "sJq s1 = snd (Add (sJq s) j)" "same_job j j1"
    by (rule Work_builder)
  obtain s2 where s2: "work_cache env s1 j1 start w1 = Ret (r, s2, j', w')" "s' = s2\<lparr>sJq := Delete (sJq s2) j1\<rparr>"
    using assms W by (auto simp: unqueue_Ret)
  have q: "sJq s2 = sJq s1" using work_cache_locks [OF s2(1)] by (simp add: same_locks_def)
  have "fst (Add (sJq s) j)" using False by (simp add: jq.claim_iff)
  then have "work_step j (Entering, sJq s, sPq s) (Preparing, sJq s1, sPq s)"
    using f(2) by (auto simp: work_step_phases prod_eq_iff)
  moreover obtain ph where ph: "ph \<in> {Preparing, Running, Closing}" "(work_step j)\<^sup>*\<^sup>* (Preparing, sJq s1, sPq s) (ph, sJq s1, sPq s2)"
    using work_cache_sections [OF s2(1), of "sJq s1"] f(1) work_step_same_job [OF f(3)] by auto
  moreover have "work_step j (ph, sJq s1, sPq s2) (Returned, Delete (sJq s1) j, sPq s2)"
    using ph(1) by (rule work_step.leave)
  moreover have "Delete (sJq s1) j1 = Delete (sJq s1) j"
    using same_job_sel(1) [OF f(3)] by (simp add: Delete_def)
  ultimately show ?thesis
    using s2(2) q by simp
qed

theorem Work_follows_protocol_witness:
  "\<exists>r s' j' w'. Work (demo_env 0) [] demo_server (demo_job []) (demo_world demo_tree) = Ret (r, s', j', w') \<and>
     (work_step (demo_job []))\<^sup>*\<^sup>* (Entering, NewJobQueue, NewProjectQueue) (Returned, sJq s', sPq s')"
proof -
  obtain bi s' j' w' where W:
      "Work (demo_env 0) [] demo_server (demo_job []) (demo_world demo_tree) = Ret ((Some bi, None), s', j', w')"
    using demo_build_succeeds by blast
  then show ?thesis using Work_follows_protocol [OF W] by (auto simp: demo_server_def)
qed

section \<open>Any number of workers\<close>

text \<open>The shared state and, for every call of \<open>Work\<close> so far, its job and where it is.\<close>

record workers =
  wJq :: JobQueue
  wPq :: ProjectQueue
  wThreads :: "(Job \<times> phase) list"

text \<open>A step of one of the workers; between steps new calls of \<open>Work\<close> may start.\<close>

inductive worker_step :: "workers \<Rightarrow> workers \<Rightarrow> bool" where
  run: "wThreads ws = xs @ (j, ph) # ys \<Longrightarrow> work_step j (ph, wJq ws, wPq ws) (ph', q, l) \<Longrightarrow>
     worker_step ws \<lparr>wJq = q, wPq = l, wThreads = xs @ (j, ph') # ys\<rparr>"

inductive workers_reachable :: "workers \<Rightarrow> bool" where
  start: "workers_reachable \<lparr>wJq = NewJobQueue, wPq = NewProjectQueue, wThreads = []\<rparr>"
| call: "workers_reachable ws \<Longrightarrow> workers_reachable (ws\<lparr>wThreads := wThreads ws @ [(j, Entering)]\<rparr>)"
| step: "workers_reachable ws \<Longrightarrow> worker_step ws ws' \<Longrightarrow> workers_reachable ws'"

inductive_cases worker_stepE: "worker_step ws ws'"

text \<open>The IDs that are being built and the projects whose mutex is used.\<close>

definition claimed :: "(Job \<times> phase) list \<Rightarrow> string list" where
  "claimed ts = map (jID \<circ> fst) (filter (owns \<circ> snd) ts)"

definition locked_projects :: "(Job \<times> phase) list \<Rightarrow> string list" where
  "locked_projects ts = map (jProject \<circ> fst) (filter (critical \<circ> snd) ts)"

definition workers_inv :: "workers \<Rightarrow> bool" where
  "workers_inv ws \<longleftrightarrow>
     distinct (claimed (wThreads ws)) \<and> (\<forall>i. enqueued (wJq ws) i \<longleftrightarrow> i \<in> set (claimed (wThreads ws))) \<and>
     distinct (locked_projects (wThreads ws)) \<and> (\<forall>p. held (wPq ws) p \<longleftrightarrow> p \<in> set (locked_projects (wThreads ws)))"

lemma claimed_simps [simp]:
  "claimed [] = []" "claimed (xs @ ys) = claimed xs @ claimed ys"
  "claimed ((j, ph) # ts) = (if owns ph then jID j # claimed ts else claimed ts)"
  "locked_projects [] = []" "locked_projects (xs @ ys) = locked_projects xs @ locked_projects ys"
  "locked_projects ((j, ph) # ts) = (if critical ph then jProject j # locked_projects ts else locked_projects ts)"
  by (simp_all add: claimed_def locked_projects_def)

lemma Add_True: "Add q j = (True, q') \<Longrightarrow> \<not> enqueued q (jID j) \<and> (\<forall>i. enqueued q' i \<longleftrightarrow> i = jID j \<or> enqueued q i)"
  using jq.claim_iff [of q j] jq.taken_claim [of q j] by simp

lemma Add_False: "Add q j = (False, q') \<Longrightarrow> q' = q"
  by (simp add: Add_def split: if_splits)

lemma Unlock_Ret: "Unlock l p = Ret l' \<Longrightarrow> held l p \<and> (\<forall>k. held l' k \<longleftrightarrow> k \<noteq> p \<and> held l k)"
  using pq.unlock_held [of l p] pq.unlock_free [of l p] by (cases "held l p") auto

lemma work_step_inv:
  assumes "work_step j (ph, q, l) (ph', q', l')"
    and "workers_inv \<lparr>wJq = q, wPq = l, wThreads = xs @ (j, ph) # ys\<rparr>"
  shows "workers_inv \<lparr>wJq = q', wPq = l', wThreads = xs @ (j, ph') # ys\<rparr>"
  using assms
  by (cases rule: work_step.cases)
    (auto simp: workers_inv_def jq.taken_release dest!: Add_True Add_False Unlock_Ret pq.lock_Ret)

lemma workers_reachable_inv: "workers_reachable ws \<Longrightarrow> workers_inv ws"
proof (induction rule: workers_reachable.induct)
  case start
  show ?case by (simp add: workers_inv_def jq.taken_empty held_def NewProjectQueue_def)
next
  case (call ws j)
  then show ?case by (simp add: workers_inv_def)
next
  case (step ws ws')
  from step.hyps(2) obtain xs j ph ys ph' q l where t: "wThreads ws = xs @ (j, ph) # ys"
      "work_step j (ph, wJq ws, wPq ws) (ph', q, l)" "ws' = \<lparr>wJq = q, wPq = l, wThreads = xs @ (j, ph') # ys\<rparr>"
    by (rule worker_stepE)
  have "ws = \<lparr>wJq = wJq ws, wPq = wPq ws, wThreads = xs @ (j, ph) # ys\<rparr>" using t(1) by simp
  then show ?case using work_step_inv [OF t(2)] step.IH t(3) by metis
qed

lemma distinct_two:
  assumes "distinct (map f (filter P ts))" and "i < length ts" and "k < length ts" and "i \<noteq> k" and "P (ts ! i)" and "P (ts ! k)"
  shows "f (ts ! i) \<noteq> f (ts ! k)"
  using assms
proof (induction ts arbitrary: i k)
  case (Cons t ts)
  then show ?case
    using nth_mem [of "i - 1" ts] nth_mem [of "k - 1" ts] by (cases i; cases k) (auto simp: image_iff split: if_splits)
qed simp


text \<open>Two workers, the first of which builds the job and is at the mutex of its project.\<close>

definition demo_workers :: workers where
  "demo_workers = \<lparr>wJq = snd (Add NewJobQueue (demo_job [])), wPq = NewProjectQueue,
     wThreads = [(demo_job [], AtBootstrap), (demo_job [], Coalescing)]\<rparr>"

lemma workers_run:
  assumes "workers_reachable \<lparr>wJq = q, wPq = l, wThreads = xs @ (j, ph) # ys\<rparr>" and "work_step j (ph, q, l) (ph', q', l')"
  shows "workers_reachable \<lparr>wJq = q', wPq = l', wThreads = xs @ (j, ph') # ys\<rparr>"
  by (rule workers_reachable.step [OF assms(1)], rule worker_step.run [of _ xs]) (use assms(2) in simp_all)

lemma demo_workers_reachable: "workers_reachable demo_workers"
proof -
  let ?j = "demo_job []" and ?q = "snd (Add NewJobQueue (demo_job []))" and ?l = NewProjectQueue
  have add: "Add NewJobQueue ?j = (True, ?q)" "Add ?q ?j = (False, ?q)"
    by (simp_all add: Add_def NewJobQueue_def)
  have "workers_reachable \<lparr>wJq = NewJobQueue, wPq = ?l, wThreads = [(?j, Entering), (?j, Entering)]\<rparr>"
    using workers_reachable.call [OF workers_reachable.call [OF workers_reachable.start, of ?j], of ?j] by simp
  then have "workers_reachable \<lparr>wJq = ?q, wPq = ?l, wThreads = [(?j, Preparing), (?j, Entering)]\<rparr>"
    by (rule workers_run [where xs = "[]", unfolded append_Nil]) (rule work_step.claim [OF add(1)])
  then have "workers_reachable \<lparr>wJq = ?q, wPq = ?l, wThreads = [(?j, Preparing), (?j, Coalescing)]\<rparr>"
    by (rule workers_run [where xs = "[(?j, Preparing)]", unfolded append_Cons append_Nil]) (rule work_step.join [OF add(2)])
  then show ?thesis
    unfolding demo_workers_def
    by (rule workers_run [where xs = "[]", unfolded append_Nil]) (rule work_step.bootstrap)
qed


section \<open>Progress\<close>

fun rank :: "phase \<Rightarrow> nat" where
  "rank Entering = 8" | "rank Preparing = 7" | "rank AtBootstrap = 6" | "rank Bootstrapping = 5" | "rank Running = 4"
| "rank AtLink = 3" | "rank Linking = 2" | "rank Closing = 1" | "rank Coalescing = 1" | "rank Returned = 0"

definition total_rank :: "workers \<Rightarrow> nat" where
  "total_rank ws = sum_list (map (rank \<circ> snd) (wThreads ws))"

lemma rank_bound: "rank ph \<le> 8"
  by (cases ph) simp_all

lemma total_rank_bound: "total_rank ws \<le> 8 * length (wThreads ws)"
proof -
  have "sum_list (map (rank \<circ> snd) ts) \<le> 8 * length ts" for ts :: "(Job \<times> phase) list"
    by (induction ts) (auto simp: rank_bound add_mono)
  then show ?thesis by (simp add: total_rank_def)
qed

lemma worker_step_rank:
  assumes "worker_step ws ws'"
  shows "total_rank ws' < total_rank ws"
proof -
  have "rank (fst x') < rank (fst x)" if "work_step j x x'" for j x x'
    using that by (cases rule: work_step.cases) auto
  then show ?thesis
    using assms by (auto simp: total_rank_def elim!: worker_stepE)
qed

lemma worker_steps_rank: "(worker_step ^^ n) ws ws' \<Longrightarrow> n + total_rank ws' \<le> total_rank ws"
proof (induction n arbitrary: ws')
  case (Suc n)
  then obtain ws1 where "(worker_step ^^ n) ws ws1" "worker_step ws1 ws'" by auto
  then show ?case using Suc.IH worker_step_rank by fastforce
qed simp

text \<open>No worker can take a step, other than one that gives up waiting for another builder.\<close>

definition only_waiting :: "workers \<Rightarrow> bool" where
  "only_waiting ws \<longleftrightarrow>
     (\<forall>(j, ph) \<in> set (wThreads ws). ph \<noteq> Coalescing \<longrightarrow> (\<nexists>x. work_step j (ph, wJq ws, wPq ws) x))"

lemma only_waiting_done:
  assumes "workers_inv ws" and "only_waiting ws" and "(j, ph) \<in> set (wThreads ws)"
  shows "ph \<in> {Coalescing, Returned}"
proof -
  have stop: "\<not> work_step i (p, wJq ws, wPq ws) x" if "(i, p) \<in> set (wThreads ws)" "p \<noteq> Coalescing" for i p x
    using assms(2) that by (cases x) (auto simp: only_waiting_def)
  have nc: "\<not> critical p" if "(i, p) \<in> set (wThreads ws)" for i p
  proof
    assume c: "critical p"
    have "jProject i \<in> set (locked_projects (wThreads ws))"
      using that c by (force simp: locked_projects_def)
    then have "held (wPq ws) (jProject i)" using assms(1) by (simp add: workers_inv_def)
    then obtain l where "Unlock (wPq ws) (jProject i) = Ret l" using pq.unlock_held by blast
    then show False
      using stop [OF that] c by (cases p) (auto simp: work_step_phases)
  qed
  then have "locked_projects (wThreads ws) = []"
    by (auto simp: locked_projects_def filter_empty_conv)
  then have "\<not> held (wPq ws) (jProject j)" using assms(1) by (simp add: workers_inv_def)
  then obtain l where l: "Lock (wPq ws) (jProject j) = Ret l" using pq.lock_free by blast
  obtain b q where a: "Add (wJq ws) j = (b, q)" by force
  show ?thesis
    using stop [OF assms(3)] nc [OF assms(3)] l a
    by (cases ph; cases b) (auto simp: work_step_phases)
qed

text \<open>
  The workers never get stuck. From every reachable state the calls of \<open>Work\<close> that have been
  made take at most eight steps each on the shared state, in any interleaving; and when no call
  can take another step, apart from those that wait for another builder, all others have
  returned, no job is marked as being built and no mutex is held.
\<close>

theorem workers_progress:
  assumes "workers_reachable ws" and "(worker_step ^^ n) ws ws'"
  shows "n \<le> 8 * length (wThreads ws) \<and>
     (only_waiting ws' \<longrightarrow>
        (\<forall>(j, ph) \<in> set (wThreads ws'). ph \<in> {Coalescing, Returned}) \<and>
        (\<forall>i. \<not> enqueued (wJq ws') i) \<and> (\<forall>p. \<not> held (wPq ws') p))"
proof (intro conjI impI)
  show "n \<le> 8 * length (wThreads ws)"
    using worker_steps_rank [OF assms(2)] total_rank_bound [of ws] by simp
  have "workers_reachable ws'"
    using assms(2,1) by (induction n arbitrary: ws') (auto intro: workers_reachable.step)
  then have inv: "workers_inv ws'" by (rule workers_reachable_inv)
  assume o: "only_waiting ws'"
  show d: "\<forall>(j, ph) \<in> set (wThreads ws'). ph \<in> {Coalescing, Returned}"
    using only_waiting_done [OF inv o] by blast
  have "\<not> owns ph \<and> \<not> critical ph" if "(j, ph) \<in> set (wThreads ws')" for j ph
    using bspec [OF d that] by auto
  then have "claimed (wThreads ws') = []" "locked_projects (wThreads ws') = []"
    by (auto simp: claimed_def locked_projects_def filter_empty_conv)
  then show "\<forall>i. \<not> enqueued (wJq ws') i" "\<forall>p. \<not> held (wPq ws') p"
    using inv by (simp_all add: workers_inv_def)
qed

theorem workers_progress_witness:
  "\<exists>ws'. (worker_step ^^ 1) demo_workers ws' \<and> 1 \<le> 8 * length (wThreads demo_workers)"
proof -
  obtain l where "Lock NewProjectQueue ''app'' = Ret l"
    using pq.lock_free [of NewProjectQueue "''app''"] by (auto simp: held_def NewProjectQueue_def)
  then have "worker_step demo_workers \<lparr>wJq = wJq demo_workers, wPq = l,
      wThreads = [] @ (demo_job [], Bootstrapping) # [(demo_job [], Coalescing)]\<rparr>" (is "worker_step _ ?ws")
    by (intro worker_step.run [where ph = AtBootstrap]) (simp_all add: demo_workers_def work_step_phases)
  then have "(worker_step ^^ 1) demo_workers ?ws" unfolding relpowp_1 .
  with workers_progress [OF demo_workers_reachable this] show ?thesis by blast
qed

end
