(* ===== verification/Client.thy ===== *)
theory Client
  imports Filesystem
begin

text \<open>
  The command line client: \<open>cmd/mistry/main.go\<close> and \<open>cmd/mistry/transport.go\<close>. The flags are
  the fields of a record, as the package \<open>cli\<close> stores them (the timeout as \<open>time.ParseDuration\<close>
  parses it); the HTTP exchange is an argument. Relative paths are taken from \<open>/\<close>. An operation
  returns what it prints besides its result.
\<close>

section \<open>Output\<close>

text \<open>
  What is written to standard output or to standard error, and the texts that \<open>fmt\<close> makes of a
  \<open>time.Duration\<close> and a \<open>time.Time\<close>, and (with \<open>%#v\<close>) of a \<open>JobRequest\<close> and of a response.
\<close>

datatype printed = Out string | Err string

record formats =
  fmtDuration :: "int \<Rightarrow> string"
  fmtTime :: "int \<Rightarrow> string"
  fmtRequest :: "JobRequest \<Rightarrow> string"
  fmtResponse :: "nat \<Rightarrow> content \<Rightarrow> string"

definition say :: "bool \<Rightarrow> string \<Rightarrow> printed list" where
  "say b s = (if b then [Out s] else [])"

definition line :: "string \<Rightarrow> string" where
  "line s = s @ [CHR 0x0A]"

section \<open>Errors and responses\<close>

text \<open>The errors that \<open>isTimeout\<close> tells apart: a \<open>*url.Error\<close> with its \<open>Timeout()\<close>, or any other.\<close>

datatype client_error = Plain goerr | URLError string bool

fun client_text :: "client_error \<Rightarrow> string" where
  "client_text (Plain e) = Error e"
| "client_text (URLError s t) = s"

fun isTimeout :: "client_error \<Rightarrow> bool" where
  "isTimeout (URLError s t) = t"
| "isTimeout (Plain e) = False"

text \<open>\<open>client.Post\<close>: a transport error, or the status and what reading the body yields.\<close>

type_synonym 'd post = "string \<Rightarrow> content \<Rightarrow> int \<Rightarrow> 'd world \<Rightarrow> (client_error + nat \<times> (goerr + content)) \<times> 'd world"

definition sendRequest ::
  "formats \<Rightarrow> 'd post \<Rightarrow> string \<Rightarrow> content \<Rightarrow> bool \<Rightarrow> int \<Rightarrow> 'd world \<Rightarrow> ((client_error + content) \<times> printed list) \<times> 'd world" where
  "sendRequest fm post url reqBody verbose timeout w =
     (case post url reqBody timeout w of
        (Inl err, w) \<Rightarrow> ((Inl err, []), w)
      | (Inr (status, Inl err), w) \<Rightarrow> ((Inl (Plain err), []), w)
      | (Inr (status, Inr respBody), w) \<Rightarrow>
          let out = say verbose (line (''Server response: '' @ fmtResponse fm status respBody))
          in if status = 503 then
               ((Inl (Plain (ErrorString (''(error: '' @ itoa (int status) @ '') Server is overloaded; try again later''))), out), w)
             else if status \<noteq> 201 then
               ((Inl (Plain (ErrorString
                   (''(error: '' @ itoa (int status) @ '') Error scheduling build: '' @ bytes_of respBody))), out), w)
             else ((Inr respBody, out), w))"

section \<open>Job parameters\<close>

text \<open>\<open>strings.TrimLeft(arg, "--")\<close> removes all leading dashes. Only the first two parts of a split count.\<close>

fun parse_args :: "string list \<Rightarrow> Params \<Rightarrow> Params" where
  "parse_args [] parsed = parsed"
| "parse_args (a # as) parsed =
     (let arg = trim_left ''--'' a
      in if CHR ''='' \<in> set arg then
           (let parts = split_on (CHR ''='') arg
            in parse_args as (AList.update (parts ! 0) (parts ! 1) parsed))
         else case as of
                [] \<Rightarrow> parsed
              | v # as' \<Rightarrow> parse_args as' (AList.update arg v parsed))"

definition parseDynamicArgs :: "string list \<Rightarrow> Params" where
  "parseDynamicArgs args = parse_args args []"

text \<open>A value that starts with \<open>@\<close> is replaced by the contents of the file it names.\<close>

fun expand_params :: "Params \<Rightarrow> 'd world \<Rightarrow> (goerr + Params) \<times> 'd world" where
  "expand_params [] w = (Inr [], w)"
| "expand_params ((k, v) # ps) w =
     (case (if prefix ''@'' v then
              (if v = ''@'' then (Inl (PathError ''open'' [] ENOENT), w)
               else (case os_ReadFile (fpath (tl v)) w of
                       (Inl err, w) \<Rightarrow> (Inl err, w)
                     | (Inr c, w) \<Rightarrow> (Inr (bytes_of c), w)))
            else (Inr v, w)) of
        (Inl err, w) \<Rightarrow> (Inl err, w)
      | (Inr v', w) \<Rightarrow>
          (case expand_params ps w of
             (Inl err, w) \<Rightarrow> (Inl err, w)
           | (Inr ps', w) \<Rightarrow> (Inr ((k, v') # ps'), w)))"

section \<open>Transports\<close>

fun remove_items :: "path \<Rightarrow> string list \<Rightarrow> 'd world \<Rightarrow> goerr option \<times> 'd world" where
  "remove_items dir [] w = (None, w)"
| "remove_items dir (n # ns) w =
     (case os_RemoveAll (Join dir n) w of
        (Some err, w) \<Rightarrow> (Some err, w)
      | (None, w) \<Rightarrow> remove_items dir ns w)"

definition removeDirContents :: "string \<Rightarrow> 'd world \<Rightarrow> goerr option \<times> 'd world" where
  "removeDirContents dir w =
     (case os_ReadDir (fpath dir) w of
        (Inl err, w) \<Rightarrow> (Some err, w)
      | (Inr items, w) \<Rightarrow> remove_items (fpath dir) (map fst items) w)"

definition Scp_Copy ::
  "'d env \<Rightarrow> string \<Rightarrow> string \<Rightarrow> string \<Rightarrow> string \<Rightarrow> string \<Rightarrow> bool \<Rightarrow> 'd world \<Rightarrow> ((string \<times> goerr option) \<times> 'd world) outcome" where
  "Scp_Copy env user host project src dst clearDst w =
     (case (if clearDst then removeDirContents dst w else (None, w)) of
        (Some err, w) \<Rightarrow> Ret (([], Some err), w)
      | (None, w) \<Rightarrow> Ret (RunCmd env [''scp'', ''-r'', user @ ''@'' @ host @ '':'' @ src, dst] w))"

text \<open>\<open>log.Fatalf\<close> ends the process.\<close>

definition Rsync_Copy ::
  "'d env \<Rightarrow> string \<Rightarrow> string \<Rightarrow> string \<Rightarrow> string \<Rightarrow> string \<Rightarrow> bool \<Rightarrow> 'd world \<Rightarrow> ((string \<times> goerr option) \<times> 'd world) outcome" where
  "Rsync_Copy env user host project src dst clearDst w =
     (case str_index src project of
        None \<Rightarrow> Panic (''Expected '' @ [CHR 0x27] @ src @ [CHR 0x27] @ '' to contain '' @ [CHR 0x27] @ project @ [CHR 0x27])
      | Some idx \<Rightarrow>
          Ret (RunCmd env ([''rsync'', ''-rtlp''] @ (if clearDst then [''--delete''] else [])
                 @ [user @ ''@'' @ host @ ''::mistry/'' @ drop idx src, dst]) w))"

text \<open>The map \<open>transports\<close> as \<open>init\<close> fills it.\<close>

definition transports ::
  "'d env \<Rightarrow> (TransportMethod \<times> (string \<Rightarrow> string \<Rightarrow> string \<Rightarrow> string \<Rightarrow> string \<Rightarrow> bool \<Rightarrow> 'd world \<Rightarrow>
     ((string \<times> goerr option) \<times> 'd world) outcome)) list" where
  "transports env = [(Scp_method, Scp_Copy env), (Rsync_method, Rsync_Copy env)]"

section \<open>The target directory\<close>

text \<open>\<open>os.MkdirAll\<close>.\<close>

fun mkdir_all :: "path \<Rightarrow> path \<Rightarrow> node \<Rightarrow> errno + node" where
  "mkdir_all d [] r = Inr r"
| "mkdir_all d (c # cs) r =
     (case fs_stat max_links True (d @ [c]) r of
        Inr (_, Dir _) \<Rightarrow> mkdir_all (d @ [c]) cs r
      | Inr _ \<Rightarrow> Inl ENOTDIR
      | Inl ENOENT \<Rightarrow>
          (case fs_create (d @ [c]) (Dir []) r of Inl e \<Rightarrow> Inl e | Inr r' \<Rightarrow> mkdir_all (d @ [c]) cs r')
      | Inl e \<Rightarrow> Inl e)"

definition os_MkdirAll :: "string \<Rightarrow> 'd world \<Rightarrow> goerr option \<times> 'd world" where
  "os_MkdirAll s w =
     (if s = [] then (Some (PathError ''mkdir'' [] ENOENT), w)
      else path_do ''mkdir'' (fpath s) (mkdir_all [] (fpath s)) w)"

definition strip_slash :: "string \<Rightarrow> string" where
  "strip_slash s = (if s \<noteq> [] \<and> last s = CHR ''/'' then butlast s else s)"

definition ensure_target :: "bool \<Rightarrow> string \<Rightarrow> 'd world \<Rightarrow> (goerr option \<times> printed list) \<times> 'd world" where
  "ensure_target verbose target w =
     (case (if target = [] then (Inl (PathError ''stat'' [] ENOENT), w) else os_Stat (fpath target) w) of
        (Inl err, w) \<Rightarrow>
          if IsNotExist err then
            (let out = say verbose (''Target path ('' @ target @ '') does not exist. Creating it..'')
             in case os_MkdirAll target w of
                  (Some err, w) \<Rightarrow>
                    ((Some (ErrorString (''Error creating target path ('' @ target @ ''): '' @ Error err)), out), w)
                | (None, w) \<Rightarrow> ((None, out), w))
          else ((Some (ErrorString (''Error checking for target path ('' @ target @ ''): '' @ Error err)), []), w)
      | (Inr fi, w) \<Rightarrow>
          if \<not> IsDir fi
          then ((Some (ErrorString (''Target path ('' @ target @ '') is not a directory. Aborting.'')), []), w)
          else ((None, []), w))"

section \<open>The command \<open>build\<close>\<close>

record build_flags =
  fHost :: string
  fPort :: string
  fProject :: string
  fGroup :: string
  fTarget :: string
  fTransport :: string
  fTransportUser :: string
  fVerbose :: bool
  fJsonResult :: bool
  fNoWait :: bool
  fClearTarget :: bool
  fRebuild :: bool
  fTimeout :: "(goerr + int) option"

definition build_validate :: "build_flags \<Rightarrow> goerr option" where
  "build_validate f =
     (if fHost f = [] then Some (ErrorString ''host cannot be empty'')
      else if fProject f = [] then Some (ErrorString ''project cannot be empty'')
      else if fTarget f = [] then Some (ErrorString ''target cannot be empty'')
      else if \<not> fNoWait f \<and> fTransport f = []
        then Some (ErrorString ''you need to either specify a transport or use the async flag'')
      else case fTimeout f of Some (Inl err) \<Rightarrow> Some err | _ \<Rightarrow> None)"

definition base_url :: "build_flags \<Rightarrow> string" where
  "base_url f = ''http://'' @ fHost f @ '':'' @ fPort f"

definition jobs_url :: "build_flags \<Rightarrow> string" where
  "jobs_url f = base_url f @ ''/jobs'' @ (if fNoWait f then ''?async'' else [])"

definition flag_timeout :: "build_flags \<Rightarrow> int" where
  "flag_timeout f = (case fTimeout f of Some (Inr t) \<Rightarrow> t | _ \<Rightarrow> 0)"

text \<open>\<open>--json-result\<close> switches \<open>--verbose\<close> off.\<close>

definition verbosely :: "build_flags \<Rightarrow> bool" where
  "verbosely f \<longleftrightarrow> fVerbose f \<and> \<not> fJsonResult f"

text \<open>What is printed of the build information, and the error logs of a failed build.\<close>

definition show_result :: "formats \<Rightarrow> build_flags \<Rightarrow> content \<Rightarrow> BuildInfo \<Rightarrow> printed list" where
  "show_result fm f body bi =
     (let bool = (\<lambda>b. if b then ''true'' else ''false'')
      in say (\<not> fJsonResult f) (line (''Logs can be found at '' @ base_url f @ ''/'' @ bURL bi)) @
         say (verbosely f)
           (line [] @ line ''Result:'' @
            line (''Started at: '' @ fmtTime fm (bStartedAt bi) @ '' ExitCode: '' @ itoa (bExitCode bi) @
              '' Params: '' @ fmt_Params (bParams bi) @ '' Cached: '' @ bool (bCached bi) @ '' Coalesced: '' @ bool (bCoalesced bi)) @
            line [] @ line ''Logs:'' @ line (bContainerStdouterr bi)) @
         say (fJsonResult f) (line (bytes_of body)))"

definition show_failure :: "BuildInfo \<Rightarrow> printed list" where
  "show_failure bi =
     [Err (if bContainerStderr bi \<noteq> [] then line ''Container error logs:'' @ '' '' @ line (bContainerStderr bi)
           else line ''There are no container error logs.'')]"

text \<open>From the response to the copied artifacts.\<close>

definition fetch_result ::
  "formats \<Rightarrow> build_flags \<Rightarrow> (string \<Rightarrow> string \<Rightarrow> string \<Rightarrow> string \<Rightarrow> string \<Rightarrow> bool \<Rightarrow> 'd world \<Rightarrow> ((string \<times> goerr option) \<times> 'd world) outcome) \<Rightarrow>
     string \<Rightarrow> content \<Rightarrow> 'd world \<Rightarrow> ((goerr option \<times> printed list) \<times> 'd world) outcome" where
  "fetch_result fm f copy target body w =
     (let (bi, w) = NewBuildInfo w
      in case unmarshal_BuildInfo body bi of
           Inl err \<Rightarrow> Ret ((Some err, []), w)
         | Inr bi \<Rightarrow>
             let out = show_result fm f body bi
             in if bExitCode bi \<noteq> ContainerSuccessExitCode
                then Ret ((Some (ErrorString (''Build failed with exit code '' @ itoa (bExitCode bi))), out @ show_failure bi), w)
                else
                  let out = out @ say (verbosely f) (line (''Copying artifacts to '' @ target @ '' ...''))
                  in case copy (fTransportUser f) (fHost f) (fProject f) (bPath bi @ ''/*'') target (fClearTarget f) w of
                       Blocked \<Rightarrow> Blocked
                     | Panic m \<Rightarrow> Panic m
                     | Ret ((copied, Some err), w) \<Rightarrow> Ret ((Some err, out @ [Out (line copied)]), w)
                     | Ret ((copied, None), w) \<Rightarrow>
                         Ret ((None, out @ [Out (line copied)] @ say (verbosely f) (line (''Artifacts copied to '' @ target))), w))"

definition build_action ::
  "'d env \<Rightarrow> formats \<Rightarrow> 'd post \<Rightarrow> build_flags \<Rightarrow> string list \<Rightarrow> 'd world \<Rightarrow> ((goerr option \<times> printed list) \<times> 'd world) outcome" where
  "build_action env fm post f args w =
     (case build_validate f of
        Some err \<Rightarrow> Ret ((Some err, []), w)
      | None \<Rightarrow>
          (case map_of (transports env) (fTransport f) of
             None \<Rightarrow> Ret ((Some (ErrorString (''invalid transport argument ('' @ fTransport f @ '')'')), []), w)
           | Some copy \<Rightarrow>
               (case expand_params (parseDynamicArgs args) w of
                  (Inl err, w) \<Rightarrow> Ret ((Some err, []), w)
                | (Inr params, w) \<Rightarrow>
                    let target = strip_slash (fTarget f)
                    in case ensure_target (verbosely f) target w of
                         ((Some err, out), w) \<Rightarrow> Ret ((Some err, out), w)
                       | ((None, out), w) \<Rightarrow>
                           let jr = \<lparr>rProject = fProject f, rParams = params, rGroup = fGroup f, rRebuild = fRebuild f\<rparr>;
                               out = out @ say (verbosely f) (line (''Scheduling '' @ fmtRequest fm jr @ ''...''));
                               ((body, sent), w) =
                                 sendRequest fm post (jobs_url f) (Doc (marshal_JobRequest jr)) (verbosely f) (flag_timeout f) w;
                               out = out @ sent
                           in case body of
                                Inl err \<Rightarrow>
                                  if isTimeout err
                                  then Ret ((Some (ErrorString (''The build did not finish after '' @ fmtDuration fm (flag_timeout f) @
                                         '', '' @ client_text err)), out), w)
                                  else Ret ((Some (case err of Plain e \<Rightarrow> e | URLError s t \<Rightarrow> ErrorString s), out), w)
                              | Inr body \<Rightarrow>
                                  if fNoWait f then Ret ((None, out @ say (verbosely f) (line ''Build scheduled successfully'')), w)
                                  else
                                    (case fetch_result fm f copy target body w of
                                       Blocked \<Rightarrow> Blocked
                                     | Panic m \<Rightarrow> Panic m
                                     | Ret ((err, shown), w) \<Rightarrow> Ret ((err, out @ shown), w)))))"

text \<open>
  The command line: the flags that are not given, for the current user, and the end of the
  program, with its exit status and its output. \<open>flags\<close> is what the
  \<open>cli\<close> package makes of the arguments and these defaults.
\<close>

definition build_defaults :: "string \<Rightarrow> build_flags" where
  "build_defaults username =
     \<lparr>fHost = ''0.0.0.0'', fPort = ''8462'', fProject = [], fGroup = [], fTarget = ''.'', fTransport = ''scp'',
      fTransportUser = username, fVerbose = False, fJsonResult = False, fNoWait = False, fClearTarget = False,
      fRebuild = False, fTimeout = Some (Inr (60 * 60 * second))\<rparr>"

definition client_main ::
  "'d env \<Rightarrow> formats \<Rightarrow> 'd post \<Rightarrow> goerr + string \<Rightarrow> (build_flags \<Rightarrow> build_flags) \<Rightarrow> string list \<Rightarrow> 'd world \<Rightarrow>
     ((int \<times> printed list) \<times> 'd world) outcome" where
  "client_main env fm post currentUser flags args w =
     (case currentUser of
        Inl err \<Rightarrow> Ret ((1, [Err (line (''Cannot fetch current user: '' @ Error err))]), w)
      | Inr username \<Rightarrow>
          (case build_action env fm post (flags (build_defaults username)) args w of
             Blocked \<Rightarrow> Blocked
           | Panic m \<Rightarrow> Panic m
           | Ret ((Some err, out), w) \<Rightarrow> Ret ((1, out @ [Err (line (Error err))]), w)
           | Ret ((None, out), w) \<Rightarrow> Ret ((0, out), w)))"

section \<open>Parameters on the command line\<close>

text \<open>A parameter is written as \<open>--key=value\<close> or as \<open>--key value\<close>.\<close>

fun write_arg :: "bool \<times> string \<times> string \<Rightarrow> string list" where
  "write_arg (joined, k, v) = (if joined then [''--'' @ k @ ''='' @ v] else [''--'' @ k, v])"

lemma trim_dashes: "k \<noteq> [] \<Longrightarrow> hd k \<noteq> CHR ''-'' \<Longrightarrow> trim_left ''--'' (''--'' @ k @ x) = k @ x"
  by (cases k) (auto simp: trim_left_def)

lemma update_new: "k \<notin> set (map fst xs) \<Longrightarrow> AList.update k v xs = xs @ [(k, v)]"
  by (induction xs) auto

lemma parse_args_written:
  assumes "distinct (map (fst \<circ> snd) ps)" and "\<forall>p \<in> set ps. fst (snd p) \<notin> set (map fst acc)"
    and "\<forall>(joined, k, v) \<in> set ps. k \<noteq> [] \<and> hd k \<noteq> CHR ''-'' \<and> CHR ''='' \<notin> set k \<and> (joined \<longrightarrow> CHR ''='' \<notin> set v)"
  shows "parse_args (concat (map write_arg ps)) acc = acc @ map snd ps"
  using assms
proof (induction ps arbitrary: acc)
  case (Cons p ps)
  obtain joined k v where p: "p = (joined, k, v)" by (cases p)
  have k: "k \<noteq> []" "hd k \<noteq> CHR ''-''" "CHR ''='' \<notin> set k" "joined \<Longrightarrow> CHR ''='' \<notin> set v"
    using Cons.prems(3) p by auto
  have IH: "parse_args (concat (map write_arg ps)) (acc @ [(k, v)]) = acc @ map snd (p # ps)"
    using Cons.IH [of "acc @ [(k, v)]"] Cons.prems p by auto
  have u: "AList.update k v acc = acc @ [(k, v)]" using Cons.prems(2) p by (intro update_new) auto
  show ?case
  proof (cases joined)
    case True
    have "split_on (CHR ''='') (k @ ''='' @ v) = [k, v]" using split_on_append [of "CHR ''=''" k v] k(3,4) True by simp
    with IH u p True trim_dashes [OF k(1,2), of "''='' @ v"] show ?thesis by (simp add: Let_def)
  next
    case False
    with IH u p k(3) trim_dashes [OF k(1,2), of "[]"] show ?thesis by (simp add: Let_def)
  qed
qed simp

text \<open>
  C39. Parameters given on the command line, each as \<open>--key=value\<close> or as \<open>--key value\<close>, in any
  mixture, are parsed to exactly these parameters, as long as the keys differ and contain no
  equals sign, and the values after an equals sign contain none. A value given as an argument of
  its own may contain anything.
\<close>

theorem parseDynamicArgs_roundtrip:
  assumes "distinct (map (fst \<circ> snd) ps)"
    and "\<forall>(joined, k, v) \<in> set ps. k \<noteq> [] \<and> hd k \<noteq> CHR ''-'' \<and> CHR ''='' \<notin> set k \<and> (joined \<longrightarrow> CHR ''='' \<notin> set v)"
  shows "parseDynamicArgs (concat (map write_arg ps)) = map snd ps"
  using parse_args_written [OF assms(1) _ assms(2), of "[]"] by (simp add: parseDynamicArgs_def)

theorem parseDynamicArgs_roundtrip_witness:
  "parseDynamicArgs (concat (map write_arg [(True, ''lockfile'', ''@yarn.lock''), (False, ''opt'', ''--a=b''), (True, ''_x'', [])])) =
     [(''lockfile'', ''@yarn.lock''), (''opt'', ''--a=b''), (''_x'', [])]"
  by (subst parseDynamicArgs_roundtrip) auto

text \<open>
  A value after an equals sign is cut at its next equals sign: \<open>--key=a=b\<close> is parsed as the
  value \<open>a\<close>.
\<close>

theorem parseDynamicArgs_truncates:
  assumes "k \<noteq> []" and "hd k \<noteq> CHR ''-''" and "CHR ''='' \<notin> set k" and "CHR ''='' \<notin> set a"
  shows "parseDynamicArgs [''--'' @ k @ ''='' @ a @ ''='' @ b] = [(k, a)]"
proof -
  have "split_on (CHR ''='') (k @ CHR ''='' # a @ CHR ''='' # b) = k # a # split_on (CHR ''='') b"
    using split_on_append [of "CHR ''=''" k "a @ CHR ''='' # b"] split_on_append [of "CHR ''=''" a b] assms(3,4) by simp
  then show ?thesis
    using trim_dashes [OF assms(1,2), of "''='' @ a @ ''='' @ b"] by (simp add: parseDynamicArgs_def Let_def)
qed

theorem parseDynamicArgs_truncates_witness: "parseDynamicArgs [''--flags=-Dx=y''] = [(''flags'', ''-Dx'')]"
  using parseDynamicArgs_truncates [of "''flags''" "''-Dx''" "''y''"] by simp

end
