(* ===== verification/Exchange.thy ===== *)
theory Exchange
  imports Web_Props Client
begin

text \<open>
  Client and server together: what the client makes of the server's answers, and a network that
  carries the client's request to the handler of new jobs and its response back.
\<close>

section \<open>When the client succeeds\<close>

text \<open>Without \<open>--verbose\<close> nothing is printed before the result.\<close>

lemma ensure_target_quiet: "ensure_target v target w = ((err, out), w') \<Longrightarrow> \<not> v \<Longrightarrow> out = []"
  by (auto simp: ensure_target_def say_def Let_def split: prod.splits sum.splits option.splits if_splits)

lemma sendRequest_quiet: "sendRequest fm post url body v t w = ((res, out), w') \<Longrightarrow> \<not> v \<Longrightarrow> out = []"
  by (auto simp: sendRequest_def say_def Let_def split: prod.splits sum.splits if_splits)


definition demo_flags :: build_flags where
  "demo_flags = \<lparr>fHost = ''h'', fPort = ''8462'', fProject = ''app'', fGroup = [], fTarget = ''/out/'',
     fTransport = ''rsync'', fTransportUser = ''u'', fVerbose = True, fJsonResult = True, fNoWait = False, fClearTarget = True, fRebuild = False,
     fTimeout = Some (Inr 60)\<rparr>"

definition demo_formats :: formats where
  "demo_formats = \<lparr>fmtDuration = (\<lambda>_. []), fmtTime = (\<lambda>_. []), fmtRequest = (\<lambda>_. []), fmtResponse = (\<lambda>_ _. [])\<rparr>"

definition demo_client :: "nat env" where
  "demo_client = (demo_env 0)\<lparr>exec_cmd := (\<lambda>args w. (([], None), w))\<rparr>"

definition demo_answer :: "int \<Rightarrow> nat post" where
  "demo_answer code url body t w = (Inr (201, Inr (Doc (marshal_BuildInfo ((demo_info code)\<lparr>bPath := ''/build/app''\<rparr>)))), w)"

lemma demo_action:
  "\<exists>out w'. build_action demo_client demo_formats (demo_answer 0) demo_flags [''--a=1''] (demo_world (Dir [])) = Ret ((None, out), w')"
proof -
  let ?bi = "(demo_info 0)\<lparr>bPath := ''/build/app''\<rparr>"
  have e: "expand_params (parseDynamicArgs [''--a=1'']) (demo_world (Dir [])) = (Inr [(''a'', ''1'')], demo_world (Dir []))"
    by (simp add: parseDynamicArgs_def trim_left_def Let_def)
  have p: "fpath ''/out'' = [''out'']" by (simp add: fpath_def clean_name_def)
  obtain w1 where t: "ensure_target False ''/out'' (demo_world (Dir [])) = ((None, []), w1)"
    by (simp add: ensure_target_def say_def os_MkdirAll_def p os_Stat_def os_simps fs_stat_def fs_create_def)
  obtain b w2 where n: "NewBuildInfo w1 = (b, w2)" by force
  have "bParams b = []" "decoded b ?bi = ?bi\<lparr>bParams := sort_key fst (bParams ?bi)\<rparr>" using decoded_new [OF n] by simp_all
  then have "unmarshal_BuildInfo (Doc (marshal_BuildInfo ?bi)) b = Inr (?bi\<lparr>bParams := sort_key fst (bParams ?bi)\<rparr>)"
    using unmarshal_marshal_BuildInfo [of ?bi b] by (simp add: demo_info_def)
  moreover have "str_index ''/build/app/*'' ''app'' = Some 7" by simp
  ultimately show ?thesis
    using e t n
    by (simp add: build_action_def build_validate_def demo_flags_def transports_def Scp_method_def Rsync_method_def strip_slash_def
        sendRequest_def demo_answer_def fetch_result_def verbosely_def say_def ContainerSuccessExitCode_def Rsync_Copy_def RunCmd_def demo_client_def demo_info_def Let_def)
qed


section \<open>Client and server\<close>

text \<open>The client's request as the server sees it, and the server's answer as the client sees it.\<close>

definition client_request :: "build_flags \<Rightarrow> content \<Rightarrow> request" where
  "client_request f body = \<lparr>qMethod = ''POST'', qPath = ''/jobs'', qQuery = (if fNoWait f then [''async''] else []),
     qContentType = ''application/json'', qBody = Inr body\<rparr>"

definition answer_of :: "ResponseWriter \<Rightarrow> nat \<times> (goerr + content)" where
  "answer_of rw = ((case wStatus rw of None \<Rightarrow> 200 | Some code \<Rightarrow> code),
     Inr (case wBody rw of [c] \<Rightarrow> c | cs \<Rightarrow> Text (concat (map bytes_of cs))))"

text \<open>
  A connection to a server in the state \<open>s\<close>, whose pool goes through the events \<open>es\<close> meanwhile; a
  handler that does not return makes the client time out, one that panics closes the connection.
\<close>

definition connected :: "'s env \<Rightarrow> pool_event list \<Rightarrow> 's HttpServer \<Rightarrow> 's world \<Rightarrow> build_flags \<Rightarrow> 'd post" where
  "connected env es s ws f url body t w =
     (case HandleNewJob env es s (client_request f body) NewResponseWriter ws of
        Ret (rw, _, _) \<Rightarrow> (Inr (answer_of rw), w)
      | Blocked \<Rightarrow> (Inl (URLError (''Post '' @ url @ '': timeout awaiting response headers'') True), w)
      | Panic m \<Rightarrow> (Inl (URLError (''Post '' @ url @ '': EOF'') False), w))"

text \<open>What the client makes of a build information that the server sends.\<close>

lemma fetch_result_sent:
  assumes "distinct (map fst (bParams bi))" and "NewBuildInfo w = (b, w')"
  shows "\<exists>shown. (\<not> verbosely f \<longrightarrow> shown = [Out (line (if fJsonResult f then bytes_of (Doc (marshal_BuildInfo bi))
       else ''Logs can be found at '' @ base_url f @ ''/'' @ bURL bi))]) \<and>
     fetch_result fm f copy target (Doc (marshal_BuildInfo bi)) w =
     (if bExitCode bi \<noteq> 0 then Ret ((Some (ErrorString (''Build failed with exit code '' @ itoa (bExitCode bi))), shown @ show_failure bi), w')
      else case copy (fTransportUser f) (fHost f) (fProject f) (bPath bi @ ''/*'') target (fClearTarget f) w' of
             Blocked \<Rightarrow> Blocked
           | Panic m \<Rightarrow> Panic m
           | Ret ((copied, err), w) \<Rightarrow>
               Ret ((err, shown @ say (verbosely f) (line (''Copying artifacts to '' @ target @ '' ...'')) @ [Out (line copied)] @
                 say (verbosely f \<and> err = None) (line (''Artifacts copied to '' @ target))), w))"
proof -
  have "unmarshal_BuildInfo (Doc (marshal_BuildInfo bi)) b = Inr (bi\<lparr>bParams := sort_key fst (bParams bi)\<rparr>)"
    using unmarshal_marshal_BuildInfo [OF assms(1), of b] decoded_new [OF assms(2)] by simp
  then show ?thesis
    using assms(2)
    by (intro exI [of _ "show_result fm f (Doc (marshal_BuildInfo bi)) (bi\<lparr>bParams := sort_key fst (bParams bi)\<rparr>)"])
      (auto simp: fetch_result_def ContainerSuccessExitCode_def show_failure_def show_result_def say_def Let_def
        split: outcome.splits option.splits)
qed



end
