(* ===== verification/Spec2Isabelle.thy ===== *)
theory Spec2Isabelle
  imports Startup Answers Races Workers Exchange
begin

text \<open>
  \<^bold>\<open>mistry\<close> is a build server. A client posts a job (a project, a group and parameters) to the
  daemon \<open>mistryd\<close>; the daemon computes an ID for the job, builds the Docker image of the project,
  runs a container on a fresh build directory, keeps the result by its ID, and answers further
  requests for the same ID from what it keeps. The client then copies the artifacts. This
  development models the Go sources under \<open>src/\<close> and proves what makes them correct.

  \<^bold>\<open>The parts and how they interact.\<close> The client (\<open>cmd/mistry\<close>) sends one HTTP request. The handler
  \<open>HandleNewJob\<close> (\<open>cmd/mistryd/server.go\<close>) makes a \<open>Job\<close> (\<open>job.go\<close>) and hands it to the worker pool
  (\<open>worker_pool.go\<close>), whose workers call \<open>Server.Work\<close> (\<open>worker.go\<close>). \<open>Work\<close> uses the job queue and
  the project mutexes (\<open>job_queue.go\<close>, \<open>project_queue.go\<close>), the file system adapter
  (\<open>pkg/filesystem\<close>), the Docker client and the metrics (\<open>metrics/metrics.go\<close>). The result goes back
  through a channel to the handler and to the client, which runs a transport (\<open>transport.go\<close>). The
  web view lists and shows builds, and streams the log of a running build through the broker
  and the tailer (\<open>pkg/broker\<close>, \<open>pkg/tailer\<close>). The commands of the daemon (\<open>cmd/mistryd/main.go\<close>)
  read the configuration (\<open>config.go\<close>), remove the builds that a dead server has left, start the
  server, or rebuild images.

  \<^bold>\<open>The ground.\<close>
  \<^item> \<open>Prelude\<close>: outcomes of calls (\<open>Ret\<close>, \<open>Blocked\<close>, \<open>Panic\<close>), Go's string functions, generic lemmas,
    and the collections \<open>os_simps\<close> and \<open>world_simps\<close>.
  \<^item> \<open>Json\<close>, \<open>Sha256\<close>: \<open>encoding/json\<close> as far as used, and SHA-256 in full.
  \<^item> \<open>Os\<close>: a file tree with links, the system calls on it, injected faults, the clock.
  \<^item> \<open>Env\<close>: what is not under \<open>src/\<close>, as the record \<open>env\<close> that definitions take as an argument:
    commands that are run, the Docker client with its daemon, the bytes of archives.

  \<^bold>\<open>The components.\<close> Structs are records with prefixed fields, functions are definitions with the
  name of the Go function, errors are values of \<open>goerr\<close>, and everything that changes the disk or
  the daemon passes a \<open>world\<close>.
  \<^item> \<open>Types\<close>, \<open>Utils\<close>, \<open>Filesystem\<close>, \<open>Config\<close>: \<open>pkg/types\<close>, \<open>pkg/utils\<close>, \<open>pkg/filesystem\<close>, \<open>config.go\<close>.
  \<^item> \<open>Job\<close>, \<open>Queues\<close>, \<open>Metrics\<close>, \<open>Worker\<close>: \<open>job.go\<close>, \<open>job_queue.go\<close> and \<open>project_queue.go\<close>,
    \<open>metrics.go\<close>, \<open>worker.go\<close>. \<open>Work\<close> is composed of its phases; the deferred functions run in
    Go's order.
  \<^item> \<open>Pool\<close>: \<open>worker_pool.go\<close> as a state machine over channel operations.
  \<^item> \<open>Projects\<close>, \<open>Rebuild\<close>, \<open>Handlers\<close>: the three parts of \<open>server.go\<close>.
  \<^item> \<open>Broker\<close>: \<open>tailer.go\<close> and \<open>broker.go\<close>; \<open>Client\<close>: \<open>cmd/mistry\<close>; \<open>Daemon\<close>: \<open>cmd/mistryd/main.go\<close>.
  \<^item> \<open>Steps\<close>: a call of \<open>Work\<close> cut into the steps at which it meets other calls (\<open>thread_step\<close>).
  \<^item> \<open>Serve\<close>: the routes of \<open>NewServer\<close>, the dispatch of a request (\<open>ServeHTTP\<close>), and all that
    \<open>ListenAndServe\<close> sets going at the same time, as events on one daemon (\<open>daemon_step\<close>).

  \<^bold>\<open>Interfaces.\<close> The locale \<open>filesystem_adapter\<close> is the contract of \<open>Create\<close> and \<open>Remove\<close>, met by the
  plain adapter; \<open>claim_registry\<close> and \<open>lock_table\<close> are those of the job queue and the project
  queue; \<open>store_refinement\<close> is that of a server of requests towards the abstract store of results,
  met by \<open>Work\<close>. The properties use the facts of the interpretations.

  \<^bold>\<open>What is proved.\<close>
  \<^item> \<open>Work_Locks\<close>, \<open>Work_Build\<close>, \<open>Work_Total\<close>, \<open>Work_Props\<close>, \<open>Work_Cases\<close>: \<open>Work\<close> returns under all
    faults and gives back what it takes; without faults, whatever Docker answers, a fresh build
    is published as a whole and nothing else on disk changes; results are served from the
    cache, failed ones rebuilt, running ones waited for; the metrics stay consistent.
  \<^item> \<open>Group_Builds\<close>: a build of a group starts from a copy of the latest successful one, without its
    parameters, and becomes the latest one itself if it succeeds.
  \<^item> \<open>Store\<close>, \<open>Footprint\<close>, \<open>Requests\<close>: an abstract store of results with the latest build of each
    group; what a job may change on disk; every sequence of requests behaves as the store, so a
    successful build is never repeated.
  \<^item> \<open>Steps\<close>, \<open>History\<close>, \<open>Phases\<close>, \<open>Concurrent\<close>, \<open>Interleaving\<close>, \<open>Histories\<close>: the steps in a row are
    \<open>Work\<close>; a history of effects on the store; what holds for a call at each of its steps; what
    one step does; the invariant of any number of calls, interleaved in any order; so they keep
    the store: every answer is explained by effects in a common history, no job is built twice
    with success, builds of a group start from a success, a call that cannot go on waits for a
    mutex whose holder can, no call panics, and all come to an end.
  \<^item> \<open>Races\<close>: a call that waits while a failed build is being repeated can report the old failure,
    or fail because the failed build was just removed.
  \<^item> \<open>Reads\<close>, \<open>Serve\<close>, \<open>Running\<close>, \<open>Answers\<close>, \<open>Startup\<close>: the web view changes nothing on disk; the URL of a build
    leads to it; in a running daemon, whatever happens in whatever order, every client that is
    answered gets what the store explains, and the daemon does not panic as long as logs can be
    opened; the work left is bounded and never stuck, so every client that waits is answered;
    started again after it was killed at any moment, it goes on with the same store.
  \<^item> \<open>Workers\<close>: what \<open>Work\<close> does to the shared queues is a protocol; under all interleavings of any
    number of workers it excludes two builders of one ID and two users of one project's
    mutex, and it cannot get stuck.
  \<^item> \<open>Job_Props\<close>: what IDs depend on and when they collide, paths, archives, JSON round trip.
  \<^item> \<open>Pool\<close>: bounds, delivery of every result to its own future, draining.
  \<^item> \<open>Web_Props\<close>, \<open>Web_View\<close>, \<open>Exchange\<close>: answers of the handlers, the list and pages of builds,
    log streaming, and a request followed from the command line to the build and back, with what
    the client prints.
  \<^item> \<open>Broker\<close>, \<open>Projects\<close>, \<open>Rebuild\<close>, \<open>Client\<close>, \<open>Daemon\<close>: delivery of log lines, pruning, the books of
    a rebuild, command line parameters, configurations, and recovery after a crash.

  The theory \<open>Demo\<close> holds the concrete server, daemon and file trees on which the theorems are
  instantiated.

  \<^bold>\<open>Concurrency.\<close> Between two steps of a call, all others may go any number of steps. The cuts are
  where a call meets others: its claim, its look at the cache, the project's directories (made
  under the mutex), its pending directory, the build in it, the move, the removal of the old latest
  link (after which it keeps the mutex, and others may see that there is none), the new latest
  link (after which it gives the mutex back), and the release. Within a step a call changes only
  files of its own job and files behind the mutex. A waiting call looks for the build and reads its
  exit code in steps of its own, without a claim; \<open>Races\<close> shows what can come in between. A request
  to the web view is answered in one step. The
  theorems about interleavings are for the plain adapter and a disk without faults; Docker may
  answer anything, but with jobs of a group the container has to leave the cache and artifacts
  directories in place, and \<open>cp -r\<close> has to copy.

  \<^bold>\<open>Waiting and fuel.\<close> A loop that waits for others takes what the others do as an argument: the
  ticks of a coalesced job with the tree at each tick (\<open>select_event\<close>), the events of the pool
  (\<open>pool_event\<close>) and of the broker (\<open>broker_event\<close>), the polls of a tailer (\<open>poll\<close>). When the list
  ends before the loop does, the outcome is \<open>Blocked\<close>. \<open>read_all\<close> collects the deliveries of a given
  number of reads; \<open>tailer_follows\<close> says how many are enough. Resolving a path follows at most
  \<open>max_links\<close> links, as the operating system does.

  \<^bold>\<open>Not modelled.\<close> Log output (of the daemon, and of a rebuild but for its last line); the HTML templates,
  scripts and style sheets (a page is rendered by an argument); TLS and sockets of \<open>net/http\<close> (a
  network is an argument of the client); registration with Prometheus and its buckets; how the
  \<open>cli\<close> package parses arguments and prints help (the flags with their default values are
  modelled); file modes and owners. Nothing is assumed of the command \<open>btrfs\<close>, so the theorems
  about disk contents are for the plain adapter.
\<close>

end
